(* ===== verification/Prelude.thy ===== *)
theory Prelude
  imports Main
begin

text \<open>
  Shared vocabulary of the news-bot development: the Python string operations the
  sources use (\<open>str.strip\<close>, iterating a text file by lines, \<open>str.join\<close>,
  \<open>str(int)\<close>), the Python exceptions that can escape an operation, and the
  observable events (log records, \<open>print\<close> output, HTTP requests) that the
  components append to the trace of the process. Strings are byte strings
  (\<open>char list\<close>); the sources only handle ASCII configuration and digits.
\<close>

named_theorems py_simps "evaluation rules of the Python string helpers"

section \<open>Exceptions and observable events\<close>

text \<open>
  Every exception that can leave a modelled operation. \<open>FileNotFoundError\<close> and
  \<open>OSError\<close> come from \<open>open\<close>, \<open>ValueError\<close> from \<open>float()\<close>,
  \<open>IndexError\<close> from \<open>posts[0]\<close>, \<open>PrawcoreError\<close> from the Reddit client,
  \<open>SlackApiError\<close> and \<open>ConnectionError\<close> from the Slack client.
\<close>

datatype py_exc =
    FileNotFoundError string
  | OSError string
  | ValueError string
  | IndexError
  | PrawcoreError
  | SlackApiError
  | ConnectionError

datatype level = DEBUG | INFO | WARNING | ERROR

text \<open>
  An event of the process trace: a record handed to the root logger, a line
  printed on stdout, a listing request to Reddit (query string, limit), a
  \<open>chat.postMessage\<close> request to Slack (channel, text), a write of a file
  (path, new content; an empty content for a truncation).
\<close>

datatype event =
    Log level string
  | Stdout string
  | Reddit_new string nat
  | Slack_post string string
  | Write_file string string

type_synonym trace = "event list"
type_synonym path = string

section \<open>Characters and digits\<close>

text \<open>\<open>str.isspace\<close> on the ASCII range: tab to carriage return and 0x1c to space.\<close>

definition is_py_space :: "char \<Rightarrow> bool" where
  "is_py_space c \<longleftrightarrow> of_char c \<in> {9, 10, 11, 12, 13, 28, 29, 30, 31, 32 :: nat}"

definition is_digit :: "char \<Rightarrow> bool" where
  "is_digit c \<longleftrightarrow> 48 \<le> (of_char c :: nat) \<and> (of_char c :: nat) \<le> 57"

definition digit_char :: "nat \<Rightarrow> char" where
  "digit_char d = ''0123456789'' ! d"

definition digit_val :: "char \<Rightarrow> nat" where
  "digit_val c = of_char c - 48"

text \<open>The value of a string of decimal digits, most significant first.\<close>

definition digits_val :: "string \<Rightarrow> nat" where
  "digits_val s = foldl (\<lambda>acc c. 10 * acc + digit_val c) 0 s"

text \<open>\<open>str(n)\<close> for a natural number.\<close>

fun show_nat :: "nat \<Rightarrow> string" where
  "show_nat n = (if n < 10 then [digit_char n] else show_nat (n div 10) @ [digit_char (n mod 10)])"

declare show_nat.simps [simp del]

section \<open>Python string operations\<close>

text \<open>\<open>s.strip()\<close> with no argument: drop whitespace at both ends.\<close>

definition py_strip :: "string \<Rightarrow> string" where
  "py_strip s = rev (dropWhile is_py_space (rev (dropWhile is_py_space s)))"

text \<open>
  Text-mode \<open>open(path, 'r')\<close> uses universal newlines: \<open>\r\n\<close> and a lone
  \<open>\r\<close> are read as \<open>\n\<close>. As in the incremental decoder, a flag records that
  the previous character was a carriage return, so that a following \<open>\n\<close> is
  dropped.
\<close>

fun translate_nl :: "bool \<Rightarrow> string \<Rightarrow> string" where
  "translate_nl pending_cr [] = []"
| "translate_nl pending_cr (c # cs) =
     (if c = CHR 0x0D then CHR ''\<newline>'' # translate_nl True cs
      else if c = CHR ''\<newline>'' \<and> pending_cr then translate_nl False cs
      else c # translate_nl False cs)"

definition translate_newlines :: "string \<Rightarrow> string" where
  "translate_newlines s = translate_nl False s"

text \<open>
  The reference meaning of universal newlines, as the Python documentation states
  it: \<open>s.replace('\r\n', '\n').replace('\r', '\n')\<close>, two passes over the text.
\<close>

fun replace_crlf :: "string \<Rightarrow> string" where
  "replace_crlf (c # d # cs) =
     (if c = CHR 0x0D \<and> d = CHR ''\<newline>'' then CHR ''\<newline>'' # replace_crlf cs else c # replace_crlf (d # cs))"
| "replace_crlf cs = cs"

definition cr_to_nl :: "char \<Rightarrow> char" where
  "cr_to_nl c = (if c = CHR 0x0D then CHR ''\<newline>'' else c)"

text \<open>
  \<open>for line in fd\<close> on a text file: the lines of the (translated) text, each with
  its terminating newline; the last one lacks it when the text does not end with a
  newline. An empty file has no lines.
\<close>

fun py_lines_acc :: "string \<Rightarrow> string \<Rightarrow> string list" where
  "py_lines_acc cur [] = (if cur = [] then [] else [rev cur])"
| "py_lines_acc cur (c # cs) =
     (if c = CHR ''\<newline>'' then rev (c # cur) # py_lines_acc [] cs
      else py_lines_acc (c # cur) cs)"

definition py_lines :: "string \<Rightarrow> string list" where
  "py_lines s = py_lines_acc [] s"

text \<open>\<open>sep.join(xs)\<close>.\<close>

fun py_join :: "string \<Rightarrow> string list \<Rightarrow> string" where
  "py_join sep [] = []"
| "py_join sep [x] = x"
| "py_join sep (x # y # zs) = x @ sep @ py_join sep (y # zs)"

text \<open>
  \<open>s.split(c)\<close> for a one-character separator, as a reference for reading a
  joined string back: the pieces between separators, empty ones included.
\<close>

fun py_split_acc :: "char \<Rightarrow> string \<Rightarrow> string \<Rightarrow> string list" where
  "py_split_acc c cur [] = [rev cur]"
| "py_split_acc c cur (x # xs) =
     (if x = c then rev cur # py_split_acc c [] xs else py_split_acc c (x # cur) xs)"

definition py_split :: "char \<Rightarrow> string \<Rightarrow> string list" where
  "py_split c s = py_split_acc c [] s"

section \<open>Process environment\<close>

type_synonym environ = "string \<Rightarrow> string option"

text \<open>\<open>os.environ.get(key, default)\<close>.\<close>

definition os_environ_get :: "environ \<Rightarrow> string \<Rightarrow> string \<Rightarrow> string" where
  "os_environ_get env key dflt = (case env key of Some v \<Rightarrow> v | None \<Rightarrow> dflt)"

section \<open>Lemmas on the string helpers\<close>

lemma of_char_digit_char: "d < 10 \<Longrightarrow> of_char (digit_char d) = 48 + (d::nat)"
proof -
  assume "d < 10"
  then have "d \<in> {0, 1, 2, 3, 4, 5, 6, 7, 8, 9}" by auto
  then show ?thesis by (auto simp: digit_char_def)
qed

lemma digit_val_digit_char [simp]: "d < 10 \<Longrightarrow> digit_val (digit_char d) = d"
  by (simp add: digit_val_def of_char_digit_char)

lemma is_digit_digit_char [simp]: "d < 10 \<Longrightarrow> is_digit (digit_char d)"
  by (simp add: is_digit_def of_char_digit_char)

lemma foldl_digits: "foldl (\<lambda>acc c. 10 * acc + digit_val c) a ys =
        a * 10 ^ length ys + foldl (\<lambda>acc c. 10 * acc + digit_val c) 0 ys"
proof (induction ys arbitrary: a)
  case Nil
  then show ?case by simp
next
  case (Cons y ys)
  have "foldl (\<lambda>acc c. 10 * acc + digit_val c) a (y # ys) = (10 * a + digit_val y) * 10 ^ length ys + foldl (\<lambda>acc c. 10 * acc + digit_val c) 0 ys"
    using Cons.IH [of "10 * a + digit_val y"] by simp
  moreover have "foldl (\<lambda>acc c. 10 * acc + digit_val c) 0 (y # ys) = digit_val y * 10 ^ length ys + foldl (\<lambda>acc c. 10 * acc + digit_val c) 0 ys"
    using Cons.IH [of "digit_val y"] by simp
  ultimately show ?case by (simp add: algebra_simps)
qed

lemma digits_val_append [py_simps]:
  "digits_val (xs @ ys) = digits_val xs * 10 ^ length ys + digits_val ys"
  by (simp add: digits_val_def foldl_digits [of "foldl _ 0 xs"])

lemma digits_val_Cons_zero [simp]: "digits_val (CHR ''0'' # xs) = digits_val xs"
  using digits_val_append [of "[CHR ''0'']" xs] by (simp add: digits_val_def digit_val_def)

lemma digits_val_replicate_zero [simp]: "digits_val (replicate k (CHR ''0'') @ xs) = digits_val xs"
  by (induction k) simp_all

lemma show_nat_digits [py_simps]: "set (show_nat n) \<subseteq> Collect is_digit"
proof (induction n rule: show_nat.induct)
  case (1 n)
  then show ?case by (subst show_nat.simps) auto
qed

lemma show_nat_nonempty [simp]: "show_nat n \<noteq> []"
  by (subst show_nat.simps) simp

lemma digits_val_show_nat [simp]: "digits_val (show_nat n) = n"
proof (induction n rule: show_nat.induct)
  case (1 n)
  show ?case
  proof (cases "n < 10")
    case True
    then show ?thesis by (subst show_nat.simps) (simp add: digits_val_def)
  next
    case False
    with "1.IH" show ?thesis
      by (subst show_nat.simps) (simp add: digits_val_append digits_val_def)
  qed
qed

lemma py_lines_acc_concat: "concat (py_lines_acc cur s) = rev cur @ s"
  by (induction cur s rule: py_lines_acc.induct) auto

lemma py_lines_concat [py_simps]: "concat (py_lines s) = s"
  by (simp add: py_lines_def py_lines_acc_concat)

lemma py_lines_Nil [simp]: "py_lines [] = []"
  by (simp add: py_lines_def)

lemma py_lines_acc_nonempty: "l \<in> set (py_lines_acc cur s) \<Longrightarrow> l \<noteq> []"
  by (induction cur s rule: py_lines_acc.induct) (auto split: if_splits)

lemma py_join_append_sep:
  "xs \<noteq> [] \<Longrightarrow> py_join sep (xs @ [y]) = py_join sep xs @ sep @ y"
  by (induction sep xs rule: py_join.induct) simp_all

lemma py_split_acc_append: "c \<notin> set x \<Longrightarrow> py_split_acc c cur (x @ rest) = py_split_acc c (rev x @ cur) rest"
  by (induction x arbitrary: cur) auto

lemma py_split_join:
  "names \<noteq> [] \<Longrightarrow> \<forall>s\<in>set names. c \<notin> set s \<Longrightarrow> py_split c (py_join [c] names) = names"
proof (induction "[c]" names rule: py_join.induct)
  case (2 x)
  then show ?case using py_split_acc_append [of c x "[]" "[]"] by (simp add: py_split_def)
next
  case (3 x y zs)
  then show ?case using py_split_acc_append [of c x "[]"] by (simp add: py_split_def)
qed simp

lemma py_strip_id:
  "s \<noteq> [] \<Longrightarrow> \<not> is_py_space (hd s) \<Longrightarrow> \<not> is_py_space (last s) \<Longrightarrow> py_strip s = s"
proof -
  assume ne: "s \<noteq> []" and hd: "\<not> is_py_space (hd s)" and lst: "\<not> is_py_space (last s)"
  from ne hd have d1: "dropWhile is_py_space s = s" by (cases s) auto
  from ne obtain ys y where s: "s = ys @ [y]" by (metis rev_exhaust)
  with lst have "dropWhile is_py_space (rev s) = rev s" by simp
  with d1 show ?thesis by (simp add: py_strip_def)
qed

lemma digit_not_space: "is_digit c \<Longrightarrow> \<not> is_py_space c"
  by (auto simp: is_digit_def is_py_space_def)

lemma translate_nl_no_cr: "CHR 0x0D \<notin> set s \<Longrightarrow> translate_nl False s = s"
  by (induction s) auto

lemma translate_newlines_no_cr: "CHR 0x0D \<notin> set s \<Longrightarrow> translate_newlines s = s"
  by (simp add: translate_newlines_def translate_nl_no_cr)

lemma py_strip_snoc_space: "is_py_space c \<Longrightarrow> py_strip (s @ [c]) = py_strip s"
proof (cases "\<forall>x\<in>set s. is_py_space x")
  case True
  assume c: "is_py_space c"
  have "dropWhile is_py_space s = []" "dropWhile is_py_space (s @ [c]) = []"
    using True c by (induction s) auto
  then show ?thesis unfolding py_strip_def by (simp only:)
next
  case False
  assume c: "is_py_space c"
  then obtain x where "x \<in> set s" "\<not> is_py_space x" using False by blast
  then have "dropWhile is_py_space (s @ [c]) = dropWhile is_py_space s @ [c]"
    by (rule dropWhile_append1)
  with c show ?thesis by (simp add: py_strip_def)
qed

lemma py_lines_acc_snoc_nl:
  "CHR ''\<newline>'' \<notin> set s \<Longrightarrow>
   py_lines_acc cur (s @ CHR ''\<newline>'' # rest) = (rev cur @ s @ ''\<newline>'') # py_lines_acc [] rest"
  by (induction s arbitrary: cur) auto

lemma dropWhile_none: "\<forall>c\<in>set xs. \<not> P c \<Longrightarrow> dropWhile P xs = xs"
  by (cases xs) auto

lemma py_strip_no_space: "\<forall>c\<in>set s. \<not> is_py_space c \<Longrightarrow> py_strip s = s"
  by (simp add: py_strip_def dropWhile_none)

lemma translate_nl_pending:
  "translate_nl True s = translate_nl False (case s of c # cs \<Rightarrow> if c = CHR ''\<newline>'' then cs else s | [] \<Rightarrow> [])"
  by (cases s) auto

text \<open>The streaming newline decoder, which carries a pending carriage return from one character to the next, computes the same text as the two-pass reference replacement of CR LF and then CR by LF.\<close>

theorem translate_newlines_reference: "translate_newlines s = map cr_to_nl (replace_crlf s)"
  unfolding translate_newlines_def
proof (induction s rule: replace_crlf.induct)
  case (1 c d cs)
  then show ?case by (auto simp: translate_nl_pending cr_to_nl_def)
qed (auto simp: cr_to_nl_def)

end
