(* ===== verification/Timestamp.thy ===== *)
theory Timestamp
  imports Prelude Complex_Main
begin

text \<open>
  Timestamps of the bot: the value of \<open>time.time()\<close>, the \<open>created\<close> attribute of a
  Reddit post and the content of the watermark file are Python floats. They are
  modelled as exact decimals \<open>Dec m e\<close> with value \<open>m / 10^e\<close>, which is what
  \<open>str()\<close> prints and \<open>float()\<close> reads back: comparisons are on the value
  (\<open>dec_val\<close>, a rational). Binary rounding is not modelled. \<open>str_float\<close> is
  Python's positional \<open>repr\<close> (shortest digits, at least one fractional digit),
  which is Python's own output for \<open>1e-4 \<le> |x| < 1e16\<close>, the range of wall-clock
  timestamps. \<open>parse_float\<close> is \<open>float()\<close> on text: the whole grammar
  Python accepts (sign, digit parts with underscores, point, exponent,
  \<open>inf\<close>, \<open>infinity\<close> and \<open>nan\<close> in any case), giving a \<open>pyfloat\<close>,
  and \<open>ValueError\<close> for anything else. Its finite results are exact: the
  overflow of a huge literal to \<open>inf\<close> and the underflow of a tiny one to
  zero are not modelled.
\<close>

datatype dec = Dec int nat

definition dec_val :: "dec \<Rightarrow> rat" where
  "dec_val d = (case d of Dec m e \<Rightarrow> of_int m / 10 ^ e)"

text \<open>The strict comparison \<open>a > b\<close> of two timestamps.\<close>

definition dec_gt :: "dec \<Rightarrow> dec \<Rightarrow> bool" where
  "dec_gt a b \<longleftrightarrow> dec_val b < dec_val a"

text \<open>\<open>a + b\<close> on timestamps, exact at the finer of the two scales.\<close>

definition dec_add :: "dec \<Rightarrow> dec \<Rightarrow> dec" where
  "dec_add a b = (case a of Dec m1 e1 \<Rightarrow> case b of Dec m2 e2 \<Rightarrow>
     Dec (m1 * 10 ^ (max e1 e2 - e1) + m2 * 10 ^ (max e1 e2 - e2)) (max e1 e2))"

section \<open>Printing: \<open>str(x)\<close>\<close>

text \<open>Drop trailing zeros of the fraction (the shortest representation).\<close>

fun norm_dec :: "int \<Rightarrow> nat \<Rightarrow> dec" where
  "norm_dec m e = (if 0 < e \<and> m mod 10 = 0 then norm_dec (m div 10) (e - 1) else Dec m e)"

declare norm_dec.simps [simp del]

definition frac_digits :: "nat \<Rightarrow> nat \<Rightarrow> string" where
  "frac_digits e f = (if e = 0 then ''0'' else replicate (e - length (show_nat f)) (CHR ''0'') @ show_nat f)"

definition str_float :: "dec \<Rightarrow> string" where
  "str_float d = (case d of Dec m0 e0 \<Rightarrow>
     (case norm_dec m0 e0 of Dec m e \<Rightarrow>
        (if m < 0 then ''-'' else []) @ show_nat (nat \<bar>m\<bar> div 10 ^ e) @ ''.'' @
        frac_digits e (nat \<bar>m\<bar> mod 10 ^ e)))"

section \<open>Python floats and \<open>float(s)\<close>\<close>

text \<open>
  A Python float as the bot can hold one: a finite value (an exact decimal),
  one of the two infinities, or NaN. \<open>float()\<close> produces all four from text.
\<close>

datatype pyfloat = Fin dec | PInf | NInf | NaN

text \<open>
  \<open>created > time_since\<close> for a finite timestamp and a Python float, as IEEE
  compares them: nothing is greater than \<open>inf\<close> or than NaN, every finite value
  is greater than \<open>-inf\<close>.
\<close>

definition flt_gt :: "dec \<Rightarrow> pyfloat \<Rightarrow> bool" where
  "flt_gt c x = (case x of Fin d \<Rightarrow> dec_val d < dec_val c | PInf \<Rightarrow> False | NInf \<Rightarrow> True | NaN \<Rightarrow> False)"

text \<open>\<open>str(x)\<close> of a Python float (the f-string of the bot's \<open>print\<close>).\<close>

definition str_pyfloat :: "pyfloat \<Rightarrow> string" where
  "str_pyfloat x = (case x of Fin d \<Rightarrow> str_float d | PInf \<Rightarrow> ''inf'' | NInf \<Rightarrow> ''-inf'' | NaN \<Rightarrow> ''nan'')"

definition split_sign :: "string \<Rightarrow> bool \<times> string" where
  "split_sign t = (case t of
       c # r \<Rightarrow> (if c = CHR ''-'' then (True, r) else if c = CHR ''+'' then (False, r) else (False, t))
     | [] \<Rightarrow> (False, []))"

definition ascii_lower :: "char \<Rightarrow> char" where
  "ascii_lower c = (if 65 \<le> (of_char c :: nat) \<and> (of_char c :: nat) \<le> 90 then char_of (of_char c + (32::nat)) else c)"

text \<open>
  The grammar \<open>float()\<close> accepts after stripping whitespace (Python reference,
  \<open>float\<close> and floating-point literals): an optional sign, then \<open>inf\<close>,
  \<open>infinity\<close> or \<open>nan\<close> in any case, or a number
  \<open>([digitpart] "." digitpart | digitpart ["."]) [("e"|"E") [sign] digitpart]\<close>
  with \<open>digitpart ::= digit (["_"] digit)*\<close>. \<open>digitpart_acc\<close> scans the
  longest digit part at the front and returns its digits without underscores
  and the rest of the text.
\<close>

fun digitpart_acc :: "string \<Rightarrow> string \<Rightarrow> string \<times> string" where
  "digitpart_acc acc (c # d # cs) =
     (if is_digit c then digitpart_acc (c # acc) (d # cs)
      else if c = CHR ''_'' \<and> acc \<noteq> [] \<and> is_digit d then digitpart_acc (d # acc) cs
      else (rev acc, c # d # cs))"
| "digitpart_acc acc [c] = (if is_digit c then (rev (c # acc), []) else (rev acc, [c]))"
| "digitpart_acc acc [] = (rev acc, [])"

definition digitpart :: "string \<Rightarrow> string \<times> string" where
  "digitpart s = digitpart_acc [] s"

definition parse_exponent :: "string \<Rightarrow> int option" where
  "parse_exponent s = (case split_sign s of (neg, r) \<Rightarrow> (case digitpart r of (ds, rest) \<Rightarrow>
     if ds \<noteq> [] \<and> rest = [] then Some (if neg then - int (digits_val ds) else int (digits_val ds))
     else None))"

text \<open>A number without its sign: the digits of the mantissa, the number of fraction digits, the exponent.\<close>

definition parse_number :: "string \<Rightarrow> (nat \<times> nat \<times> int) option" where
  "parse_number s = (case digitpart s of (ip, r1) \<Rightarrow>
     (case (case r1 of c # r \<Rightarrow> if c = CHR ''.'' then digitpart r else ([], r1) | [] \<Rightarrow> ([], [])) of (fr, r2) \<Rightarrow>
       if ip = [] \<and> fr = [] then None
       else (case r2 of
               [] \<Rightarrow> Some (digits_val (ip @ fr), length fr, 0)
             | c # r \<Rightarrow> if c = CHR ''e'' \<or> c = CHR ''E''
                        then map_option (\<lambda>x. (digits_val (ip @ fr), length fr, x)) (parse_exponent r)
                        else None)))"

text \<open>The exact value \<open>\<plusminus>m \<cdot> 10^(x - f)\<close> as a decimal.\<close>

definition sci_dec :: "bool \<Rightarrow> nat \<Rightarrow> nat \<Rightarrow> int \<Rightarrow> dec" where
  "sci_dec neg m f x = (let v = (if neg then - int m else int m); k = x - int f in
     if 0 \<le> k then Dec (v * 10 ^ nat k) 0 else Dec v (nat (- k)))"

definition parse_float :: "string \<Rightarrow> py_exc + pyfloat" where
  "parse_float s = (case split_sign (py_strip s) of (neg, r) \<Rightarrow>
     (let l = map ascii_lower r in
      if l = ''inf'' \<or> l = ''infinity'' then Inr (if neg then NInf else PInf)
      else if l = ''nan'' then Inr NaN
      else (case parse_number r of
              None \<Rightarrow> Inl (ValueError s)
            | Some (m, f, x) \<Rightarrow> Inr (Fin (sci_dec neg m f x)))))"

section \<open>Round trip and value lemmas\<close>

lemma dec_val_norm_dec: "dec_val (norm_dec m e) = dec_val (Dec m e)"
proof (induction m e rule: norm_dec.induct)
  case (1 m e)
  show ?case
  proof (cases "0 < e \<and> m mod 10 = 0")
    case True
    then obtain k where e: "e = Suc k" and m: "m = 10 * (m div 10)"
      by (metis gr0_implies_Suc mult_div_mod_eq add_0_right)
    have "dec_val (Dec (m div 10) (e - 1)) = dec_val (Dec m e)"
      using e by (subst m) (simp add: dec_val_def)
    with True "1.IH" show ?thesis by (subst norm_dec.simps) simp
  next
    case False
    then show ?thesis by (subst norm_dec.simps) auto
  qed
qed

lemma length_show_nat_le: "n < 10 ^ k \<Longrightarrow> 0 < k \<Longrightarrow> length (show_nat n) \<le> k"
proof (induction n arbitrary: k rule: show_nat.induct)
  case (1 n)
  show ?case
  proof (cases "n < 10")
    case True
    with "1.prems" show ?thesis by (subst show_nat.simps) simp
  next
    case False
    then obtain j where k: "k = Suc j" and j: "0 < j"
      using "1.prems" by (metis gr0_implies_Suc less_trans_Suc not_less_eq power_one_right zero_less_Suc
        bot_nat_0.not_eq_extremum power_0 nat_power_less_imp_less less_one)
    have "n div 10 < 10 ^ j" using "1.prems" k by (simp add: less_mult_imp_div_less mult.commute)
    with "1.IH" False j have "length (show_nat (n div 10)) \<le> j" by blast
    with False k show ?thesis by (subst show_nat.simps) simp
  qed
qed

lemma frac_digits_digits: "set (frac_digits e f) \<subseteq> Collect is_digit"
  using show_nat_digits [of f] by (auto simp: frac_digits_def is_digit_def)

lemma frac_digits_nonempty: "frac_digits e f \<noteq> []"
  by (simp add: frac_digits_def)

lemma frac_digits_zero: "digits_val (frac_digits 0 f) = 0 \<and> length (frac_digits 0 f) = 1"
  by (simp add: frac_digits_def digits_val_def digit_val_def)

lemma frac_digits_pos:
  "0 < e \<Longrightarrow> f < 10 ^ e \<Longrightarrow> digits_val (frac_digits e f) = f \<and> length (frac_digits e f) = e"
  using length_show_nat_le [of f e] by (simp add: frac_digits_def)

lemma dec_val_signed: "dec_val (Dec (if neg then - int n else int n) k) = (if neg then - of_nat n else of_nat n) / 10 ^ k"
  by (simp add: dec_val_def)

lemma sci_dec_frac: "0 < f \<Longrightarrow> sci_dec neg m f 0 = Dec (if neg then - int m else int m) f"
  by (simp add: sci_dec_def Let_def)

lemma ascii_lower_digit: "is_digit c \<Longrightarrow> ascii_lower c = c"
  by (simp add: ascii_lower_def is_digit_def)

lemma digitpart_acc_digits:
  assumes "set xs \<subseteq> Collect is_digit" and "rest = [] \<or> (\<not> is_digit (hd rest) \<and> hd rest \<noteq> CHR ''_'')"
  shows "digitpart_acc acc (xs @ rest) = (rev acc @ xs, rest)"
  using assms
proof (induction xs arbitrary: acc)
  case Nil
  have "rest = [] \<or> (\<exists>c. rest = [c]) \<or> (\<exists>c d cs. rest = c # d # cs)" by (metis list.exhaust)
  then show ?case using Nil.prems(2) by auto
next
  case (Cons x xs)
  then show ?case by (cases "xs @ rest") auto
qed

lemma split_sign_digits: "s \<noteq> [] \<Longrightarrow> is_digit (hd s) \<Longrightarrow> split_sign (p @ s) = (p = ''-'', s)"
  if "p = [] \<or> p = ''-''"
  using that by (cases s) (auto simp: split_sign_def is_digit_def)


lemma parse_str_float:
  "\<exists>d'. parse_float (str_float d) = Inr (Fin d') \<and> dec_val d' = dec_val d"
proof (cases d)
  case (Dec m0 e0)
  obtain m e where N: "norm_dec m0 e0 = Dec m e" by (cases "norm_dec m0 e0")
  define a where "a = nat \<bar>m\<bar>"
  define ip where "ip = show_nat (a div 10 ^ e)"
  define frac where "frac = frac_digits e (a mod 10 ^ e)"
  define body where "body = ip @ CHR ''.'' # frac"
  define sg where "sg = (if m < 0 then ''-'' else [])"
  have str: "str_float d = sg @ body"
    by (simp add: str_float_def Dec N sg_def body_def ip_def frac_def a_def)
  have digs: "set ip \<subseteq> Collect is_digit" "set frac \<subseteq> Collect is_digit"
    using show_nat_digits frac_digits_digits ip_def frac_def by auto
  have ipne: "ip \<noteq> []" and frne: "frac \<noteq> []"
    using show_nat_nonempty frac_digits_nonempty by (simp_all add: ip_def frac_def)
  have hd_body: "is_digit (hd body)"
    using digs(1) ipne by (cases ip) (auto simp: body_def)
  have last_body: "is_digit (last body)"
    using digs(2) frne last_in_set by (fastforce simp: body_def)
  have "py_strip (sg @ body) = sg @ body"
  proof (rule py_strip_id)
    show "sg @ body \<noteq> []" by (simp add: body_def)
    show "\<not> is_py_space (hd (sg @ body))"
    proof (cases "m < 0")
      case True
      then show ?thesis by (simp add: sg_def is_py_space_def)
    next
      case False
      then show ?thesis using hd_body digit_not_space by (simp add: sg_def)
    qed
    show "\<not> is_py_space (last (sg @ body))"
      using last_body digit_not_space by (simp add: body_def)
  qed
  moreover have "split_sign (sg @ body) = (m < 0, body)"
    using hd_body by (subst split_sign_digits) (auto simp: sg_def body_def)
  moreover have "hd (map ascii_lower body) = hd body"
    using hd_body ipne by (cases ip) (simp_all add: body_def ascii_lower_digit)
  then have "map ascii_lower body \<noteq> ''inf'' \<and> map ascii_lower body \<noteq> ''infinity'' \<and> map ascii_lower body \<noteq> ''nan''"
    using hd_body by (auto simp: is_digit_def)
  moreover have "digitpart body = (ip, CHR ''.'' # frac)"
    using digitpart_acc_digits [OF digs(1), of "CHR ''.'' # frac" "[]"] by (simp add: body_def digitpart_def is_digit_def)
  moreover have "digitpart frac = (frac, [])"
    using digitpart_acc_digits [OF digs(2), of "[]" "[]"] by (simp add: digitpart_def)
  ultimately have "parse_float (str_float d) = Inr (Fin (sci_dec (m < 0) (digits_val (ip @ frac)) (length frac) 0))"
    using ipne by (simp add: parse_float_def parse_number_def str Let_def)
  then have parse: "parse_float (str_float d) =
      Inr (Fin (Dec (if m < 0 then - int (digits_val (ip @ frac)) else int (digits_val (ip @ frac))) (length frac)))"
    using frne by (simp add: sci_dec_frac)
  have val: "dec_val d = of_int m / 10 ^ e"
    using dec_val_norm_dec [of m0 e0] by (simp add: Dec N dec_val_def)
  have sgn: "(if m < 0 then - of_nat a else of_nat a) = (of_int m :: rat)"
    by (simp add: a_def)
  show ?thesis
  proof (cases "e = 0")
    case True
    then have "digits_val (ip @ frac) = a * 10" and "length frac = 1"
      using frac_digits_zero by (simp_all add: ip_def frac_def digits_val_append)
    then have "dec_val (Dec (if m < 0 then - int (digits_val (ip @ frac)) else int (digits_val (ip @ frac))) (length frac)) = dec_val d"
      using True val sgn by (auto simp: dec_val_signed split: if_splits)
    with parse show ?thesis by blast
  next
    case False
    then have "digits_val (ip @ frac) = a" and "length frac = e"
      using frac_digits_pos [of e "a mod 10 ^ e"] by (simp_all add: ip_def frac_def digits_val_append div_mult_mod_eq)
    then have "dec_val (Dec (if m < 0 then - int (digits_val (ip @ frac)) else int (digits_val (ip @ frac))) (length frac)) = dec_val d"
      using val sgn by (simp only: dec_val_signed)
    with parse show ?thesis by blast
  qed
qed

lemma str_float_chars: "set (str_float d) \<subseteq> Collect is_digit \<union> {CHR ''-'', CHR ''.''}"
  by (auto simp: str_float_def split: dec.splits
      dest: subsetD [OF show_nat_digits] subsetD [OF frac_digits_digits])

lemma str_float_no_cr: "CHR 0x0D \<notin> set (str_float d)"
  using str_float_chars [of d] by (auto simp: is_digit_def)

lemma py_strip_str_float [simp]: "py_strip (str_float d) = str_float d"
  using str_float_chars [of d] by (intro py_strip_no_space) (auto simp: is_digit_def is_py_space_def)

lemma dec_val_add [simp]: "dec_val (dec_add a b) = dec_val a + dec_val b"
proof (cases a; cases b)
  fix m1 e1 m2 e2
  assume ab: "a = Dec m1 e1" "b = Dec m2 e2"
  let ?e = "max e1 e2"
  have p1: "(10::rat) ^ ?e = 10 ^ (?e - e1) * 10 ^ e1" and p2: "(10::rat) ^ ?e = 10 ^ (?e - e2) * 10 ^ e2"
    by (simp_all flip: power_add)
  have s1: "rat_of_int m1 * 10 ^ (?e - e1) / 10 ^ ?e = rat_of_int m1 / 10 ^ e1"
    by (subst p1) simp
  have s2: "rat_of_int m2 * 10 ^ (?e - e2) / 10 ^ ?e = rat_of_int m2 / 10 ^ e2"
    by (subst p2) simp
  show ?thesis
    using ab by (simp add: dec_add_def dec_val_def add_divide_distrib s1 s2)
qed

end
