(* ===== verification/World.thy ===== *)
theory World
  imports Timestamp
begin

text \<open>
  The world the bot acts on, as the sources see it through their library calls:
  the file system (\<open>open\<close>), the wall clock (\<open>time.time()\<close>), the Reddit API
  behind \<open>praw\<close> and the Slack Web API behind \<open>slack_sdk\<close>, and the trace of
  observable events. Every operation of the bot is a function
  \<open>world \<Rightarrow> (py_exc + 'a) \<times> world\<close>: it returns its Python result or the
  exception that escapes it, and the world after its effects (effects performed
  before an exception are kept, as in Python).
\<close>

text \<open>
  A \<open>praw.models.Submission\<close>, as far as the bot reads it: \<open>title\<close>,
  \<open>created\<close> (seconds since the epoch), \<open>permalink\<close> (a path such as
  \<open>/r/x/comments/...\<close>) and \<open>subreddit\<close> (printed as its display name).
\<close>

record post =
  p_title :: string
  p_created :: dec
  p_permalink :: string
  p_subreddit :: string

text \<open>
  The outcome of one \<open>WebClient.chat_postMessage\<close> call: a response (its printed
  form), a \<open>SlackApiError\<close> (the API answered with \<open>ok: false\<close>), or a failure of
  the HTTP transport, which \<open>slack_sdk\<close> raises as an exception other than
  \<open>SlackApiError\<close>.
\<close>

datatype slack_outcome = Slack_ok string | Slack_api_error string | Slack_transport_error

record world =
  fs :: "path \<rightharpoonup> string"
  ro_paths :: "path set"
  full_paths :: "path set"
  clock :: dec
  reddit_latency :: nat
  listing :: "string \<Rightarrow> py_exc + post list"
  slack_api :: "string \<Rightarrow> slack_outcome"
  tz_offset :: int
  trace :: trace

text \<open>
  \<open>clock\<close>: what \<open>time.time()\<close> returns now. \<open>reddit_latency\<close>: the time,
  in microseconds, that the Reddit listing request takes; the clock has moved
  on by that much when the request returns. \<open>fs\<close>: file contents by path. \<open>ro_paths\<close>: paths whose \<open>open(p, 'w')\<close> fails
  (\<open>PermissionError\<close>) before truncating. \<open>full_paths\<close>: paths on a full device,
  where \<open>open(p, 'w')\<close> truncates the file and the write then fails (\<open>OSError\<close>
  \<open>ENOSPC\<close>, raised when the buffer is flushed). \<open>listing q\<close>: what
  \<open>reddit.subreddit(q).new()\<close> yields, newest first, or the \<open>prawcore\<close>
  exception it raises. \<open>slack_api\<close>: the outcome of posting a text.
  \<open>tz_offset\<close>: the local UTC offset used by \<open>datetime.fromtimestamp\<close>.
\<close>

type_synonym 'a op = "world \<Rightarrow> (py_exc + 'a) \<times> world"

text \<open>Sequencing of Python statements: an exception skips the rest.\<close>

definition ebind :: "'a op \<Rightarrow> ('a \<Rightarrow> 'b op) \<Rightarrow> 'b op" where
  "ebind m f w = (case m w of (Inl e, w') \<Rightarrow> (Inl e, w') | (Inr x, w') \<Rightarrow> f x w')"

definition ereturn :: "'a \<Rightarrow> 'a op" where
  "ereturn x w = (Inr x, w)"

definition eraise :: "py_exc \<Rightarrow> 'a op" where
  "eraise e w = (Inl e, w)"

definition emit :: "event \<Rightarrow> world \<Rightarrow> world" where
  "emit ev w = w\<lparr>trace := trace w @ [ev]\<rparr>"

text \<open>\<open>LOGGER.info(msg)\<close> on the root logger, whose level and handler are INFO.\<close>

definition logger_info :: "string \<Rightarrow> world \<Rightarrow> world" where
  "logger_info msg w = emit (Log INFO msg) w"

definition py_print :: "string \<Rightarrow> world \<Rightarrow> world" where
  "py_print msg w = emit (Stdout msg) w"

text \<open>Statements as operations: \<open>print(msg)\<close>, \<open>time.time()\<close>, \<open>xs[0]\<close>.\<close>

definition print_op :: "string \<Rightarrow> unit op" where
  "print_op msg w = (Inr (), py_print msg w)"

definition time_time :: "dec op" where
  "time_time w = (Inr (clock w), w)"

definition py_index0 :: "'a list \<Rightarrow> 'a op" where
  "py_index0 xs = (case xs of [] \<Rightarrow> eraise IndexError | x # _ \<Rightarrow> ereturn x)"

text \<open>The world when the Reddit request returns: the clock has advanced by the request's latency.\<close>

definition request_clock :: "world \<Rightarrow> dec" where
  "request_clock w = dec_add (clock w) (Dec (int (reddit_latency w)) 6)"

definition after_request :: "world \<Rightarrow> world" where
  "after_request w = w\<lparr>clock := request_clock w\<rparr>"

text \<open>\<open>w'\<close> differs from \<open>w\<close> only by events appended to the trace.\<close>

definition trace_ext :: "world \<Rightarrow> world \<Rightarrow> bool" where
  "trace_ext w w' \<longleftrightarrow> (\<exists>evs. w' = w\<lparr>trace := trace w @ evs\<rparr>)"

text \<open>The texts posted to Slack in a list of events, and operations that post nothing.\<close>

definition slack_texts :: "event list \<Rightarrow> string list" where
  "slack_texts evs = [m. Slack_post c m \<leftarrow> evs]"

definition posts_nothing :: "'a op \<Rightarrow> bool" where
  "posts_nothing m \<longleftrightarrow> (\<forall>w. slack_texts (trace (snd (m w))) = slack_texts (trace w))"

section \<open>Lemmas on sequencing and effects\<close>

lemma ebind_Inl [simp]: "m w = (Inl e, w') \<Longrightarrow> ebind m f w = (Inl e, w')"
  by (simp add: ebind_def)

lemma ebind_Inr [simp]: "m w = (Inr x, w') \<Longrightarrow> ebind m f w = f x w'"
  by (simp add: ebind_def)

lemma ebind_Inr_iff:
  "ebind m f w = (Inr y, w') \<longleftrightarrow> (\<exists>x w1. m w = (Inr x, w1) \<and> f x w1 = (Inr y, w'))"
  by (auto simp: ebind_def split: prod.splits sum.splits)

lemma ebind_Inl_iff:
  "ebind m f w = (Inl e, w') \<longleftrightarrow>
     (m w = (Inl e, w') \<or> (\<exists>x w1. m w = (Inr x, w1) \<and> f x w1 = (Inl e, w')))"
  by (auto simp: ebind_def split: prod.splits sum.splits)

lemmas op_simps [simp] = ereturn_def eraise_def logger_info_def py_print_def print_op_def time_time_def

lemma py_index0_Inr [simp]: "py_index0 xs w = (Inr x, w') \<longleftrightarrow> xs \<noteq> [] \<and> x = hd xs \<and> w' = w"
  by (cases xs) (auto simp: py_index0_def)

lemma py_index0_Inl [simp]: "py_index0 xs w = (Inl e, w') \<longleftrightarrow> xs = [] \<and> e = IndexError \<and> w' = w"
  by (cases xs) (auto simp: py_index0_def)

lemma emit_frame [simp]:
  "fs (emit ev w) = fs w" "clock (emit ev w) = clock w" "listing (emit ev w) = listing w"
  "slack_api (emit ev w) = slack_api w" "ro_paths (emit ev w) = ro_paths w"
  "full_paths (emit ev w) = full_paths w" "tz_offset (emit ev w) = tz_offset w"
  "trace (emit ev w) = trace w @ [ev]" "reddit_latency (emit ev w) = reddit_latency w"
  by (simp_all add: emit_def)

lemma request_clock_emit [simp]: "request_clock (emit ev w) = request_clock w"
  by (simp add: request_clock_def emit_def)

lemma request_clock_ge: "dec_val (clock w) \<le> dec_val (request_clock w)"
  by (simp add: request_clock_def) (simp add: dec_val_def)

lemma after_request_frame [simp]:
  "fs (after_request w) = fs w" "clock (after_request w) = request_clock w" "listing (after_request w) = listing w"
  "slack_api (after_request w) = slack_api w" "ro_paths (after_request w) = ro_paths w"
  "full_paths (after_request w) = full_paths w" "tz_offset (after_request w) = tz_offset w"
  "trace (after_request w) = trace w" "reddit_latency (after_request w) = reddit_latency w"
  by (simp_all add: after_request_def)

lemma trace_ext_refl [intro, simp]: "trace_ext w w"
  by (auto simp: trace_ext_def intro: exI [of _ "[]"])

lemma trace_ext_emit [intro, simp]: "trace_ext w (emit ev w)"
  by (auto simp: trace_ext_def emit_def)

lemma trace_ext_trans [trans]: "trace_ext w1 w2 \<Longrightarrow> trace_ext w2 w3 \<Longrightarrow> trace_ext w1 w3"
  by (auto simp: trace_ext_def)

lemma trace_ext_emit_right [intro]: "trace_ext w1 w2 \<Longrightarrow> trace_ext w1 (emit ev w2)"
  using trace_ext_trans trace_ext_emit by blast

lemma trace_ext_frame:
  assumes "trace_ext w w'"
  shows "fs w' = fs w" "clock w' = clock w" "listing w' = listing w" "slack_api w' = slack_api w"
    "ro_paths w' = ro_paths w" "full_paths w' = full_paths w" "tz_offset w' = tz_offset w"
    "\<exists>evs. trace w' = trace w @ evs" "request_clock w' = request_clock w"
  using assms by (auto simp: trace_ext_def request_clock_def)

lemma trace_ext_after_request: "trace_ext w w' \<Longrightarrow> trace_ext (after_request w) (after_request w')"
proof -
  assume "trace_ext w w'"
  then obtain evs where "w' = w\<lparr>trace := trace w @ evs\<rparr>" by (auto simp: trace_ext_def)
  then have "after_request w' = (after_request w)\<lparr>trace := trace (after_request w) @ evs\<rparr>"
    by (simp add: after_request_def request_clock_def)
  then show ?thesis by (auto simp: trace_ext_def)
qed

lemma fold_trace_ext: "(\<And>x w. trace_ext w (f x w)) \<Longrightarrow> trace_ext w (fold f xs w)"
proof (induction xs arbitrary: w)
  case Nil
  then show ?case by simp
next
  case (Cons x xs)
  then show ?case using trace_ext_trans by fastforce
qed

lemma slack_texts_append [simp]: "slack_texts (xs @ ys) = slack_texts xs @ slack_texts ys"
  by (simp add: slack_texts_def)

lemma slack_texts_simps [simp]:
  "slack_texts [] = []" "slack_texts (Slack_post c m # evs) = m # slack_texts evs"
  "slack_texts (Log l m # evs) = slack_texts evs" "slack_texts (Stdout m # evs) = slack_texts evs"
  "slack_texts (Reddit_new q n # evs) = slack_texts evs" "slack_texts (Write_file p c # evs) = slack_texts evs"
  by (simp_all add: slack_texts_def)

lemma posts_nothing_ebind [intro]:
  "posts_nothing m \<Longrightarrow> (\<And>x. posts_nothing (f x)) \<Longrightarrow> posts_nothing (ebind m f)"
  unfolding posts_nothing_def
proof (intro allI)
  fix w
  assume m: "\<forall>w. slack_texts (trace (snd (m w))) = slack_texts (trace w)"
    and f: "\<And>x. \<forall>w. slack_texts (trace (snd (f x w))) = slack_texts (trace w)"
  obtain r w1 where mw: "m w = (r, w1)" by (cases "m w")
  have "slack_texts (trace w1) = slack_texts (trace w)" using m mw by (metis snd_conv)
  then show "slack_texts (trace (snd (ebind m f w))) = slack_texts (trace w)"
    using f mw by (cases r) (auto simp: ebind_def)
qed

lemma posts_nothing_return [intro, simp]: "posts_nothing (ereturn x)" "posts_nothing (eraise e)"
  "posts_nothing (print_op msg)" "posts_nothing time_time" "posts_nothing (py_index0 xs)"
  by (auto simp: posts_nothing_def emit_def py_index0_def split: list.split)

lemma posts_nothing_fold:
  "(\<And>x w. slack_texts (trace (f x w)) = slack_texts (trace w)) \<Longrightarrow>
   slack_texts (trace (fold f xs w)) = slack_texts (trace w)"
  by (induction xs arbitrary: w) simp_all

end
