(* ===== verification/Store.thy ===== *)
theory Store
  imports World
begin

text \<open>
  The persisted state of the bot (bot.py, class \<open>Bot\<close>, lines 48--73): the
  watermark file read and written by the \<open>last_poll_time\<close> property, and the
  subscription file read by \<open>subscribed_subreddits\<close> and joined by
  \<open>subscribed_subreddits_formatted\<close>. Each operation takes the path that the
  \<open>Bot\<close> object stores (\<open>_last_poll_time_path\<close>, \<open>_subreddits_path\<close>).
\<close>

text \<open>\<open>open(p, 'r').read()\<close>: the text of the file, with universal newlines.\<close>

definition open_read :: "path \<Rightarrow> world \<Rightarrow> py_exc + string" where
  "open_read p w = (case fs w p of
       None \<Rightarrow> Inl (FileNotFoundError p)
     | Some c \<Rightarrow> Inr (translate_newlines c))"

text \<open>The getter of \<open>last_poll_time\<close>: \<open>float(fd.read().strip())\<close>.\<close>

definition last_poll_time_get :: "path \<Rightarrow> pyfloat op" where
  "last_poll_time_get p w = (case open_read p w of
       Inl e \<Rightarrow> (Inl e, w)
     | Inr c \<Rightarrow> (parse_float (py_strip c), w))"

text \<open>
  The setter: \<open>open(p, 'w')\<close> truncates the file, then \<open>write(str(t))\<close>. A path
  that cannot be opened raises before truncation; on a full device the truncation
  has happened when the write fails.
\<close>

definition last_poll_time_set :: "path \<Rightarrow> dec \<Rightarrow> unit op" where
  "last_poll_time_set p t w =
     (if p \<in> ro_paths w then (Inl (OSError p), w)
      else if p \<in> full_paths w then (Inl (OSError p), emit (Write_file p []) (w\<lparr>fs := (fs w)(p \<mapsto> [])\<rparr>))
      else (Inr (), emit (Write_file p (str_float t)) (w\<lparr>fs := (fs w)(p \<mapsto> str_float t)\<rparr>)))"

text \<open>\<open>subscribed_subreddits\<close>: every line of the file, stripped, blank ones included.\<close>

definition subscribed_subreddits :: "path \<Rightarrow> string list op" where
  "subscribed_subreddits p w = (case open_read p w of
       Inl e \<Rightarrow> (Inl e, w)
     | Inr c \<Rightarrow> (Inr (map py_strip (py_lines c)), w))"

definition subscribed_subreddits_formatted :: "path \<Rightarrow> string op" where
  "subscribed_subreddits_formatted p =
     ebind (subscribed_subreddits p) (\<lambda>subs. ereturn (py_join ''+'' subs))"

text \<open>The subscription file as an administrator writes it: one name per line.\<close>

definition subs_file :: "string list \<Rightarrow> string" where
  "subs_file names = concat (map (\<lambda>s. s @ ''\<newline>'') names)"

text \<open>A subreddit name as it may stand on a line: no line break, no whitespace at its ends.\<close>

definition clean_name :: "string \<Rightarrow> bool" where
  "clean_name s \<longleftrightarrow> CHR ''\<newline>'' \<notin> set s \<and> CHR 0x0D \<notin> set s \<and>
     (s \<noteq> [] \<longrightarrow> \<not> is_py_space (hd s) \<and> \<not> is_py_space (last s))"

section \<open>Lemmas\<close>

lemma py_lines_subs_file:
  "\<forall>s\<in>set names. CHR ''\<newline>'' \<notin> set s \<Longrightarrow>
   py_lines (subs_file names) = map (\<lambda>s. s @ ''\<newline>'') names"
proof (induction names)
  case Nil
  then show ?case by (simp add: subs_file_def)
next
  case (Cons n names)
  then show ?case
    using py_lines_acc_snoc_nl [of n "[]" "subs_file names"]
    by (simp add: subs_file_def py_lines_def)
qed

lemma clean_name_strip: "clean_name s \<Longrightarrow> py_strip (s @ ''\<newline>'') = s"
proof -
  assume c: "clean_name s"
  have "py_strip (s @ ''\<newline>'') = py_strip s"
    by (rule py_strip_snoc_space) (simp add: is_py_space_def)
  also have "py_strip s = s"
  proof (cases "s = []")
    case True
    then show ?thesis by (simp add: py_strip_def)
  next
    case False
    with c show ?thesis by (intro py_strip_id) (simp_all add: clean_name_def)
  qed
  finally show ?thesis .
qed

lemma subs_file_no_cr: "\<forall>s\<in>set names. clean_name s \<Longrightarrow> CHR 0x0D \<notin> set (subs_file names)"
  by (auto simp: subs_file_def clean_name_def)

lemma last_poll_time_get_fs:
  "fs w' = fs w \<Longrightarrow> fst (last_poll_time_get p w') = fst (last_poll_time_get p w)"
  by (simp add: last_poll_time_get_def open_read_def split: option.splits)

lemma last_poll_time_get_snd [simp]: "snd (last_poll_time_get p w) = w"
  by (simp add: last_poll_time_get_def split: sum.splits)

lemma subscribed_subreddits_formatted_fs:
  "fs w' = fs w \<Longrightarrow> fst (subscribed_subreddits_formatted p w') = fst (subscribed_subreddits_formatted p w)"
  by (simp add: subscribed_subreddits_formatted_def ebind_def subscribed_subreddits_def open_read_def
      split: option.splits)

lemma subscribed_subreddits_formatted_snd [simp]: "snd (subscribed_subreddits_formatted p w) = w"
  by (simp add: subscribed_subreddits_formatted_def ebind_def subscribed_subreddits_def split: sum.splits)

lemma last_poll_time_set_ok:
  "p \<notin> ro_paths w \<Longrightarrow> p \<notin> full_paths w \<Longrightarrow>
   last_poll_time_set p t w = (Inr (), emit (Write_file p (str_float t)) (w\<lparr>fs := (fs w)(p \<mapsto> str_float t)\<rparr>))"
  by (simp add: last_poll_time_set_def)

lemma last_poll_time_set_Inr:
  "last_poll_time_set p t w = (Inr u, w') \<Longrightarrow> p \<notin> ro_paths w \<and> p \<notin> full_paths w \<and>
     w' = emit (Write_file p (str_float t)) (w\<lparr>fs := (fs w)(p \<mapsto> str_float t)\<rparr>)"
  by (simp add: last_poll_time_set_def split: if_splits)

lemma posts_nothing_store [intro, simp]:
  "posts_nothing (last_poll_time_get p)" "posts_nothing (last_poll_time_set p t)"
  "posts_nothing (subscribed_subreddits_formatted p)"
  by (auto simp: posts_nothing_def last_poll_time_set_def emit_def)

lemma last_poll_time_get_written:
  "fs w p = Some (str_float t) \<Longrightarrow> \<exists>t'. last_poll_time_get p w = (Inr (Fin t'), w) \<and> dec_val t' = dec_val t"
  using parse_str_float [of t]
  by (auto simp: last_poll_time_get_def open_read_def translate_newlines_no_cr str_float_no_cr)

lemma last_poll_time_get_path:
  "fs w' p = fs w p \<Longrightarrow> fst (last_poll_time_get p w') = fst (last_poll_time_get p w)"
  by (simp add: last_poll_time_get_def open_read_def split: option.split)

text \<open>C4: after a successful write of the watermark, reading it back gives the value written.\<close>

theorem last_poll_time_roundtrip:
  assumes "last_poll_time_set p t w = (Inr (), w')"
  shows "\<exists>t'. last_poll_time_get p w' = (Inr (Fin t'), w') \<and> dec_val t' = dec_val t"
proof -
  from assms have "fs w' p = Some (str_float t)"
    by (auto simp: last_poll_time_set_def split: if_splits)
  then show ?thesis by (rule last_poll_time_get_written)
qed

text \<open>C5: reading the watermark when its file does not exist raises FileNotFoundError; nothing initialises the file.\<close>

theorem last_poll_time_missing:
  "fs w p = None \<Longrightarrow> last_poll_time_get p w = (Inl (FileNotFoundError p), w)"
  by (simp add: last_poll_time_get_def open_read_def)

text \<open>C6: a write of the watermark that fails on a full device leaves the file truncated, and the next read raises ValueError: the previous watermark is lost.\<close>

theorem last_poll_time_set_not_atomic:
  assumes "p \<notin> ro_paths w" and "p \<in> full_paths w"
  shows "\<exists>w'. last_poll_time_set p t w = (Inl (OSError p), w') \<and>
           last_poll_time_get p w' = (Inl (ValueError []), w')"
  using assms
  by (simp add: last_poll_time_set_def last_poll_time_get_def open_read_def translate_newlines_def
      parse_float_def py_strip_def split_sign_def parse_number_def digitpart_def)

lemma subscribed_subreddits_subs_file:
  assumes "fs w p = Some (subs_file names)" and "\<forall>s\<in>set names. clean_name s"
  shows "subscribed_subreddits p w = (Inr names, w)"
proof -
  have "\<forall>s\<in>set names. CHR ''\<newline>'' \<notin> set s" using assms(2) by (simp add: clean_name_def)
  then have "map py_strip (py_lines (subs_file names)) = names"
    using assms(2) by (simp add: py_lines_subs_file clean_name_strip map_idI)
  then show ?thesis
    using assms by (simp add: subscribed_subreddits_def open_read_def translate_newlines_no_cr subs_file_no_cr)
qed

text \<open>C7: a subscription file written one name per line is read back as exactly those names, in order; an empty line yields an empty name.\<close>

theorem subscribed_subreddits_lines:
  assumes "fs w p = Some (subs_file names)" and "\<forall>s\<in>set names. clean_name s"
  shows "subscribed_subreddits p w = (Inr names, w)"
  using assms by (rule subscribed_subreddits_subs_file)

end
