(* ===== verification/Reddit.thy ===== *)
theory Reddit
  imports World
begin

text \<open>
  The Reddit client (reddit.py, class \<open>RedditBot\<close>): its \<open>log\<close> method and
  \<open>fetch_posts\<close>, which asks \<open>praw\<close> for the newest submissions of a
  subreddit (several joined with \<open>+\<close>) and collects them in the order the
  listing yields them, newest first. The listing with \<open>limit=n\<close> yields at most
  \<open>n\<close> items; the call is recorded in the trace as \<open>Reddit_new q n\<close>, and the
  clock advances by the latency of the request, whether it succeeds or raises.
\<close>

record reddit_bot =
  rb_client_id :: string
  rb_client_secret :: string
  rb_user_agent :: string
  rb_logger :: bool

text \<open>
  \<open>RedditBot.log(message, level)\<close>: nothing without a logger, otherwise
  \<open>logger.info(message)\<close> whatever the level (the level check is a TODO).
\<close>

text \<open>The module constants of reddit.py, read from the environment at import.\<close>

definition CLIENT_ID :: "environ \<Rightarrow> string" where
  "CLIENT_ID env = os_environ_get env ''REDDIT_CLIENT_ID'' []"

definition CLIENT_SECRET :: "environ \<Rightarrow> string" where
  "CLIENT_SECRET env = os_environ_get env ''REDDIT_CLIENT_SECRET'' []"

definition USER_AGENT :: string where
  "USER_AGENT = ''redditbot by u/cucyber''"

definition reddit_log :: "reddit_bot \<Rightarrow> string \<Rightarrow> string \<Rightarrow> world \<Rightarrow> world" where
  "reddit_log rb message lvl w = (if rb_logger rb then logger_info message w else w)"

text \<open>The \<open>for\<close> loop of \<open>fetch_posts\<close>: log each title, append each submission.\<close>

primrec fetch_loop :: "reddit_bot \<Rightarrow> post list \<Rightarrow> world \<Rightarrow> post list \<times> world" where
  "fetch_loop rb [] w = ([], w)"
| "fetch_loop rb (p # ps) w =
     (case fetch_loop rb ps (reddit_log rb (''Fetched post: '' @ p_title p) ''debug'' w) of
        (rest, w') \<Rightarrow> (p # rest, w'))"

definition fetch_posts :: "reddit_bot \<Rightarrow> string \<Rightarrow> nat \<Rightarrow> post list op" where
  "fetch_posts rb subreddit num_posts w =
     (let w1 = reddit_log rb (''Fetching posts from '' @ subreddit) ''info'' w;
          w2 = after_request (emit (Reddit_new subreddit num_posts) w1)
      in case listing w2 subreddit of
           Inl e \<Rightarrow> (Inl e, w2)
         | Inr yielded \<Rightarrow> (case fetch_loop rb (take num_posts yielded) w2 of
                             (posts, w3) \<Rightarrow> (Inr posts, w3)))"

section \<open>Lemmas\<close>

lemma reddit_log_ext [intro, simp]: "trace_ext w (reddit_log rb m l w)"
  by (simp add: reddit_log_def)

lemma fetch_loop_eq [simp]:
  "fetch_loop rb ps w = (ps, fold (\<lambda>p. reddit_log rb (''Fetched post: '' @ p_title p) ''debug'') ps w)"
  by (induction ps arbitrary: w) simp_all

lemma fetch_posts_result:
  "fst (fetch_posts rb q n w) =
     (case listing w q of Inl e \<Rightarrow> Inl e | Inr ys \<Rightarrow> Inr (take n ys))"
  by (simp add: fetch_posts_def Let_def reddit_log_def split: sum.split)

lemma fetch_posts_ext: "trace_ext (after_request w) (snd (fetch_posts rb q n w))"
proof -
  let ?w2 = "after_request (emit (Reddit_new q n) (reddit_log rb (''Fetching posts from '' @ q) ''info'' w))"
  have w2: "trace_ext (after_request w) ?w2"
    by (intro trace_ext_after_request trace_ext_emit_right) simp
  have "trace_ext ?w2 (fold (\<lambda>p. reddit_log rb (''Fetched post: '' @ p_title p) ''debug'') ps ?w2)" for ps
    by (rule fold_trace_ext) simp
  with w2 show ?thesis
    by (auto simp: fetch_posts_def Let_def split: sum.split intro: trace_ext_trans)
qed

lemma reddit_log_slack_texts [simp]: "slack_texts (trace (reddit_log rb m l w)) = slack_texts (trace w)"
  by (simp add: reddit_log_def)

lemma posts_nothing_fetch_posts [intro, simp]: "posts_nothing (fetch_posts rb q n)"
  unfolding posts_nothing_def
  by (auto simp: fetch_posts_def Let_def posts_nothing_fold split: sum.split)

lemma fold_reddit_log_trace:
  "rb_logger rb \<Longrightarrow> fold (\<lambda>p. reddit_log rb (f p) l) ps w =
     w\<lparr>trace := trace w @ map (\<lambda>p. Log INFO (f p)) ps\<rparr>"
  by (induction ps arbitrary: w) (simp_all add: reddit_log_def emit_def)

text \<open>C24: with logging on, fetch_posts returns the first num_posts posts of the listing in listing order, and its trace is the 'Fetching posts from' record, the listing request, and one 'Fetched post' record per returned post, all at INFO although the loop asks for 'debug'; the clock has advanced by the latency of the request.\<close>

theorem fetch_posts_trace:
  assumes "listing w q = Inr ys" and "rb_logger rb"
  shows "fetch_posts rb q n w =
    (Inr (take n ys), w\<lparr>clock := request_clock w, trace := trace w @ [Log INFO (''Fetching posts from '' @ q), Reddit_new q n] @
        map (\<lambda>p. Log INFO (''Fetched post: '' @ p_title p)) (take n ys)\<rparr>)"
proof -
  let ?w2 = "after_request (emit (Reddit_new q n) (reddit_log rb (''Fetching posts from '' @ q) ''info'' w))"
  have "fetch_posts rb q n w =
      (Inr (take n ys), fold (\<lambda>p. reddit_log rb (''Fetched post: '' @ p_title p) ''debug'') (take n ys) ?w2)"
    using assms(1) by (simp only: fetch_posts_def Let_def after_request_frame(3) emit_frame(3) reddit_log_def)
      (simp add: emit_def)
  also have "\<dots> = (Inr (take n ys), ?w2\<lparr>trace := trace ?w2 @ map (\<lambda>p. Log INFO (''Fetched post: '' @ p_title p)) (take n ys)\<rparr>)"
    by (simp only: fold_reddit_log_trace [OF assms(2)])
  finally show ?thesis using assms(2) by (simp add: reddit_log_def emit_def after_request_def request_clock_def)
qed

end
