(* ===== verification/Slack.thy ===== *)
theory Slack
  imports World
begin

text \<open>
  The Slack client (slack.py, class \<open>SlackBot\<close>): its \<open>log\<close> method and
  \<open>post_message\<close>, which sends a text to the configured channel with
  \<open>chat_postMessage\<close>, logs the response, and catches \<open>SlackApiError\<close> (logging
  it at the same INFO level); any other exception of the client escapes. The
  request is recorded in the trace as \<open>Slack_post channel text\<close>.
\<close>

record slack_bot =
  sb_token :: string
  sb_channel :: string
  sb_logger :: bool

text \<open>The module constants of slack.py.\<close>

definition TOKEN :: "environ \<Rightarrow> string" where
  "TOKEN env = os_environ_get env ''SLACK_TOKEN'' []"

definition CHANNEL :: string where
  "CHANNEL = ''#news''"

definition slack_log :: "slack_bot \<Rightarrow> string \<Rightarrow> string \<Rightarrow> world \<Rightarrow> world" where
  "slack_log sb message lvl w = (if sb_logger sb then logger_info message w else w)"

definition post_message :: "slack_bot \<Rightarrow> string \<Rightarrow> unit op" where
  "post_message sb message w =
     (let w1 = slack_log sb (''Posting message: '' @ message) ''info'' w;
          w2 = emit (Slack_post (sb_channel sb) message) w1
      in case slack_api w2 message of
           Slack_ok result \<Rightarrow> (Inr (), slack_log sb result ''info'' w2)
         | Slack_api_error err \<Rightarrow> (Inr (), slack_log sb (''Error posting message: '' @ err) ''error'' w2)
         | Slack_transport_error \<Rightarrow> (Inl ConnectionError, w2))"

section \<open>Lemmas\<close>

lemma slack_log_ext [intro, simp]: "trace_ext w (slack_log sb m l w)"
  by (simp add: slack_log_def)

lemma post_message_ext: "trace_ext w (snd (post_message sb msg w))"
  by (auto simp: post_message_def Let_def split: slack_outcome.split
      intro: trace_ext_trans [OF trace_ext_emit_right [OF slack_log_ext]])

lemma post_message_result:
  "fst (post_message sb msg w) = (if slack_api w msg = Slack_transport_error then Inl ConnectionError else Inr ())"
  by (simp add: post_message_def Let_def slack_log_def split: slack_outcome.split)

lemma post_message_eq:
  "post_message sb msg w =
     (let lg = (\<lambda>m. if sb_logger sb then [Log INFO m] else []);
          pre = lg (''Posting message: '' @ msg) @ [Slack_post (sb_channel sb) msg]
      in case slack_api w msg of
           Slack_ok r \<Rightarrow> (Inr (), w\<lparr>trace := trace w @ pre @ lg r\<rparr>)
         | Slack_api_error err \<Rightarrow> (Inr (), w\<lparr>trace := trace w @ pre @ lg (''Error posting message: '' @ err)\<rparr>)
         | Slack_transport_error \<Rightarrow> (Inl ConnectionError, w\<lparr>trace := trace w @ pre\<rparr>))"
  by (simp add: post_message_def Let_def slack_log_def emit_def split: slack_outcome.split)

text \<open>C8: when the Slack API rejects a message, post_message returns normally, and the rejection is logged at level INFO after the request.\<close>

theorem post_message_api_error:
  assumes "slack_api w msg = Slack_api_error err" and "sb_logger sb"
  shows "post_message sb msg w =
    (Inr (), w\<lparr>trace := trace w @ [Log INFO (''Posting message: '' @ msg),
       Slack_post (sb_channel sb) msg, Log INFO (''Error posting message: '' @ err)]\<rparr>)"
  using assms by (simp add: post_message_eq)

end
