(* ===== verification/DateTime.thy ===== *)
theory DateTime
  imports Timestamp
begin

text \<open>
  The timestamp shown in a Slack message (bot.py, \<open>post_submission_to_slack\<close>,
  lines 89--92): \<open>datetime.datetime.fromtimestamp(t).strftime('%H:%M:%S %m/%d/%Y')\<close>.
  \<open>fromtimestamp\<close> rounds the timestamp to microseconds (half to even), takes the
  whole seconds (floor) and converts them to local civil time; the local zone is a
  fixed UTC offset here (daylight saving is not modelled). The proleptic Gregorian
  date of a day number is computed with the era-based algorithm of the C library
  (days since 1970-01-01, eras of 146097 days). A year outside 1..9999 raises
  \<open>ValueError\<close>, as \<open>datetime\<close> does.
\<close>

text \<open>\<open>round(n / d)\<close> with ties to even, for \<open>d > 0\<close>.\<close>

definition round_half_even_div :: "int \<Rightarrow> int \<Rightarrow> int" where
  "round_half_even_div n d =
     (let f = n div d; r = n mod d in
      if 2 * r < d then f else if 2 * r > d then f + 1 else if even f then f else f + 1)"

text \<open>The timestamp in whole microseconds.\<close>

definition dec_micros :: "dec \<Rightarrow> int" where
  "dec_micros t = (case t of Dec m e \<Rightarrow>
     (if e \<le> 6 then m * 10 ^ (6 - e) else round_half_even_div m (10 ^ (e - 6))))"

text \<open>
  Year, month, day of a day number (days since 1970-01-01), in the stages of the
  algorithm: the year of the era from the day of the era, then month and day from
  the day of the year (counted from March 1st), then the civil year.
\<close>

definition civil_yoe :: "int \<Rightarrow> int" where
  "civil_yoe doe = (doe - doe div 1460 + doe div 36524 - doe div 146096) div 365"

definition civil_md :: "int \<Rightarrow> int \<times> int" where
  "civil_md doy = (let mp = (5 * doy + 2) div 153 in
     (if mp < 10 then mp + 3 else mp - 9, doy - (153 * mp + 2) div 5 + 1))"

definition civil_ymd :: "int \<Rightarrow> int \<Rightarrow> int \<Rightarrow> int \<times> int \<times> int" where
  "civil_ymd era doe yoe = (case civil_md (doe - (365 * yoe + yoe div 4 - yoe div 100)) of
     (m, d) \<Rightarrow> (if m \<le> 2 then yoe + era * 400 + 1 else yoe + era * 400, m, d))"

definition civil_from_days :: "int \<Rightarrow> int \<times> int \<times> int" where
  "civil_from_days z = civil_ymd ((z + 719468) div 146097) ((z + 719468) mod 146097)
     (civil_yoe ((z + 719468) mod 146097))"

text \<open>Local civil time of whole seconds: (year, month, day, hour, minute, second).\<close>

definition local_of_secs :: "int \<Rightarrow> int \<times> int \<times> int \<times> int \<times> int \<times> int" where
  "local_of_secs secs = (case civil_from_days (secs div 86400) of (y, mo, d) \<Rightarrow>
     (y, mo, d, secs mod 86400 div 3600, secs mod 3600 div 60, secs mod 60))"

definition local_time :: "int \<Rightarrow> dec \<Rightarrow> int \<times> int \<times> int \<times> int \<times> int \<times> int" where
  "local_time tz t = local_of_secs (dec_micros t div 1000000 + tz)"

text \<open>\<open>%H\<close>, \<open>%M\<close>, \<open>%S\<close>, \<open>%m\<close>, \<open>%d\<close>: two digits, zero padded.\<close>

definition pad2 :: "int \<Rightarrow> string" where
  "pad2 n = (if n < 10 then ''0'' @ show_nat (nat n) else show_nat (nat n))"

definition message_time :: "int \<Rightarrow> dec \<Rightarrow> py_exc + string" where
  "message_time tz t =
     (case local_time tz t of (y, mo, d, hh, mm, ss) \<Rightarrow>
        if y < 1 \<or> 9999 < y then Inl (ValueError ''year is out of range'')
        else Inr (pad2 hh @ '':'' @ pad2 mm @ '':'' @ pad2 ss @ '' '' @
                  pad2 mo @ ''/'' @ pad2 d @ ''/'' @ show_nat (nat y)))"

section \<open>Evaluation and bounds\<close>

lemmas datetime_eval = message_time_def local_time_def local_of_secs_def dec_micros_def
  round_half_even_div_def civil_from_days_def civil_ymd_def civil_md_def civil_yoe_def pad2_def
  show_nat.simps digit_char_def

lemma zdiv_eqI:
  fixes x d k :: int
  assumes "0 < d" and "d * k \<le> x" and "x < d * k + d"
  shows "x div d = k"
proof -
  have z: "(x - d * k) div d = 0" using assms by (intro div_pos_pos_trivial) simp_all
  have "(x - d * k + k * d) div d = k + (x - d * k) div d"
    using div_mult_self1 [of d "x - d * k" k] assms(1) by simp
  then show ?thesis using z by (simp add: algebra_simps)
qed

lemma zdiv_bounds:
  fixes x d :: int
  assumes "0 < d"
  shows "d * (x div d) \<le> x" and "x < d * (x div d) + d"
proof -
  have "d * (x div d) + x mod d = x" by (rule mult_div_mod_eq)
  moreover have "0 \<le> x mod d" "x mod d < d" using assms by simp_all
  ultimately show "d * (x div d) \<le> x" and "x < d * (x div d) + d" by linarith+
qed

lemma civil_doy_bounds:
  fixes doe :: int
  assumes "0 \<le> doe" and "doe < 146097"
  shows "0 \<le> civil_yoe doe \<and> civil_yoe doe \<le> 399 \<and>
    0 \<le> doe - (365 * civil_yoe doe + civil_yoe doe div 4 - civil_yoe doe div 100) \<and>
    doe - (365 * civil_yoe doe + civil_yoe doe div 4 - civil_yoe doe div 100) \<le> 365"
proof (cases "doe = 146096")
  case True
  then show ?thesis by (simp add: civil_yoe_def)
next
  case False
  define b where "b = doe div 36524"
  define r where "r = doe - 36524 * b"
  define q where "q = r div 1461"
  define s where "s = r - 1461 * q"
  have bb: "36524 * b \<le> doe" "doe < 36524 * b + 36524" using zdiv_bounds [of 36524 doe] by (simp_all add: b_def)
  then have b: "0 \<le> b" "b \<le> 3" using assms False by linarith+
  have r: "0 \<le> r" "r < 36524" using bb by (simp_all add: r_def)
  have qq: "1461 * q \<le> r" "r < 1461 * q + 1461" using zdiv_bounds [of 1461 r] by (simp_all add: q_def)
  then have q: "0 \<le> q" "q \<le> 24" using r by linarith+
  have s: "0 \<le> s" "s \<le> 1460" using qq by (simp_all add: s_def)
  have doe: "doe = 36524 * b + 1461 * q + s" by (simp add: s_def r_def)
  define dl where "dl = (24 * b + q + s) div 1460"
  have dd: "1460 * dl \<le> 24 * b + q + s" "24 * b + q + s < 1460 * dl + 1460"
    using zdiv_bounds [of 1460 "24 * b + q + s"] by (simp_all add: dl_def)
  then have dl: "0 \<le> dl" "dl \<le> 1" using b q s by linarith+
  have dls: "dl = 1 \<Longrightarrow> 1 \<le> s" using dd b q by linarith
  have a: "doe div 1460 = 25 * b + q + dl"
    using dd doe by (intro zdiv_eqI) (simp_all add: distrib_left)
  have c: "doe div 146096 = 0" using assms False by (intro div_pos_pos_trivial) simp_all
  define j where "j = (s - dl) div 365"
  have jj: "365 * j \<le> s - dl" "s - dl < 365 * j + 365" using zdiv_bounds [of 365 "s - dl"] by (simp_all add: j_def)
  then have j: "0 \<le> j" "j \<le> 3" using s dl dls dd b q by linarith+
  have y: "civil_yoe doe = 100 * b + 4 * q + j"
    unfolding civil_yoe_def a c b_def [symmetric] using jj doe by (intro zdiv_eqI) (simp_all add: distrib_left)
  have y4: "(100 * b + 4 * q + j) div 4 = 25 * b + q" using j by (intro zdiv_eqI) (simp_all add: distrib_left)
  have y100: "(100 * b + 4 * q + j) div 100 = b" using j q by (intro zdiv_eqI) (simp_all add: distrib_left)
  show ?thesis unfolding y y4 y100 distrib_left using b q j jj doe dl dls by (intro conjI) linarith+
qed

lemma civil_md_bounds:
  fixes doy :: int
  assumes "0 \<le> doy" "doy \<le> 365"
  shows "1 \<le> fst (civil_md doy) \<and> fst (civil_md doy) \<le> 12 \<and> 1 \<le> snd (civil_md doy) \<and> snd (civil_md doy) \<le> 31"
proof -
  define mp where "mp = (5 * doy + 2) div 153"
  define k where "k = (153 * mp + 2) div 5"
  have m: "153 * mp \<le> 5 * doy + 2" "5 * doy + 2 < 153 * mp + 153"
    using zdiv_bounds [of 153 "5 * doy + 2"] by (simp_all add: mp_def)
  have k: "5 * k \<le> 153 * mp + 2" "153 * mp + 2 < 5 * k + 5"
    using zdiv_bounds [of 5 "153 * mp + 2"] by (simp_all add: k_def)
  have "0 \<le> mp" "mp \<le> 11" "k \<le> doy" "doy \<le> k + 30" using m k assms by linarith+
  then show ?thesis by (simp add: civil_md_def Let_def mp_def [symmetric] k_def [symmetric])
qed

lemma civil_from_days_bounds:
  assumes "civil_from_days z = (y, m, d)"
  shows "1 \<le> m \<and> m \<le> 12 \<and> 1 \<le> d \<and> d \<le> 31"
proof -
  let ?doe = "(z + 719468) mod 146097"
  have "0 \<le> ?doe" "?doe < 146097" by simp_all
  from civil_doy_bounds [OF this] have
    "1 \<le> fst (civil_md (?doe - (365 * civil_yoe ?doe + civil_yoe ?doe div 4 - civil_yoe ?doe div 100))) \<and>
     fst (civil_md (?doe - (365 * civil_yoe ?doe + civil_yoe ?doe div 4 - civil_yoe ?doe div 100))) \<le> 12 \<and>
     1 \<le> snd (civil_md (?doe - (365 * civil_yoe ?doe + civil_yoe ?doe div 4 - civil_yoe ?doe div 100))) \<and>
     snd (civil_md (?doe - (365 * civil_yoe ?doe + civil_yoe ?doe div 4 - civil_yoe ?doe div 100))) \<le> 31"
    by (intro civil_md_bounds) simp_all
  then show ?thesis using assms
    by (simp add: civil_from_days_def civil_ymd_def split: prod.splits if_splits)
qed

lemma local_of_secs_clock_bounds:
  assumes "local_of_secs secs = (y, mo, d, hh, mm, ss)"
  shows "0 \<le> hh \<and> hh < 24 \<and> 0 \<le> mm \<and> mm < 60 \<and> 0 \<le> ss \<and> ss < 60"
proof -
  have "hh = secs mod 86400 div 3600" "mm = secs mod 3600 div 60" "ss = secs mod 60"
    using assms by (auto simp: local_of_secs_def split: prod.splits)
  moreover have "secs mod 86400 div 3600 \<le> 86399 div 3600"
    by (rule zdiv_mono1) (insert pos_mod_bound [of 86400 secs], simp_all)
  moreover have "secs mod 3600 div 60 \<le> 3599 div 60"
    by (rule zdiv_mono1) (insert pos_mod_bound [of 3600 secs], simp_all)
  ultimately show ?thesis by (auto simp: pos_imp_zdiv_nonneg_iff)
qed

lemma pad2_two_digits:
  assumes "0 \<le> n" and "n < 100"
  shows "length (pad2 n) = 2 \<and> int (digits_val (pad2 n)) = n"
proof (cases "n < 10")
  case True
  then have "show_nat (nat n) = [digit_char (nat n)]" by (subst show_nat.simps) simp
  then show ?thesis using True assms digits_val_show_nat [of "nat n"]
    by (simp add: pad2_def digits_val_Cons_zero)
next
  case False
  have "nat n div 10 < 10" "\<not> nat n < 10" using False assms by (simp_all add: div_less_iff_less_mult)
  then have "show_nat (nat n) = [digit_char (nat n div 10), digit_char (nat n mod 10)]"
    by (subst show_nat.simps, subst show_nat.simps) simp
  then show ?thesis using False assms digits_val_show_nat [of "nat n"] by (simp add: pad2_def)
qed

text \<open>C20: a formatted message time starts with the local hour, minute and second, each as two digits in range (00--23, 00--59, 00--59) that read back as the value, separated by colons.\<close>

theorem message_time_clock:
  assumes "message_time tz t = Inr s"
  shows "\<exists>y mo d hh mm ss. local_time tz t = (y, mo, d, hh, mm, ss) \<and>
    0 \<le> hh \<and> hh < 24 \<and> 0 \<le> mm \<and> mm < 60 \<and> 0 \<le> ss \<and> ss < 60 \<and>
    take 9 s = pad2 hh @ '':'' @ pad2 mm @ '':'' @ pad2 ss @ '' '' \<and>
    length (pad2 hh) = 2 \<and> length (pad2 mm) = 2 \<and> length (pad2 ss) = 2 \<and>
    int (digits_val (pad2 hh)) = hh \<and> int (digits_val (pad2 mm)) = mm \<and> int (digits_val (pad2 ss)) = ss"
proof -
  obtain y mo d hh mm ss where lt: "local_time tz t = (y, mo, d, hh, mm, ss)" by (metis prod.collapse)
  then have b: "0 \<le> hh \<and> hh < 24 \<and> 0 \<le> mm \<and> mm < 60 \<and> 0 \<le> ss \<and> ss < 60"
    using local_of_secs_clock_bounds by (simp add: local_time_def)
  then have p: "length (pad2 hh) = 2 \<and> int (digits_val (pad2 hh)) = hh"
    "length (pad2 mm) = 2 \<and> int (digits_val (pad2 mm)) = mm"
    "length (pad2 ss) = 2 \<and> int (digits_val (pad2 ss)) = ss"
    by (simp_all add: pad2_two_digits)
  have "s = pad2 hh @ '':'' @ pad2 mm @ '':'' @ pad2 ss @ '' '' @
      pad2 mo @ ''/'' @ pad2 d @ ''/'' @ show_nat (nat y)"
    using assms lt by (simp add: message_time_def split: if_splits)
  then have "take 9 s = pad2 hh @ '':'' @ pad2 mm @ '':'' @ pad2 ss @ '' ''" using p by simp
  then show ?thesis using lt b p by blast
qed

text \<open>C26: the date part of a formatted message time is the local month (01--12) and day (01--31) as two digits each and the year (1--9999) without padding, each reading back as its value; the whole text has at most 19 characters.\<close>

theorem message_time_date:
  assumes "message_time tz t = Inr s"
  shows "\<exists>y mo d hh mm ss. local_time tz t = (y, mo, d, hh, mm, ss) \<and>
    1 \<le> mo \<and> mo \<le> 12 \<and> 1 \<le> d \<and> d \<le> 31 \<and> 1 \<le> y \<and> y \<le> 9999 \<and>
    drop 9 s = pad2 mo @ ''/'' @ pad2 d @ ''/'' @ show_nat (nat y) \<and>
    int (digits_val (pad2 mo)) = mo \<and> int (digits_val (pad2 d)) = d \<and> int (digits_val (show_nat (nat y))) = y \<and>
    length s \<le> 19"
proof -
  obtain y mo d hh mm ss where lt: "local_time tz t = (y, mo, d, hh, mm, ss)" by (metis prod.collapse)
  then have "civil_from_days ((dec_micros t div 1000000 + tz) div 86400) = (y, mo, d)"
    by (simp add: local_time_def local_of_secs_def split: prod.splits)
  then have md: "1 \<le> mo \<and> mo \<le> 12 \<and> 1 \<le> d \<and> d \<le> 31" by (rule civil_from_days_bounds)
  have clk: "0 \<le> hh \<and> hh < 24 \<and> 0 \<le> mm \<and> mm < 60 \<and> 0 \<le> ss \<and> ss < 60"
    using lt local_of_secs_clock_bounds by (simp add: local_time_def)
  have s: "s = pad2 hh @ '':'' @ pad2 mm @ '':'' @ pad2 ss @ '' '' @
      pad2 mo @ ''/'' @ pad2 d @ ''/'' @ show_nat (nat y)" and yr: "1 \<le> y \<and> y \<le> 9999"
    using assms lt by (simp_all add: message_time_def split: if_splits)
  have p: "length (pad2 hh) = 2" "length (pad2 mm) = 2" "length (pad2 ss) = 2"
    "length (pad2 mo) = 2 \<and> int (digits_val (pad2 mo)) = mo" "length (pad2 d) = 2 \<and> int (digits_val (pad2 d)) = d"
    using clk md pad2_two_digits by simp_all
  have "length (show_nat (nat y)) \<le> 4" using yr by (intro length_show_nat_le) (simp_all add: nat_less_iff)
  then have "drop 9 s = pad2 mo @ ''/'' @ pad2 d @ ''/'' @ show_nat (nat y) \<and> length s \<le> 19"
    using s p by simp
  then show ?thesis using lt md yr p by auto
qed

end
