(* ===== verification/Sched.thy ===== *)
theory Sched
  imports Timestamp "HOL-Library.Product_Lexorder" "HOL-Library.Multiset"
begin

text \<open>
  The event queue of the \<open>sched.scheduler\<close> that drives the bot (bot.py,
  \<open>main\<close> and the first statement of \<open>callback_handler\<close>). \<open>s.enter(delay,
  priority, action)\<close> stores an event at \<open>time.time() + delay\<close> with a
  sequence number from a counter; \<open>s.run()\<close> always takes the event with the
  least (time, priority, sequence). The queue is kept sorted by that key, so
  the head is what \<open>heapq\<close> would pop. Every event of this program has the
  same action, \<open>callback_handler(s, bot)\<close>, so the action is not stored.
\<close>

record sched_event =
  ev_time :: dec
  ev_priority :: nat
  ev_seq :: nat

record scheduler =
  queue :: "sched_event list"
  next_seq :: nat

definition ev_key :: "sched_event \<Rightarrow> rat \<times> nat \<times> nat" where
  "ev_key e = (dec_val (ev_time e), ev_priority e, ev_seq e)"

definition sched_init :: scheduler where
  "sched_init = \<lparr>queue = [], next_seq = 0\<rparr>"

definition sched_enter :: "dec \<Rightarrow> nat \<Rightarrow> dec \<Rightarrow> scheduler \<Rightarrow> scheduler" where
  "sched_enter delay priority now s =
     s\<lparr>queue := insort_key ev_key
                 \<lparr>ev_time = dec_add now delay, ev_priority = priority, ev_seq = next_seq s\<rparr> (queue s),
       next_seq := Suc (next_seq s)\<rparr>"

text \<open>
  The contract of the \<open>heapq\<close> queue of \<open>sched\<close>: a well-formed queue is sorted
  by key, its sequence numbers are distinct and below the counter. Its abstract
  value is the multiset of pending events; \<open>s.run()\<close> takes the head, which must
  be the least of them.
\<close>

definition sched_wf :: "scheduler \<Rightarrow> bool" where
  "sched_wf s \<longleftrightarrow> sorted (map ev_key (queue s)) \<and> distinct (map ev_seq (queue s)) \<and>
     list_all (\<lambda>e. ev_seq e < next_seq s) (queue s)"

section \<open>Lemmas\<close>

lemma sched_enter_length [simp]: "length (queue (sched_enter d p now s)) = Suc (length (queue s))"
  by (simp add: sched_enter_def)

lemma sched_enter_empty:
  "queue s = [] \<Longrightarrow> queue (sched_enter d p now s) =
     [\<lparr>ev_time = dec_add now d, ev_priority = p, ev_seq = next_seq s\<rparr>]"
  by (simp add: sched_enter_def)

lemma sched_enter_sorted: "sorted (map ev_key (queue s)) \<Longrightarrow> sorted (map ev_key (queue (sched_enter d p now s)))"
  by (simp add: sched_enter_def sorted_insort_key)

lemma sched_init_wf: "sched_wf sched_init"
  by (simp add: sched_wf_def sched_init_def)

lemma sorted_hd_min: "sorted (map f xs) \<Longrightarrow> list_all (\<lambda>e. f (hd xs) \<le> f e) xs"
  by (cases xs) (auto simp: list_all_iff)

text \<open>Entering an event refines insertion into the abstract multiset of pending events, keeps the queue well formed, and leaves at its head an event whose (time, priority, sequence) key is least, the one heapq would pop.\<close>

theorem sched_enter_refines:
  assumes "sched_wf s"
  shows "sched_wf (sched_enter d p now s) \<and>
    mset (queue (sched_enter d p now s)) =
      add_mset \<lparr>ev_time = dec_add now d, ev_priority = p, ev_seq = next_seq s\<rparr> (mset (queue s)) \<and>
    list_all (\<lambda>e. ev_key (hd (queue (sched_enter d p now s))) \<le> ev_key e) (queue (sched_enter d p now s))"
proof -
  let ?e = "\<lparr>ev_time = dec_add now d, ev_priority = p, ev_seq = next_seq s\<rparr>"
  have srt: "sorted (map ev_key (insort_key ev_key ?e (queue s)))"
    using assms by (simp add: sched_wf_def sorted_insort_key)
  have m: "mset (queue (sched_enter d p now s)) = add_mset ?e (mset (queue s))"
    by (simp add: sched_enter_def)
  have "mset (map ev_seq (queue (sched_enter d p now s))) = mset (ev_seq ?e # map ev_seq (queue s))"
    by (simp add: m mset_map)
  from mset_eq_imp_distinct_iff [OF this] have "distinct (map ev_seq (queue (sched_enter d p now s)))"
    using assms by (auto simp: sched_wf_def list_all_iff)
  moreover have "list_all (\<lambda>e. ev_seq e < next_seq (sched_enter d p now s)) (queue (sched_enter d p now s))"
    using assms by (auto simp: sched_wf_def sched_enter_def list_all_iff set_insort_key)
  ultimately show ?thesis using m srt sorted_hd_min [OF srt]
    by (simp add: sched_wf_def sched_enter_def)
qed

end
