(* ===== verification/Bot.thy ===== *)
theory Bot
  imports Store Reddit Slack DateTime Sched
begin

text \<open>
  The poll engine (bot.py): the constants, \<open>Submission\<close>, the \<open>Bot\<close> object
  with its two clients, \<open>fetch_new_reddit_submissions\<close> (fetch, read the
  watermark, advance it to the time read after the request, keep the posts newer than the old
  watermark), \<open>post_submission_to_slack\<close> (format one message and post it),
  and \<open>callback_handler\<close>, one poll cycle as the scheduler runs it.
\<close>

definition POLL_INTERVAL :: dec where
  "POLL_INTERVAL = Dec 60 0"

definition MAX_POSTS :: nat where
  "MAX_POSTS = 10"

definition SUBSCRIBED_SUBREDDITS_PATH :: path where
  "SUBSCRIBED_SUBREDDITS_PATH = ''conf/subscribed_subreddits''"

definition LAST_POLL_PATH :: path where
  "LAST_POLL_PATH = ''conf/last_poll_time''"

record submission =
  s_title :: string
  s_time_created :: dec
  s_url :: string
  s_subreddit :: string

record bot =
  b_last_poll_time_path :: path
  b_subreddits_path :: path
  b_slackbot :: slack_bot
  b_redditbot :: reddit_bot

text \<open>
  \<open>Bot(last_poll_time_path, subreddits_path)\<close>: both clients log to the root
  logger (\<open>LOGGER\<close> is not \<open>None\<close>) and take their credentials from the module
  constants; nothing checks them.
\<close>

definition bot_init :: "environ \<Rightarrow> path \<Rightarrow> path \<Rightarrow> bot" where
  "bot_init env last_poll_time_path subreddits_path =
     \<lparr>b_last_poll_time_path = last_poll_time_path, b_subreddits_path = subreddits_path,
      b_slackbot = \<lparr>sb_token = TOKEN env, sb_channel = CHANNEL, sb_logger = True\<rparr>,
      b_redditbot = \<lparr>rb_client_id = CLIENT_ID env, rb_client_secret = CLIENT_SECRET env,
                     rb_user_agent = USER_AGENT, rb_logger = True\<rparr>\<rparr>"

text \<open>\<open>Submission(post.title, post.created, post.permalink, post.subreddit)\<close>.\<close>

definition to_submission :: "post \<Rightarrow> submission" where
  "to_submission p = \<lparr>s_title = p_title p, s_time_created = p_created p,
     s_url = p_permalink p, s_subreddit = p_subreddit p\<rparr>"

text \<open>The list comprehension of \<open>fetch_new_reddit_submissions\<close>.\<close>

definition new_submissions :: "pyfloat \<Rightarrow> post list \<Rightarrow> submission list" where
  "new_submissions time_since posts =
     [to_submission post. post \<leftarrow> posts, flt_gt (p_created post) time_since]"

text \<open>
  \<open>fetch_new_reddit_submissions\<close>, statement by statement: evaluate the joined
  subscriptions and fetch, read the watermark, print it, write \<open>time.time()\<close>
  as the new watermark, print \<open>posts[0].created\<close> (\<open>IndexError\<close> on an empty
  fetch), return the posts created after the old watermark.
\<close>

definition fetch_new_reddit_submissions :: "bot \<Rightarrow> submission list op" where
  "fetch_new_reddit_submissions b =
     ebind (subscribed_subreddits_formatted (b_subreddits_path b)) (\<lambda>subs.
     ebind (fetch_posts (b_redditbot b) subs MAX_POSTS) (\<lambda>posts.
     ebind (last_poll_time_get (b_last_poll_time_path b)) (\<lambda>time_since.
     ebind (print_op (''time_since: '' @ str_pyfloat time_since)) (\<lambda>_.
     ebind time_time (\<lambda>now.
     ebind (last_poll_time_set (b_last_poll_time_path b) now) (\<lambda>_.
     ebind (py_index0 posts) (\<lambda>post0.
     ebind (print_op (''posts[0] created: '' @ str_float (p_created post0))) (\<lambda>_.
     ereturn (new_submissions time_since posts)))))))))"

text \<open>The text of the Slack message of a submission, given its formatted time.\<close>

definition format_message :: "submission \<Rightarrow> string \<Rightarrow> string" where
  "format_message sub message_time_str =
     ''\"'' @ s_title sub @ ''\"'' @ ''\<newline>'' @
     ''Posted in r/'' @ s_subreddit sub @ '' at '' @ message_time_str @ ''\<newline>'' @
     ''www.reddit.com'' @ s_url sub"

definition post_submission_to_slack :: "bot \<Rightarrow> submission \<Rightarrow> bool \<Rightarrow> unit op" where
  "post_submission_to_slack b sub debug w =
     (case message_time (tz_offset w) (s_time_created sub) of
        Inl e \<Rightarrow> (Inl e, w)
      | Inr mt \<Rightarrow>
          (if \<not> debug then post_message (b_slackbot b) (format_message sub mt) w
           else (Inr (), logger_info (format_message sub mt) w)))"

text \<open>The loop \<open>for submission in new_submissions: bot.post_submission_to_slack(submission, debug=False)\<close>.\<close>

primrec post_all :: "bot \<Rightarrow> submission list \<Rightarrow> unit op" where
  "post_all b [] = ereturn ()"
| "post_all b (sub # subs) = ebind (post_submission_to_slack b sub False) (\<lambda>_. post_all b subs)"

text \<open>
  \<open>callback_handler(s, bot)\<close>: re-arm the timer, then run one cycle. The
  scheduler is returned beside the result and the world; an exception escapes
  with the timer already re-armed.
\<close>

definition callback_handler :: "bot \<Rightarrow> scheduler \<Rightarrow> world \<Rightarrow> (py_exc + unit) \<times> scheduler \<times> world" where
  "callback_handler b s w =
     (let s' = sched_enter POLL_INTERVAL 1 (clock w) s;
          w1 = py_print ''handler called'' w
      in case fetch_new_reddit_submissions b w1 of
           (Inl e, w2) \<Rightarrow> (Inl e, s', w2)
         | (Inr subs, w2) \<Rightarrow>
             (let w3 = (if subs = [] then logger_info ''No recent submissions'' w2 else w2)
              in case post_all b subs w3 of (r, w4) \<Rightarrow> (r, s', w4)))"

text \<open>The message a submission gets in a time zone (an observation, not code).\<close>

definition message_of :: "int \<Rightarrow> submission \<Rightarrow> string" where
  "message_of tz sub = (case message_time tz (s_time_created sub) of
     Inl e \<Rightarrow> [] | Inr mt \<Rightarrow> format_message sub mt)"

section \<open>Lemmas: one poll\<close>

lemma last_poll_time_get_eq: "last_poll_time_get p w = (r, w') \<longleftrightarrow> fst (last_poll_time_get p w) = r \<and> w' = w"
  using last_poll_time_get_snd [of p w] by (metis prod.collapse prod.inject)

lemma subscribed_subreddits_formatted_eq:
  "subscribed_subreddits_formatted p w = (r, w') \<longleftrightarrow> fst (subscribed_subreddits_formatted p w) = r \<and> w' = w"
  using subscribed_subreddits_formatted_snd [of p w] by (metis prod.collapse prod.inject)

lemma fetch_posts_eq:
  "fetch_posts rb q n w = (r, w') \<longleftrightarrow>
     r = (case listing w q of Inl e \<Rightarrow> Inl e | Inr ys \<Rightarrow> Inr (take n ys)) \<and> w' = snd (fetch_posts rb q n w)"
  using fetch_posts_result [of rb q n w] by (metis prod.collapse prod.inject)

lemmas fetch_new_simps = fetch_new_reddit_submissions_def ebind_Inr_iff ebind_Inl_iff
  last_poll_time_get_eq subscribed_subreddits_formatted_eq py_index0_Inr py_index0_Inl


lemma fetch_new_Inr:
  assumes "fetch_new_reddit_submissions b w = (Inr subs, w')"
  shows "\<exists>q ys W. fst (subscribed_subreddits_formatted (b_subreddits_path b) w) = Inr q \<and>
     listing w q = Inr ys \<and> take MAX_POSTS ys \<noteq> [] \<and>
     fst (last_poll_time_get (b_last_poll_time_path b) w) = Inr W \<and>
     subs = new_submissions W (take MAX_POSTS ys) \<and>
     fs w' = (fs w)(b_last_poll_time_path b \<mapsto> str_float (request_clock w)) \<and> clock w' = request_clock w"
proof -
  from assms obtain q posts W w1 w3 where
    q: "fst (subscribed_subreddits_formatted (b_subreddits_path b) w) = Inr q" and
    posts: "fetch_posts (b_redditbot b) q MAX_POSTS w = (Inr posts, w1)" and
    W: "fst (last_poll_time_get (b_last_poll_time_path b) w1) = Inr W" and
    set: "last_poll_time_set (b_last_poll_time_path b) (clock w1) (emit (Stdout (''time_since: '' @ str_pyfloat W)) w1) = (Inr (), w3)" and
    ne: "posts \<noteq> []" and
    res: "subs = new_submissions W posts" and
    w': "w' = emit (Stdout (''posts[0] created: '' @ str_float (p_created (hd posts)))) w3"
    by (simp add: fetch_new_simps) blast
  have ext: "trace_ext (after_request w) w1" using posts fetch_posts_ext [of w "b_redditbot b" q MAX_POSTS] by simp
  then have "fs w1 = fs w" "clock w1 = request_clock w" using trace_ext_frame [OF ext] by simp_all
  with W have "fst (last_poll_time_get (b_last_poll_time_path b) w) = Inr W"
    by (metis last_poll_time_get_fs)
  moreover from posts obtain ys where "listing w q = Inr ys" "posts = take MAX_POSTS ys"
    by (auto simp: fetch_posts_eq split: sum.splits)
  moreover have "fs w' = (fs w)(b_last_poll_time_path b \<mapsto> str_float (request_clock w)) \<and> clock w' = request_clock w"
    using last_poll_time_set_Inr [OF set] w' \<open>fs w1 = fs w\<close> \<open>clock w1 = request_clock w\<close> by simp
  ultimately show ?thesis using q ne res by auto
qed

lemma new_submissions_filter:
  "new_submissions W ys = map to_submission (filter (\<lambda>p. case W of Fin d \<Rightarrow> dec_val d < dec_val (p_created p)
     | NInf \<Rightarrow> True | PInf \<Rightarrow> False | NaN \<Rightarrow> False) ys)"
  by (induction ys) (simp_all add: new_submissions_def flt_gt_def)

text \<open>C1: a successful fetch_new_reddit_submissions returns exactly the fetched posts (at most MAX_POSTS, in listing order) whose creation time is strictly greater than the watermark W the call reads after the request (all of them when W is -inf, none when W is inf or NaN), and leaves the watermark file holding the time read when the listing request returned.\<close>

theorem fetch_new_reddit_submissions_result:
  assumes "fetch_new_reddit_submissions b w = (Inr subs, w')"
  shows "\<exists>q ys W. fst (subscribed_subreddits_formatted (b_subreddits_path b) w) = Inr q \<and>
     listing w q = Inr ys \<and> take MAX_POSTS ys \<noteq> [] \<and>
     fst (last_poll_time_get (b_last_poll_time_path b) w) = Inr W \<and>
     subs = map to_submission (filter (\<lambda>p. case W of Fin d \<Rightarrow> dec_val d < dec_val (p_created p)
       | NInf \<Rightarrow> True | PInf \<Rightarrow> False | NaN \<Rightarrow> False) (take MAX_POSTS ys)) \<and>
     fs w' = (fs w)(b_last_poll_time_path b \<mapsto> str_float (request_clock w))"
  using fetch_new_Inr [OF assms] unfolding new_submissions_filter by blast

lemma fetch_posts_split:
  "\<exists>w1. fetch_posts rb q n w = ((case listing w q of Inl e \<Rightarrow> Inl e | Inr ys \<Rightarrow> Inr (take n ys)), w1) \<and>
     trace_ext (after_request w) w1"
  using fetch_posts_result [of rb q n w] fetch_posts_ext [of w rb q n] by (metis prod.collapse)

text \<open>C2: when the Reddit listing raises, fetch_new_reddit_submissions raises the same exception and the file system, the watermark included, is unchanged.\<close>

theorem fetch_new_source_error:
  assumes q: "fst (subscribed_subreddits_formatted (b_subreddits_path b) w) = Inr q"
    and err: "listing w q = Inl e"
  shows "\<exists>w'. fetch_new_reddit_submissions b w = (Inl e, w') \<and> fs w' = fs w"
proof -
  obtain w1 where f: "fetch_posts (b_redditbot b) q MAX_POSTS w = (Inl e, w1)" and "trace_ext (after_request w) w1"
    using fetch_posts_split [of "b_redditbot b" q MAX_POSTS w] err by auto
  then have "fs w1 = fs w" using trace_ext_frame(1) by fastforce
  moreover have "subscribed_subreddits_formatted (b_subreddits_path b) w = (Inr q, w)"
    using q by (simp add: subscribed_subreddits_formatted_eq)
  ultimately show ?thesis using f by (simp add: fetch_new_reddit_submissions_def)
qed

text \<open>C3: when the listing is empty, fetch_new_reddit_submissions raises IndexError at posts[0], after it has already advanced the watermark to the time read when the listing request returned.\<close>

theorem fetch_new_empty_listing:
  assumes q: "fst (subscribed_subreddits_formatted (b_subreddits_path b) w) = Inr q"
    and empty: "listing w q = Inr []"
    and W: "fst (last_poll_time_get (b_last_poll_time_path b) w) = Inr W"
    and wr: "b_last_poll_time_path b \<notin> ro_paths w" "b_last_poll_time_path b \<notin> full_paths w"
  shows "\<exists>w'. fetch_new_reddit_submissions b w = (Inl IndexError, w') \<and>
     fs w' = (fs w)(b_last_poll_time_path b \<mapsto> str_float (request_clock w))"
proof -
  let ?p = "b_last_poll_time_path b"
  obtain w1 where f: "fetch_posts (b_redditbot b) q MAX_POSTS w = (Inr [], w1)" and ext: "trace_ext (after_request w) w1"
    using fetch_posts_split [of "b_redditbot b" q MAX_POSTS w] empty by auto
  have fr: "fs w1 = fs w" "clock w1 = request_clock w" "ro_paths w1 = ro_paths w" "full_paths w1 = full_paths w"
    using trace_ext_frame [OF ext] by simp_all
  have g: "last_poll_time_get ?p w1 = (Inr W, w1)"
    using W fr(1) last_poll_time_get_fs [of w1 w ?p] by (simp add: last_poll_time_get_eq)
  let ?w2 = "emit (Stdout (''time_since: '' @ str_pyfloat W)) w1"
  have s: "last_poll_time_set ?p (clock w1) ?w2 =
      (Inr (), emit (Write_file ?p (str_float (clock w1))) (?w2\<lparr>fs := (fs ?w2)(?p \<mapsto> str_float (clock w1))\<rparr>))"
    using wr fr by (intro last_poll_time_set_ok) simp_all
  have "subscribed_subreddits_formatted (b_subreddits_path b) w = (Inr q, w)"
    using q by (simp add: subscribed_subreddits_formatted_eq)
  with f g s fr show ?thesis by (simp add: fetch_new_reddit_submissions_def)
qed

lemma posts_nothing_fetch_new: "posts_nothing (fetch_new_reddit_submissions b)"
  unfolding fetch_new_reddit_submissions_def by (intro posts_nothing_ebind) simp_all

lemma fetch_new_Inr_trace:
  assumes "fetch_new_reddit_submissions b w = (Inr subs, w')"
  shows "\<exists>pre post. trace w' = trace w @ pre @ Write_file (b_last_poll_time_path b) (str_float (request_clock w)) # post \<and>
    slack_texts pre = [] \<and> slack_texts post = [] \<and> tz_offset w' = tz_offset w \<and> slack_api w' = slack_api w"
proof -
  from assms obtain q posts W w1 w3 where
    posts: "fetch_posts (b_redditbot b) q MAX_POSTS w = (Inr posts, w1)" and
    set: "last_poll_time_set (b_last_poll_time_path b) (clock w1) (emit (Stdout (''time_since: '' @ str_pyfloat W)) w1) = (Inr (), w3)" and
    w': "w' = emit (Stdout (''posts[0] created: '' @ str_float (p_created (hd posts)))) w3"
    by (simp add: fetch_new_simps) blast
  have ext: "trace_ext (after_request w) w1" using posts fetch_posts_ext [of w "b_redditbot b" q MAX_POSTS] by simp
  obtain evs where evs: "trace w1 = trace w @ evs" using trace_ext_frame(8) [OF ext] by auto
  have fr: "clock w1 = request_clock w" "tz_offset w1 = tz_offset w" "slack_api w1 = slack_api w"
    using trace_ext_frame [OF ext] by simp_all
  have "slack_texts (trace w1) = slack_texts (trace w)"
    using posts_nothing_fetch_posts [of "b_redditbot b" q MAX_POSTS] posts
    unfolding posts_nothing_def by (metis snd_conv)
  then have ne: "slack_texts evs = []" using evs by simp
  let ?ts = "Stdout (''time_since: '' @ str_pyfloat W)"
  let ?p0 = "Stdout (''posts[0] created: '' @ str_float (p_created (hd posts)))"
  have tr: "trace w' = trace w @ (evs @ [?ts]) @ Write_file (b_last_poll_time_path b) (str_float (request_clock w)) # [?p0]"
    using last_poll_time_set_Inr [OF set] w' evs fr by (simp add: emit_def)
  have "tz_offset w' = tz_offset w \<and> slack_api w' = slack_api w"
    using last_poll_time_set_Inr [OF set] w' fr by (simp add: emit_def)
  then show ?thesis using tr ne by fastforce
qed

lemma post_submission_to_slack_send:
  assumes "message_time (tz_offset w) (s_time_created sub) = Inr mt"
  shows "post_submission_to_slack b sub False w = post_message (b_slackbot b) (format_message sub mt) w"
  using assms by (simp add: post_submission_to_slack_def)

lemma post_message_frame:
  assumes "post_message sb msg w = (r, w')"
  shows "trace_ext w w' \<and> slack_texts (trace w') = slack_texts (trace w) @ [msg] \<and>
    r = (if slack_api w msg = Slack_transport_error then Inl ConnectionError else Inr ())"
  using assms by (auto simp: post_message_eq Let_def trace_ext_def split: slack_outcome.splits)

lemma post_submission_to_slack_ext: "trace_ext w (snd (post_submission_to_slack b sub d w))"
  using post_message_ext [of w]
  by (auto simp: post_submission_to_slack_def split: sum.split)

lemma post_all_ext: "trace_ext w (snd (post_all b subs w))"
proof (induction subs arbitrary: w)
  case Nil
  then show ?case by simp
next
  case (Cons sub subs)
  show ?case
  proof (cases "post_submission_to_slack b sub False w")
    case (Pair r w1)
    have "trace_ext w w1" using post_submission_to_slack_ext [of w b sub False] Pair by simp
    then show ?thesis using Cons.IH [of w1] Pair
      by (cases r) (auto simp: ebind_def intro: trace_ext_trans)
  qed
qed

lemma post_all_attempts_first:
  assumes "message_time (tz_offset w) (s_time_created sub) = Inr mt"
  shows "\<exists>rest. slack_texts (trace (snd (post_all b (sub # subs) w))) =
    slack_texts (trace w) @ format_message sub mt # rest"
proof (cases "post_message (b_slackbot b) (format_message sub mt) w")
  case (Pair r w1)
  then have w1: "slack_texts (trace w1) = slack_texts (trace w) @ [format_message sub mt]"
    using post_message_frame by blast
  obtain evs where "trace (snd (post_all b subs w1)) = trace w1 @ evs"
    using trace_ext_frame(8) [OF post_all_ext [of w1 b subs]] by blast
  then show ?thesis using Pair w1 post_submission_to_slack_send [OF assms]
    by (cases r) (auto simp: ebind_def)
qed

text \<open>C9: the dispatch loop posts the message of every submission in order when no call fails in transport: a message that the Slack API rejects does not stop the messages after it.\<close>

theorem post_all_delivers:
  assumes "\<forall>sub\<in>set subs. \<exists>mt. message_time (tz_offset w) (s_time_created sub) = Inr mt"
    and "\<forall>sub\<in>set subs. slack_api w (message_of (tz_offset w) sub) \<noteq> Slack_transport_error"
  shows "\<exists>w'. post_all b subs w = (Inr (), w') \<and> trace_ext w w' \<and>
    slack_texts (trace w') = slack_texts (trace w) @ map (message_of (tz_offset w)) subs"
  using assms
proof (induction subs arbitrary: w)
  case Nil
  then show ?case by simp
next
  case (Cons sub subs)
  from Cons.prems(1) obtain mt where mt: "message_time (tz_offset w) (s_time_created sub) = Inr mt" by auto
  let ?msg = "format_message sub mt"
  obtain w1 where pm: "post_message (b_slackbot b) ?msg w = (Inr (), w1)" and ext1: "trace_ext w w1"
    and tx1: "slack_texts (trace w1) = slack_texts (trace w) @ [?msg]"
    using post_message_frame [of "b_slackbot b" ?msg w] Cons.prems(2) mt
    by (cases "post_message (b_slackbot b) ?msg w") (auto simp: message_of_def)
  have fr: "tz_offset w1 = tz_offset w" "slack_api w1 = slack_api w" using ext1 by (simp_all add: trace_ext_frame)
  obtain w' where rest: "post_all b subs w1 = (Inr (), w')" "trace_ext w1 w'"
    "slack_texts (trace w') = slack_texts (trace w1) @ map (message_of (tz_offset w1)) subs"
    using Cons.IH [of w1] Cons.prems fr by auto
  have "post_all b (sub # subs) w = (Inr (), w')"
    using post_submission_to_slack_send [OF mt] pm rest(1) by simp
  moreover have "trace_ext w w'" using ext1 rest(2) by (rule trace_ext_trans)
  ultimately show ?case using rest(3) tx1 fr mt by (simp add: message_of_def)
qed

text \<open>C10: a transport failure of the Slack client while posting one message escapes the dispatch loop: no message after it is attempted.\<close>

theorem post_all_transport_error:
  assumes "message_time (tz_offset w) (s_time_created sub) = Inr mt"
    and "slack_api w (format_message sub mt) = Slack_transport_error"
  shows "\<exists>w'. post_all b (sub # subs) w = (Inl ConnectionError, w') \<and>
    slack_texts (trace w') = slack_texts (trace w) @ [format_message sub mt]"
proof -
  obtain w1 where "post_message (b_slackbot b) (format_message sub mt) w = (Inl ConnectionError, w1)"
    and "slack_texts (trace w1) = slack_texts (trace w) @ [format_message sub mt]"
    using post_message_frame [of "b_slackbot b" "format_message sub mt" w] assms(2)
    by (cases "post_message (b_slackbot b) (format_message sub mt) w") auto
  then show ?thesis using post_submission_to_slack_send [OF assms(1)] by simp
qed

text \<open>C11: in a poll cycle that posts anything to Slack, the watermark file has already been overwritten, with the time read when the Reddit request returned, before the first post.\<close>

theorem callback_handler_write_before_post:
  assumes "callback_handler b s w = (r, s', w')"
    and "slack_texts (trace w') \<noteq> slack_texts (trace w)"
  shows "\<exists>pre post. trace w' = trace w @ pre @ Write_file (b_last_poll_time_path b) (str_float (request_clock w)) # post \<and>
    slack_texts pre = []"
proof -
  let ?w1 = "emit (Stdout ''handler called'') w"
  show ?thesis
  proof (cases "fetch_new_reddit_submissions b ?w1")
    case (Pair res w2)
    show ?thesis
    proof (cases res)
      case (Inl e)
      then have "w' = w2" using assms(1) Pair by (simp add: callback_handler_def Let_def)
      moreover have "slack_texts (trace w2) = slack_texts (trace ?w1)"
        using posts_nothing_fetch_new [of b] Pair unfolding posts_nothing_def by (metis snd_conv)
      ultimately show ?thesis using assms(2) by simp
    next
      case (Inr subs)
      obtain pre post where tr: "trace w2 = trace ?w1 @ pre @ Write_file (b_last_poll_time_path b) (str_float (request_clock w)) # post"
        and pre: "slack_texts pre = []"
        using fetch_new_Inr_trace [of b ?w1 subs w2] Pair Inr by auto
      let ?w3 = "if subs = [] then logger_info ''No recent submissions'' w2 else w2"
      obtain w4 where w4: "post_all b subs ?w3 = (r, w4)" "w' = w4"
        using assms(1) Pair Inr by (simp add: callback_handler_def Let_def split: prod.splits)
      have "trace_ext w2 ?w3" by simp
      moreover have "trace_ext ?w3 w4"
        using post_all_ext [of ?w3 b subs] w4(1) by simp
      ultimately obtain evs where "trace w4 = trace w2 @ evs" by (auto simp: trace_ext_def dest: trace_ext_trans)
      then have "trace w' = trace w @ (Stdout ''handler called'' # pre) @
          Write_file (b_last_poll_time_path b) (str_float (request_clock w)) # (post @ evs)"
        using tr w4(2) by (simp add: emit_def)
      then show ?thesis using pre by fastforce
    qed
  qed
qed

end
