(* ===== verification/Process.thy ===== *)
theory Process
  imports Bot "HOL-Library.Sublist"
begin

text \<open>
  The process (bot.py, \<open>main\<close>, lines 119--124): build the bot, arm the
  scheduler with one event \<open>POLL_INTERVAL\<close> seconds from now, and call
  \<open>s.run()\<close>. The loop of \<open>sched.scheduler.run\<close> is a step relation: with the
  queue empty it returns; with the head event in the future it sleeps until its
  time; otherwise it pops the event and calls \<open>callback_handler\<close>, an exception
  of which escapes \<open>run\<close> and \<open>main\<close>. Between steps the environment may change
  the world (the clock moves forward, Reddit lists new posts, other files
  change); only the bot writes the watermark file. Two history fields record
  what the process has done: the clock at the start of each cycle and the
  submissions each cycle handed to the dispatch loop.
\<close>

datatype status = Running | Exited py_exc | Returned

record proc =
  pr_sched :: scheduler
  pr_world :: world
  pr_status :: status
  pr_starts :: "dec list"
  pr_sent :: "submission list"

text \<open>\<open>main()\<close> up to \<open>s.run()\<close>.\<close>

definition main_init :: "bot \<Rightarrow> world \<Rightarrow> proc" where
  "main_init b w = \<lparr>pr_sched = sched_enter POLL_INTERVAL 1 (clock w) sched_init, pr_world = w,
     pr_status = Running, pr_starts = [], pr_sent = []\<rparr>"

text \<open>The bot \<open>main\<close> builds.\<close>

definition main_bot :: "environ \<Rightarrow> bot" where
  "main_bot env = bot_init env LAST_POLL_PATH SUBSCRIBED_SUBREDDITS_PATH"

definition status_of :: "py_exc + unit \<Rightarrow> status" where
  "status_of r = (case r of Inl e \<Rightarrow> Exited e | Inr _ \<Rightarrow> Running)"

text \<open>The submissions a cycle started in \<open>w\<close> hands to its dispatch loop.\<close>

definition cycle_subs :: "bot \<Rightarrow> world \<Rightarrow> submission list" where
  "cycle_subs b w = (case fst (fetch_new_reddit_submissions b (py_print ''handler called'' w)) of
     Inl e \<Rightarrow> [] | Inr subs \<Rightarrow> subs)"

text \<open>
  What the environment is assumed to do: a listing has no post twice and no post
  created after the current time; the clock does not go back; nobody else
  writes the watermark file.
\<close>

definition listing_wf :: "world \<Rightarrow> bool" where
  "listing_wf w \<longleftrightarrow> (\<forall>q ys. listing w q = Inr ys \<longrightarrow>
     distinct ys \<and> (\<forall>p\<in>set ys. dec_val (p_created p) \<le> dec_val (clock w)))"

definition env_step :: "bot \<Rightarrow> world \<Rightarrow> world \<Rightarrow> bool" where
  "env_step b w w' \<longleftrightarrow> dec_val (clock w) \<le> dec_val (clock w') \<and>
     fs w' (b_last_poll_time_path b) = fs w (b_last_poll_time_path b) \<and> trace w' = trace w \<and>
     listing_wf w'"

inductive proc_step :: "bot \<Rightarrow> proc \<Rightarrow> proc \<Rightarrow> bool" for b where
  run_empty: "pr_status P = Running \<Longrightarrow> queue (pr_sched P) = [] \<Longrightarrow>
     proc_step b P (P\<lparr>pr_status := Returned\<rparr>)"
| run_sleep: "pr_status P = Running \<Longrightarrow> queue (pr_sched P) = e # q \<Longrightarrow>
     dec_gt (ev_time e) (clock (pr_world P)) \<Longrightarrow> dec_val (ev_time e) \<le> dec_val c \<Longrightarrow>
     proc_step b P (P\<lparr>pr_world := (pr_world P)\<lparr>clock := c\<rparr>\<rparr>)"
| run_fire: "pr_status P = Running \<Longrightarrow> queue (pr_sched P) = e # q \<Longrightarrow>
     \<not> dec_gt (ev_time e) (clock (pr_world P)) \<Longrightarrow>
     callback_handler b ((pr_sched P)\<lparr>queue := q\<rparr>) (pr_world P) = (r, s', w') \<Longrightarrow>
     proc_step b P \<lparr>pr_sched = s', pr_world = w', pr_status = status_of r,
       pr_starts = pr_starts P @ [clock (pr_world P)], pr_sent = pr_sent P @ cycle_subs b (pr_world P)\<rparr>"
| run_env: "pr_status P = Running \<Longrightarrow> env_step b (pr_world P) w' \<Longrightarrow> proc_step b P (P\<lparr>pr_world := w'\<rparr>)"

definition proc_reach :: "bot \<Rightarrow> world \<Rightarrow> proc \<Rightarrow> bool" where
  "proc_reach b w0 P \<longleftrightarrow> (proc_step b)\<^sup>*\<^sup>* (main_init b w0) P"

definition keeps_env :: "'a op \<Rightarrow> bool" where
  "keeps_env m \<longleftrightarrow> (\<forall>w. listing (snd (m w)) = listing w \<and> dec_val (clock w) \<le> dec_val (clock (snd (m w))))"

text \<open>
  The invariants of a run. The timer: the process has not returned, a running
  process has exactly one pending event, due \<open>POLL_INTERVAL\<close> after the start
  of the last cycle, and cycles start at least \<open>POLL_INTERVAL\<close> apart. The
  dispatch history: no submission was handed to the dispatch loop twice, each
  was created no later than the clock, and no later than the watermark on file.
\<close>

definition timer_inv :: "proc \<Rightarrow> bool" where
  "timer_inv P \<longleftrightarrow> pr_status P \<noteq> Returned \<and>
     successively (\<lambda>t t'. dec_val t + dec_val POLL_INTERVAL \<le> dec_val t') (pr_starts P) \<and>
     (pr_status P = Running \<longrightarrow> (\<exists>e. queue (pr_sched P) = [e] \<and> (pr_starts P \<noteq> [] \<longrightarrow>
        dec_val (ev_time e) = dec_val (last (pr_starts P)) + dec_val POLL_INTERVAL)))"

definition sent_inv :: "bot \<Rightarrow> proc \<Rightarrow> bool" where
  "sent_inv b P \<longleftrightarrow> distinct (pr_sent P) \<and>
     (\<forall>sub\<in>set (pr_sent P). dec_val (s_time_created sub) \<le> dec_val (clock (pr_world P))) \<and>
     (pr_status P = Running \<longrightarrow> listing_wf (pr_world P) \<and>
        (\<forall>W. fst (last_poll_time_get (b_last_poll_time_path b) (pr_world P)) = Inr W \<longrightarrow>
           (\<forall>sub\<in>set (pr_sent P). \<not> flt_gt (s_time_created sub) W)))"

text \<open>The state after the first sleep and the first cycle of a run started in \<open>w0\<close>.\<close>

definition first_cycle :: "bot \<Rightarrow> world \<Rightarrow> proc" where
  "first_cycle b w0 =
     (let w1 = w0\<lparr>clock := dec_add (clock w0) POLL_INTERVAL\<rparr>;
          c = callback_handler b \<lparr>queue = [], next_seq = 1\<rparr> w1
      in \<lparr>pr_sched = fst (snd c), pr_world = snd (snd c), pr_status = status_of (fst c),
          pr_starts = [clock w1], pr_sent = cycle_subs b w1\<rparr>)"

section \<open>Lemmas\<close>

inductive_cases proc_step_cases: "proc_step b P P'"

lemma keeps_env_ebind [intro]:
  assumes m: "keeps_env m" and f: "\<And>x. keeps_env (f x)"
  shows "keeps_env (ebind m f)"
  unfolding keeps_env_def
proof
  fix w
  obtain r w1 where mw: "m w = (r, w1)" by (cases "m w")
  have 1: "listing w1 = listing w \<and> dec_val (clock w) \<le> dec_val (clock w1)"
    using m mw unfolding keeps_env_def by (metis snd_conv)
  show "listing (snd (ebind m f w)) = listing w \<and> dec_val (clock w) \<le> dec_val (clock (snd (ebind m f w)))"
  proof (cases r)
    case (Inl e)
    then show ?thesis using 1 mw by (simp add: ebind_def)
  next
    case (Inr x)
    have "listing (snd (f x w1)) = listing w1 \<and> dec_val (clock w1) \<le> dec_val (clock (snd (f x w1)))"
      using f unfolding keeps_env_def by blast
    then show ?thesis using 1 mw Inr by (auto simp: ebind_def)
  qed
qed

lemma keeps_env_trace_ext: "(\<And>w. trace_ext w (snd (m w))) \<Longrightarrow> keeps_env m"
  unfolding keeps_env_def by (metis trace_ext_frame(2,3) order_refl)

lemma keeps_env_fetch_posts [intro, simp]: "keeps_env (fetch_posts rb q n)"
  unfolding keeps_env_def
proof
  fix w
  have "trace_ext (after_request w) (snd (fetch_posts rb q n w))" by (rule fetch_posts_ext)
  then show "listing (snd (fetch_posts rb q n w)) = listing w \<and>
      dec_val (clock w) \<le> dec_val (clock (snd (fetch_posts rb q n w)))"
    using trace_ext_frame(2,3) request_clock_ge [of w] by fastforce
qed

lemma keeps_env_ops [intro, simp]:
  "keeps_env (last_poll_time_get p)" "keeps_env (last_poll_time_set p t)"
  "keeps_env (subscribed_subreddits_formatted p)"
  "keeps_env (ereturn x)" "keeps_env (print_op m)" "keeps_env time_time" "keeps_env (py_index0 xs)"
  by (auto simp: keeps_env_def last_poll_time_set_def emit_def py_index0_def split: list.split)

lemma keeps_env_post_all [intro, simp]: "keeps_env (post_all b subs)"
  by (rule keeps_env_trace_ext) (rule post_all_ext)

lemma keeps_env_fetch_new [intro, simp]: "keeps_env (fetch_new_reddit_submissions b)"
  unfolding fetch_new_reddit_submissions_def by (intro keeps_env_ebind) simp_all

lemma new_submissions_mem:
  "sub \<in> set (new_submissions W ys) \<Longrightarrow> flt_gt (s_time_created sub) W \<and>
     (\<exists>p\<in>set ys. sub = to_submission p)"
  by (auto simp: new_submissions_def to_submission_def)

lemma distinct_new_submissions: "distinct ys \<Longrightarrow> distinct (new_submissions W ys)"
proof -
  have "inj to_submission" by (rule injI) (auto simp: to_submission_def intro: post.equality)
  moreover have "new_submissions W ys = map to_submission (filter (\<lambda>p. flt_gt (p_created p) W) ys)"
    by (induction ys) (simp_all add: new_submissions_def)
  ultimately show "distinct ys \<Longrightarrow> ?thesis" by (simp add: distinct_map inj_on_subset [of _ UNIV])
qed

lemma callback_handler_sched:
  "fst (snd (callback_handler b s w)) = sched_enter POLL_INTERVAL 1 (clock w) s"
  by (simp add: callback_handler_def Let_def split: prod.split sum.split)

lemma callback_handler_world:
  assumes "callback_handler b s w = (r, s', w')"
  shows "listing w' = listing w \<and> dec_val (clock w) \<le> dec_val (clock w') \<and>
    (r = Inr () \<longrightarrow> (\<exists>w2. fetch_new_reddit_submissions b (py_print ''handler called'' w) =
       (Inr (cycle_subs b w), w2) \<and> fs w' = fs w2 \<and> clock w' = request_clock w))"
proof (cases "fetch_new_reddit_submissions b (py_print ''handler called'' w)")
  case (Pair res w2)
  have f: "listing w2 = listing w \<and> dec_val (clock w) \<le> dec_val (clock w2)"
    using keeps_env_fetch_new [of b] Pair unfolding keeps_env_def by (metis snd_conv py_print_def emit_frame(2,3))
  show ?thesis
  proof (cases res)
    case (Inl e)
    then show ?thesis using assms Pair f by (auto simp: callback_handler_def Let_def)
  next
    case (Inr subs)
    have "trace_ext w2 w'"
    proof (cases "subs = []")
      case True
      then show ?thesis using assms Pair Inr by (auto simp: callback_handler_def Let_def)
    next
      case False
      then have "w' = snd (post_all b subs w2)"
        using assms Pair Inr by (auto simp: callback_handler_def Let_def split: prod.splits)
      then show ?thesis using post_all_ext by simp
    qed
    moreover have "clock w2 = request_clock w" using fetch_new_Inr [of b] Pair Inr by fastforce
    ultimately show ?thesis using f Pair Inr by (simp add: trace_ext_frame cycle_subs_def)
  qed
qed

lemma cycle_subs_mem:
  assumes "listing_wf w" and "sub \<in> set (cycle_subs b w)"
  shows "\<exists>W. fst (last_poll_time_get (b_last_poll_time_path b) w) = Inr W \<and>
    flt_gt (s_time_created sub) W \<and> dec_val (s_time_created sub) \<le> dec_val (clock w)"
proof -
  let ?w1 = "py_print ''handler called'' w"
  obtain w2 where f: "fetch_new_reddit_submissions b ?w1 = (Inr (cycle_subs b w), w2)"
    using assms(2) by (cases "fetch_new_reddit_submissions b ?w1") (auto simp: cycle_subs_def split: sum.splits)
  obtain q ys W where "listing w q = Inr ys" "fst (last_poll_time_get (b_last_poll_time_path b) w) = Inr W"
    "cycle_subs b w = new_submissions W (take MAX_POSTS ys)"
    using fetch_new_Inr [OF f] last_poll_time_get_path [of ?w1 _ w] by auto
  moreover obtain p where "p \<in> set (take MAX_POSTS ys)" "sub = to_submission p" "flt_gt (s_time_created sub) W"
    using new_submissions_mem assms(2) calculation(3) by metis
  ultimately show ?thesis using assms(1) unfolding listing_wf_def
    by (metis in_set_takeD to_submission_def submission.select_convs(2))
qed

lemma distinct_cycle_subs: "listing_wf w \<Longrightarrow> distinct (cycle_subs b w)"
proof (cases "fetch_new_reddit_submissions b (py_print ''handler called'' w)")
  case (Pair res w2)
  assume wf: "listing_wf w"
  show ?thesis
  proof (cases res)
    case (Inr subs)
    then obtain q ys W where "listing w q = Inr ys" "subs = new_submissions W (take MAX_POSTS ys)"
      using fetch_new_Inr Pair by fastforce
    then show ?thesis using Pair Inr wf by (simp add: cycle_subs_def listing_wf_def distinct_new_submissions)
  qed (use Pair in \<open>simp add: cycle_subs_def\<close>)
qed

lemma status_of_Running [simp]: "status_of r = Running \<longleftrightarrow> r = Inr ()"
  by (simp add: status_of_def split: sum.split)

lemma listing_wf_frame:
  "listing_wf w \<Longrightarrow> listing w' = listing w \<Longrightarrow> dec_val (clock w) \<le> dec_val (clock w') \<Longrightarrow> listing_wf w'"
  unfolding listing_wf_def by (fastforce intro: order_trans)

lemma cycle_watermark_file:
  assumes "callback_handler b s w = (Inr (), s', w')"
  shows "fs w' (b_last_poll_time_path b) = Some (str_float (request_clock w))"
proof -
  obtain w2 where f: "fetch_new_reddit_submissions b (py_print ''handler called'' w) = (Inr (cycle_subs b w), w2)"
    and "fs w' = fs w2" using callback_handler_world [OF assms] by blast
  then show ?thesis using fetch_new_Inr [OF f] by auto
qed

lemma cycle_watermark:
  assumes "callback_handler b s w = (Inr (), s', w')"
  shows "\<exists>W. fst (last_poll_time_get (b_last_poll_time_path b) w') = Inr (Fin W) \<and> dec_val W = dec_val (request_clock w)"
  using last_poll_time_get_written [OF cycle_watermark_file [OF assms]] by fastforce

lemma timer_inv_fire:
  assumes inv: "timer_inv P" and run: "pr_status P = Running" and qe: "queue (pr_sched P) = e # q"
    and due: "\<not> dec_gt (ev_time e) (clock (pr_world P))"
    and cb: "callback_handler b ((pr_sched P)\<lparr>queue := q\<rparr>) (pr_world P) = (r, s', w')"
  shows "timer_inv \<lparr>pr_sched = s', pr_world = w', pr_status = status_of r,
    pr_starts = pr_starts P @ [clock (pr_world P)], pr_sent = pr_sent P @ cycle_subs b (pr_world P)\<rparr>"
proof -
  let ?w = "pr_world P"
  have q: "q = []"
    and evt: "pr_starts P \<noteq> [] \<Longrightarrow> dec_val (ev_time e) = dec_val (last (pr_starts P)) + dec_val POLL_INTERVAL"
    using inv run qe by (auto simp: timer_inv_def)
  have succ: "successively (\<lambda>t t'. dec_val t + dec_val POLL_INTERVAL \<le> dec_val t') (pr_starts P @ [clock ?w])"
    using inv evt due by (cases "pr_starts P = []") (auto simp: timer_inv_def successively_append_iff dec_gt_def)
  have "s' = sched_enter POLL_INTERVAL 1 (clock ?w) ((pr_sched P)\<lparr>queue := q\<rparr>)"
    using callback_handler_sched [of b "(pr_sched P)\<lparr>queue := q\<rparr>" ?w] cb by simp
  then have "queue s' = [\<lparr>ev_time = dec_add (clock ?w) POLL_INTERVAL, ev_priority = 1,
      ev_seq = next_seq (pr_sched P)\<rparr>]" using q by (simp add: sched_enter_empty)
  then show ?thesis using succ by (auto simp: timer_inv_def status_of_def split: sum.split)
qed

lemma sent_inv_fire:
  assumes inv: "sent_inv b P" and run: "pr_status P = Running"
    and cb: "callback_handler b ((pr_sched P)\<lparr>queue := q\<rparr>) (pr_world P) = (r, s', w')"
  shows "sent_inv b \<lparr>pr_sched = s', pr_world = w', pr_status = status_of r,
    pr_starts = pr_starts P @ [clock (pr_world P)], pr_sent = pr_sent P @ cycle_subs b (pr_world P)\<rparr>"
proof -
  let ?w = "pr_world P" and ?p = "b_last_poll_time_path b" and ?new = "cycle_subs b (pr_world P)"
  have wf: "listing_wf ?w"
    and sentW: "\<And>W sub. fst (last_poll_time_get ?p ?w) = Inr W \<Longrightarrow> sub \<in> set (pr_sent P) \<Longrightarrow>
       \<not> flt_gt (s_time_created sub) W"
    using inv run by (auto simp: sent_inv_def)
  have fr: "dec_val (clock ?w) \<le> dec_val (clock w')" "listing w' = listing ?w"
    using callback_handler_world [OF cb] by simp_all
  have new: "\<And>sub. sub \<in> set ?new \<Longrightarrow> \<exists>W. fst (last_poll_time_get ?p ?w) = Inr W \<and>
      flt_gt (s_time_created sub) W \<and> dec_val (s_time_created sub) \<le> dec_val (clock ?w)"
    using cycle_subs_mem [OF wf] by blast
  have "set (pr_sent P) \<inter> set ?new = {}"
    using new sentW by fastforce
  then have dist: "distinct (pr_sent P @ ?new)"
    using inv distinct_cycle_subs [OF wf] by (simp add: sent_inv_def)
  have clk0: "\<forall>sub\<in>set (pr_sent P @ ?new). dec_val (s_time_created sub) \<le> dec_val (clock ?w)"
    using inv new by (auto simp: sent_inv_def)
  then have clk: "\<forall>sub\<in>set (pr_sent P @ ?new). dec_val (s_time_created sub) \<le> dec_val (clock w')"
    using fr(1) by (auto intro: order_trans)
  have "r = Inr () \<Longrightarrow> listing_wf w' \<and>
     (\<forall>W. fst (last_poll_time_get ?p w') = Inr W \<longrightarrow>
        (\<forall>sub\<in>set (pr_sent P @ ?new). \<not> flt_gt (s_time_created sub) W))"
  proof -
    assume r: "r = Inr ()"
    obtain W' where W': "fst (last_poll_time_get ?p w') = Inr (Fin W')" "dec_val W' = dec_val (request_clock ?w)"
      using cycle_watermark cb r by blast
    have "\<not> flt_gt (s_time_created sub) (Fin W')" if "sub \<in> set (pr_sent P @ ?new)" for sub
    proof -
      have "dec_val (s_time_created sub) \<le> dec_val (clock ?w)" using clk0 that by blast
      also have "\<dots> \<le> dec_val (request_clock ?w)" by (rule request_clock_ge)
      finally show ?thesis using W'(2) by (simp add: flt_gt_def)
    qed
    moreover have "listing_wf w'" using listing_wf_frame [OF wf] fr by simp
    ultimately show ?thesis using W'(1) by auto
  qed
  then show ?thesis using dist clk by (auto simp: sent_inv_def)
qed

lemma timer_inv_step: "proc_step b P P' \<Longrightarrow> timer_inv P \<Longrightarrow> timer_inv P'"
proof (induction rule: proc_step.induct)
  case (run_fire P e q r s' w')
  then show ?case by (intro timer_inv_fire) simp_all
qed (auto simp: timer_inv_def)

lemma sent_inv_step: "proc_step b P P' \<Longrightarrow> sent_inv b P \<Longrightarrow> sent_inv b P'"
proof (induction rule: proc_step.induct)
  case (run_empty P)
  then show ?case by (simp add: sent_inv_def)
next
  case (run_sleep P e q c)
  let ?w = "pr_world P"
  have le: "dec_val (clock ?w) \<le> dec_val c" using run_sleep.hyps(3,4) by (simp add: dec_gt_def)
  have "listing_wf (?w\<lparr>clock := c\<rparr>)" using run_sleep le listing_wf_frame [of ?w] by (simp add: sent_inv_def)
  moreover have "fst (last_poll_time_get (b_last_poll_time_path b) (?w\<lparr>clock := c\<rparr>)) =
      fst (last_poll_time_get (b_last_poll_time_path b) ?w)" by (rule last_poll_time_get_path) simp
  ultimately show ?case using run_sleep le by (auto simp: sent_inv_def intro: order_trans)
next
  case (run_fire P e q r s' w')
  then show ?case by (intro sent_inv_fire) simp_all
next
  case (run_env P w')
  then have "fst (last_poll_time_get (b_last_poll_time_path b) w') =
      fst (last_poll_time_get (b_last_poll_time_path b) (pr_world P))"
    by (intro last_poll_time_get_path) (simp add: env_step_def)
  then show ?case using run_env by (auto simp: sent_inv_def env_step_def intro: order_trans)
qed

lemma timer_inv_reach: "proc_reach b w0 P \<Longrightarrow> timer_inv P"
  unfolding proc_reach_def
proof (induction rule: rtranclp_induct)
  case base
  then show ?case by (simp add: timer_inv_def main_init_def sched_enter_def sched_init_def)
next
  case (step P P')
  then show ?case by (blast intro: timer_inv_step)
qed

lemma sent_inv_reach: "proc_reach b w0 P \<Longrightarrow> listing_wf w0 \<Longrightarrow> sent_inv b P"
  unfolding proc_reach_def
proof (induction rule: rtranclp_induct)
  case base
  then show ?case by (simp add: sent_inv_def main_init_def)
next
  case (step P P')
  then show ?case by (blast intro: sent_inv_step)
qed

lemma fetch_new_missing_watermark:
  assumes "fs w (b_last_poll_time_path b) = None"
  shows "\<exists>e w'. fetch_new_reddit_submissions b w = (Inl e, w') \<and>
    slack_texts (trace w') = slack_texts (trace w)"
proof (cases "fetch_new_reddit_submissions b w")
  case (Pair res w')
  have "fst (last_poll_time_get (b_last_poll_time_path b) w) = Inl (FileNotFoundError (b_last_poll_time_path b))"
    using assms by (simp add: last_poll_time_get_def open_read_def)
  then obtain e where "res = Inl e" using fetch_new_Inr Pair by (cases res) fastforce+
  moreover have "slack_texts (trace w') = slack_texts (trace w)"
    using posts_nothing_fetch_new [of b] Pair unfolding posts_nothing_def by (metis snd_conv)
  ultimately show ?thesis using Pair by blast
qed

lemma fresh_install_inv:
  assumes "proc_reach b w0 P" and "fs w0 (b_last_poll_time_path b) = None"
  shows "slack_texts (trace (pr_world P)) = slack_texts (trace w0) \<and> length (pr_starts P) \<le> 1 \<and>
    (pr_starts P = [] \<or> (\<exists>e. pr_status P = Exited e)) \<and>
    (pr_status P = Running \<longrightarrow> pr_starts P = [] \<and> fs (pr_world P) (b_last_poll_time_path b) = None)"
  using assms(1) unfolding proc_reach_def
proof (induction rule: rtranclp_induct)
  case base
  then show ?case using assms(2) by (simp add: main_init_def)
next
  case (step P P')
  from step.hyps(2) step.IH show ?case
  proof (cases rule: proc_step.cases)
    case (run_fire e q r s' w')
    let ?w1 = "py_print ''handler called'' (pr_world P)"
    have "fs ?w1 (b_last_poll_time_path b) = None" using step.IH run_fire by simp
    from fetch_new_missing_watermark [OF this] obtain ex w2
      where f: "fetch_new_reddit_submissions b ?w1 = (Inl ex, w2)"
      and tx: "slack_texts (trace w2) = slack_texts (trace ?w1)" by blast
    then have "r = Inl ex" "w' = w2" using run_fire by (simp_all add: callback_handler_def Let_def)
    then show ?thesis using run_fire step.IH tx by (simp add: status_of_def)
  next
    case run_empty
    then show ?thesis using step.IH by simp
  next
    case (run_sleep e q c)
    then show ?thesis using step.IH by simp
  next
    case (run_env w')
    then show ?thesis using step.IH by (simp add: env_step_def)
  qed
qed

lemma proc_step_fire_exists:
  assumes "pr_status Q = Running" and "queue (pr_sched Q) = e # q"
    and "\<not> dec_gt (ev_time e) (clock (pr_world Q))"
  shows "\<exists>Q'. proc_step b Q Q' \<and> pr_starts Q' = pr_starts Q @ [clock (pr_world Q)]"
proof -
  let ?r = "callback_handler b ((pr_sched Q)\<lparr>queue := q\<rparr>) (pr_world Q)"
  have "?r = (fst ?r, fst (snd ?r), snd (snd ?r))" by simp
  with assms have "proc_step b Q \<lparr>pr_sched = fst (snd ?r), pr_world = snd (snd ?r), pr_status = status_of (fst ?r),
      pr_starts = pr_starts Q @ [clock (pr_world Q)], pr_sent = pr_sent Q @ cycle_subs b (pr_world Q)\<rparr>"
    by (rule run_fire)
  then show ?thesis by fastforce
qed

lemma proc_step_next_cycle:
  assumes "pr_status P = Running" and "queue (pr_sched P) = [e]"
  shows "\<exists>P'. (proc_step b)\<^sup>*\<^sup>* P P' \<and> length (pr_starts P') = Suc (length (pr_starts P))"
proof (cases "dec_gt (ev_time e) (clock (pr_world P))")
  case True
  let ?P1 = "P\<lparr>pr_world := (pr_world P)\<lparr>clock := ev_time e\<rparr>\<rparr>"
  have s1: "proc_step b P ?P1" using assms True by (intro run_sleep [where q = "[]"]) auto
  have "\<not> dec_gt (ev_time e) (clock (pr_world ?P1))" by (simp add: dec_gt_def)
  then obtain P' where s2: "proc_step b ?P1 P'" and l: "pr_starts P' = pr_starts P @ [ev_time e]"
    using proc_step_fire_exists [of ?P1 e "[]" b] assms by auto
  have "(proc_step b)\<^sup>*\<^sup>* P P'" using s1 s2 by (rule converse_rtranclp_into_rtranclp [OF _ r_into_rtranclp])
  then show ?thesis using l by auto
next
  case False
  then obtain P' where "proc_step b P P'" "pr_starts P' = pr_starts P @ [clock (pr_world P)]"
    using proc_step_fire_exists [of P e "[]" b] assms by auto
  then show ?thesis by (auto intro: r_into_rtranclp)
qed

lemma proc_reach_first_cycle: "proc_reach b w0 (first_cycle b w0)"
proof -
  let ?P0 = "main_init b w0" and ?t = "dec_add (clock w0) POLL_INTERVAL"
  let ?e = "\<lparr>ev_time = ?t, ev_priority = 1, ev_seq = 0\<rparr>"
  let ?P1 = "?P0\<lparr>pr_world := (pr_world ?P0)\<lparr>clock := ?t\<rparr>\<rparr>"
  have q: "queue (pr_sched ?P0) = [?e]" by (simp add: main_init_def sched_enter_def sched_init_def)
  have "dec_val POLL_INTERVAL = 60" by (simp add: POLL_INTERVAL_def dec_val_def)
  then have s1: "proc_step b ?P0 ?P1"
    by (intro run_sleep [OF _ q]) (simp_all add: main_init_def dec_gt_def)
  let ?c = "callback_handler b ((pr_sched ?P1)\<lparr>queue := []\<rparr>) (pr_world ?P1)"
  have "?c = (fst ?c, fst (snd ?c), snd (snd ?c))" by simp
  then have s2: "proc_step b ?P1 \<lparr>pr_sched = fst (snd ?c), pr_world = snd (snd ?c), pr_status = status_of (fst ?c),
      pr_starts = pr_starts ?P1 @ [clock (pr_world ?P1)], pr_sent = pr_sent ?P1 @ cycle_subs b (pr_world ?P1)\<rparr>"
    by (intro run_fire [where e = ?e]) (use q in \<open>simp_all add: main_init_def dec_gt_def\<close>)
  have "(pr_sched ?P1)\<lparr>queue := []\<rparr> = \<lparr>queue = [], next_seq = 1\<rparr>"
    by (simp add: main_init_def sched_enter_def sched_init_def)
  then show ?thesis using s1 s2 unfolding proc_reach_def first_cycle_def Let_def
    by (auto simp: main_init_def intro: converse_rtranclp_into_rtranclp [OF _ r_into_rtranclp])
qed

text \<open>C12: in every reachable state of the process, a running process has exactly one pending scheduler event, due POLL_INTERVAL seconds after the start of the last cycle.\<close>

theorem proc_single_timer:
  assumes "proc_reach b w0 P" and "pr_status P = Running"
  shows "\<exists>e. queue (pr_sched P) = [e] \<and>
    (pr_starts P \<noteq> [] \<longrightarrow> dec_val (ev_time e) = dec_val (last (pr_starts P)) + dec_val POLL_INTERVAL)"
  using timer_inv_reach [OF assms(1)] assms(2) by (simp add: timer_inv_def)

text \<open>C13: consecutive poll cycles start at least POLL_INTERVAL seconds apart.\<close>

theorem proc_cycles_spaced:
  "proc_reach b w0 P \<Longrightarrow> successively (\<lambda>t t'. dec_val t + dec_val POLL_INTERVAL \<le> dec_val t') (pr_starts P)"
  using timer_inv_reach by (simp add: timer_inv_def)

text \<open>C14: s.run() never returns: the scheduler queue is never empty, so main() ends only by an exception.\<close>

theorem proc_never_returns: "proc_reach b w0 P \<Longrightarrow> pr_status P \<noteq> Returned"
  using timer_inv_reach by (simp add: timer_inv_def)

text \<open>C15: a running process always reaches the start of its next poll cycle (by sleeping until the event is due, then firing it).\<close>

theorem proc_next_cycle:
  assumes "proc_reach b w0 P" and "pr_status P = Running"
  shows "\<exists>P'. (proc_step b)\<^sup>*\<^sup>* P P' \<and> length (pr_starts P') = Suc (length (pr_starts P))"
proof -
  obtain e where "queue (pr_sched P) = [e]" using timer_inv_reach [OF assms(1)] assms(2) by (auto simp: timer_inv_def)
  then show ?thesis using proc_step_next_cycle assms(2) by blast
qed

text \<open>C16: at most once: when every listing the process sees has distinct posts created no later than the local clock, no submission is handed to the dispatch loop twice over the whole run.\<close>

theorem proc_at_most_once: "proc_reach b w0 P \<Longrightarrow> listing_wf w0 \<Longrightarrow> distinct (pr_sent P)"
  using sent_inv_reach by (simp add: sent_inv_def)

text \<open>C17: on a fresh install without a watermark file, the process posts nothing and terminates with an exception in its first poll cycle.\<close>

theorem proc_fresh_install_exits:
  assumes "proc_reach b w0 P" and "fs w0 (b_last_poll_time_path b) = None"
  shows "slack_texts (trace (pr_world P)) = slack_texts (trace w0) \<and> length (pr_starts P) \<le> 1 \<and>
    (pr_starts P = [] \<or> (\<exists>e. pr_status P = Exited e))"
  using fresh_install_inv [OF assms] by blast

lemma watermark_inv:
  assumes "proc_reach b w0 P"
  shows "pr_status P = Running \<longrightarrow> pr_starts P \<noteq> [] \<longrightarrow>
    (\<exists>t. fs (pr_world P) (b_last_poll_time_path b) = Some (str_float t) \<and>
       dec_val (last (pr_starts P)) \<le> dec_val t \<and> dec_val t \<le> dec_val (clock (pr_world P)))"
  using assms unfolding proc_reach_def
proof (induction rule: rtranclp_induct)
  case base
  then show ?case by (simp add: main_init_def)
next
  case (step P P')
  from step.hyps(2) step.IH show ?case
  proof (cases rule: proc_step.cases)
    case (run_fire e q r s' w')
    show ?thesis
    proof (cases "r = Inr ()")
      case True
      then have cb: "callback_handler b ((pr_sched P)\<lparr>queue := q\<rparr>) (pr_world P) = (Inr (), s', w')"
        using run_fire by simp
      have "clock w' = request_clock (pr_world P)" using callback_handler_world [OF cb] by blast
      then show ?thesis using run_fire cycle_watermark_file [OF cb] request_clock_ge [of "pr_world P"] by auto
    next
      case False
      then show ?thesis using run_fire by simp
    qed
  next
    case (run_sleep e q c)
    then show ?thesis using step.IH by (auto simp: dec_gt_def)
  next
    case (run_env w')
    then show ?thesis using step.IH by (fastforce simp: env_step_def)
  qed simp
qed

text \<open>C21: in every reachable state of a running process that has completed a cycle, the watermark file holds the printed form of a time t that the last cycle read, no earlier than the start of that cycle and no later than the current clock, and the getter reads it back as t.\<close>

theorem proc_watermark_file:
  assumes "proc_reach b w0 P" and "pr_status P = Running" and "pr_starts P \<noteq> []"
  shows "\<exists>t. fs (pr_world P) (b_last_poll_time_path b) = Some (str_float t) \<and>
    dec_val (last (pr_starts P)) \<le> dec_val t \<and> dec_val t \<le> dec_val (clock (pr_world P)) \<and>
    (\<exists>W. fst (last_poll_time_get (b_last_poll_time_path b) (pr_world P)) = Inr (Fin W) \<and> dec_val W = dec_val t)"
proof -
  obtain t where f: "fs (pr_world P) (b_last_poll_time_path b) = Some (str_float t)"
    and "dec_val (last (pr_starts P)) \<le> dec_val t" "dec_val t \<le> dec_val (clock (pr_world P))"
    using watermark_inv [OF assms(1)] assms(2,3) by blast
  then show ?thesis using last_poll_time_get_written [OF f] by fastforce
qed

lemma subseq_distinct: "subseq xs ys \<Longrightarrow> distinct ys \<Longrightarrow> distinct xs"
  by (induction rule: list_emb.induct) (auto dest: list_emb_set)

lemma post_all_prefix:
  "\<exists>k. slack_texts (trace (snd (post_all b subs w))) =
      slack_texts (trace w) @ map (message_of (tz_offset w)) (take k subs) \<and>
    (fst (post_all b subs w) = Inr () \<longrightarrow> k = length subs)"
proof (induction subs arbitrary: w)
  case Nil
  then show ?case by (auto intro: exI [of _ 0])
next
  case (Cons sub subs)
  show ?case
  proof (cases "message_time (tz_offset w) (s_time_created sub)")
    case (Inl e)
    then show ?thesis by (auto simp: post_submission_to_slack_def intro: exI [of _ 0])
  next
    case (Inr mt)
    obtain r1 w1 where pm: "post_message (b_slackbot b) (format_message sub mt) w = (r1, w1)" by (metis prod.collapse)
    then have w1: "trace_ext w w1" "slack_texts (trace w1) = slack_texts (trace w) @ [format_message sub mt]"
      "r1 = (if slack_api w (format_message sub mt) = Slack_transport_error then Inl ConnectionError else Inr ())"
      using post_message_frame by blast+
    have tz: "tz_offset w1 = tz_offset w" using w1(1) by (simp add: trace_ext_frame)
    have msg: "message_of (tz_offset w) sub = format_message sub mt" using Inr by (simp add: message_of_def)
    have ps: "post_all b (sub # subs) w = ebind (\<lambda>_. (r1, w1)) (\<lambda>_. post_all b subs) w"
      using post_submission_to_slack_send [OF Inr] pm by (simp add: ebind_def)
    show ?thesis
    proof (cases r1)
      case (Inl e)
      then show ?thesis using ps w1 msg by (auto simp: ebind_def intro: exI [of _ 1])
    next
      case (Inr u)
      obtain k where "slack_texts (trace (snd (post_all b subs w1))) =
          slack_texts (trace w1) @ map (message_of (tz_offset w1)) (take k subs)"
        "fst (post_all b subs w1) = Inr () \<longrightarrow> k = length subs" using Cons.IH [of w1] by blast
      then show ?thesis using ps w1 msg tz Inr by (auto simp: ebind_def intro!: exI [of _ "Suc k"])
    qed
  qed
qed

lemma cycle_posts:
  assumes "callback_handler b s w = (r, s', w')"
  shows "\<exists>k. slack_texts (trace w') = slack_texts (trace w) @ map (message_of (tz_offset w)) (take k (cycle_subs b w)) \<and>
    (r = Inr () \<longrightarrow> k = length (cycle_subs b w))"
proof (cases "fetch_new_reddit_submissions b (py_print ''handler called'' w)")
  case (Pair res w2)
  have tx2: "slack_texts (trace w2) = slack_texts (trace w)"
    using posts_nothing_fetch_new [of b] Pair unfolding posts_nothing_def by (metis snd_conv py_print_def
      emit_frame(8) slack_texts_append slack_texts_simps(1,4) append_Nil2)
  show ?thesis
  proof (cases res)
    case (Inl e)
    then show ?thesis using assms Pair tx2
      by (auto simp: callback_handler_def Let_def cycle_subs_def intro: exI [of _ 0])
  next
    case (Inr subs)
    have cs: "cycle_subs b w = subs" using Pair Inr by (simp add: cycle_subs_def)
    have tz2: "tz_offset w2 = tz_offset w" using fetch_new_Inr_trace Pair Inr by fastforce
    define w3 where "w3 = (if subs = [] then logger_info ''No recent submissions'' w2 else w2)"
    have w3: "slack_texts (trace w3) = slack_texts (trace w)" "tz_offset w3 = tz_offset w"
      using tx2 tz2 by (simp_all add: w3_def emit_def)
    have "post_all b subs w3 = (r, w')"
    proof (cases "subs = []")
      case True
      then show ?thesis using assms Pair Inr by (auto simp: callback_handler_def Let_def w3_def)
    next
      case False
      then show ?thesis using assms Pair Inr
        by (auto simp: callback_handler_def Let_def w3_def split: prod.splits)
    qed
    then show ?thesis using post_all_prefix [of b subs w3] w3 cs by auto
  qed
qed

text \<open>C22: the Slack posts of one poll cycle are the messages of a prefix of the cycle's new submissions, in order, one post each; when the cycle returns normally the prefix is the whole list.\<close>

theorem cycle_posts_prefix:
  assumes "callback_handler b s w = (r, s', w')"
  shows "\<exists>k. slack_texts (trace w') = slack_texts (trace w) @ map (message_of (tz_offset w)) (take k (cycle_subs b w)) \<and>
    (r = Inr () \<longrightarrow> k = length (cycle_subs b w))"
  using assms by (rule cycle_posts)

lemma proc_posts_subseq:
  assumes "proc_reach b w0 P"
  shows "\<exists>ps. slack_texts (trace (pr_world P)) = slack_texts (trace w0) @ map (\<lambda>(tz, sub). message_of tz sub) ps \<and>
    subseq (map snd ps) (pr_sent P)"
  using assms unfolding proc_reach_def
proof (induction rule: rtranclp_induct)
  case base
  then show ?case by (auto simp: main_init_def intro: exI [of _ "[]"])
next
  case (step P P')
  then obtain ps where ps: "slack_texts (trace (pr_world P)) = slack_texts (trace w0) @ map (\<lambda>(tz, sub). message_of tz sub) ps"
    "subseq (map snd ps) (pr_sent P)" by blast
  from step.hyps(2) show ?case
  proof (cases rule: proc_step.cases)
    case (run_fire e q r s' w')
    let ?C = "cycle_subs b (pr_world P)" and ?tz = "tz_offset (pr_world P)"
    obtain k where k: "slack_texts (trace w') = slack_texts (trace (pr_world P)) @ map (message_of ?tz) (take k ?C)"
      using cycle_posts [OF run_fire(5)] by blast
    have "subseq (map snd ps @ take k ?C) (pr_sent P @ ?C)"
      using ps(2) by (intro list_emb_append_mono) (auto intro: prefix_imp_subseq take_is_prefix)
    then show ?thesis using run_fire ps k
      by (intro exI [of _ "ps @ map (Pair ?tz) (take k ?C)"]) (simp add: comp_def)
  qed (use ps in \<open>auto simp: env_step_def\<close>)
qed

text \<open>C23: at most once, observed on Slack: when listings hold distinct posts created no later than the local clock, the texts a run posts to Slack are the messages of distinct submissions, each handed to the dispatch loop, in dispatch order.\<close>

theorem proc_posts_at_most_once:
  assumes "proc_reach b w0 P" and "listing_wf w0"
  shows "\<exists>ps. slack_texts (trace (pr_world P)) = slack_texts (trace w0) @ map (\<lambda>(tz, sub). message_of tz sub) ps \<and>
    distinct (map snd ps) \<and> subseq (map snd ps) (pr_sent P)"
proof -
  obtain ps where "slack_texts (trace (pr_world P)) = slack_texts (trace w0) @ map (\<lambda>(tz, sub). message_of tz sub) ps"
    and sq: "subseq (map snd ps) (pr_sent P)" using proc_posts_subseq [OF assms(1)] by blast
  moreover have "distinct (pr_sent P)" using sent_inv_reach [OF assms] by (simp add: sent_inv_def)
  ultimately show ?thesis using subseq_distinct by blast
qed

text \<open>C25: when the first new submission of a cycle has a creation time that datetime cannot convert (a year after 9999), the cycle raises that ValueError before posting anything: no message of the cycle reaches Slack.\<close>

theorem cycle_value_error:
  assumes "callback_handler b s w = (r, s', w')" and "cycle_subs b w = sub # subs"
    and "message_time (tz_offset w) (s_time_created sub) = Inl e"
  shows "r = Inl e \<and> slack_texts (trace w') = slack_texts (trace w)"
proof (cases "fetch_new_reddit_submissions b (py_print ''handler called'' w)")
  case (Pair res w2)
  obtain subs' where Inr: "res = Inr subs'"
    using assms(2) Pair by (cases res) (auto simp: cycle_subs_def)
  then have cs: "subs' = sub # subs" using assms(2) Pair by (simp add: cycle_subs_def)
  have tz2: "tz_offset w2 = tz_offset w" using fetch_new_Inr_trace Pair Inr by fastforce
  have tx2: "slack_texts (trace w2) = slack_texts (trace w)"
    using posts_nothing_fetch_new [of b] Pair unfolding posts_nothing_def by (metis snd_conv py_print_def
      emit_frame(8) slack_texts_append slack_texts_simps(1,4) append_Nil2)
  have "post_all b (sub # subs) w2 = (Inl e, w2)"
    using assms(3) tz2 by (simp add: post_submission_to_slack_def)
  then have "r = Inl e \<and> w' = w2" using assms(1) Pair Inr cs by (simp add: callback_handler_def Let_def)
  then show ?thesis using tx2 by simp
qed

text \<open>C27: a poll cycle that returns normally has read the subscriptions q, the listing ys of q and the watermark W; it has posted to Slack exactly the messages of the posts among the first MAX_POSTS of ys created strictly after W, in listing order; it has left the watermark file holding the time read when the Reddit request returned; and it has re-armed the timer POLL_INTERVAL after the time read when the cycle started.\<close>

theorem cycle_correct:
  assumes "callback_handler b s w = (Inr (), s', w')"
  shows "\<exists>q ys W. fst (subscribed_subreddits_formatted (b_subreddits_path b) w) = Inr q \<and>
    listing w q = Inr ys \<and> fst (last_poll_time_get (b_last_poll_time_path b) w) = Inr W \<and>
    slack_texts (trace w') = slack_texts (trace w) @ map (message_of (tz_offset w))
      (map to_submission (filter (\<lambda>p. case W of Fin d \<Rightarrow> dec_val d < dec_val (p_created p)
         | NInf \<Rightarrow> True | PInf \<Rightarrow> False | NaN \<Rightarrow> False) (take MAX_POSTS ys))) \<and>
    fs w' = (fs w)(b_last_poll_time_path b \<mapsto> str_float (request_clock w)) \<and>
    s' = sched_enter POLL_INTERVAL 1 (clock w) s"
proof -
  let ?w1 = "py_print ''handler called'' w"
  obtain w2 where f: "fetch_new_reddit_submissions b ?w1 = (Inr (cycle_subs b w), w2)" and fs': "fs w' = fs w2"
    using callback_handler_world [OF assms] by blast
  obtain q ys W where q: "fst (subscribed_subreddits_formatted (b_subreddits_path b) ?w1) = Inr q"
    and ys: "listing ?w1 q = Inr ys" and W: "fst (last_poll_time_get (b_last_poll_time_path b) ?w1) = Inr W"
    and cs: "cycle_subs b w = new_submissions W (take MAX_POSTS ys)"
    and fs2: "fs w2 = (fs ?w1)(b_last_poll_time_path b \<mapsto> str_float (request_clock ?w1))"
    using fetch_new_Inr [OF f] by blast
  have "fs ?w1 = fs w" by simp
  then have "fst (subscribed_subreddits_formatted (b_subreddits_path b) w) = Inr q"
    "fst (last_poll_time_get (b_last_poll_time_path b) w) = Inr W"
    using q W subscribed_subreddits_formatted_fs [of ?w1 w] last_poll_time_get_fs [of ?w1 w] by simp_all
  moreover obtain k where "slack_texts (trace w') =
      slack_texts (trace w) @ map (message_of (tz_offset w)) (take k (cycle_subs b w))"
    and "k = length (cycle_subs b w)" using cycle_posts [OF assms] by blast
  moreover have "s' = sched_enter POLL_INTERVAL 1 (clock w) s"
    using callback_handler_sched [of b s w] assms by simp
  ultimately show ?thesis using ys cs fs' fs2 by (auto simp: new_submissions_filter)
qed

end
