(* ===== verification/Logging.thy ===== *)
theory Logging
  imports Process
begin

text \<open>
  The logging set-up of bot.py (lines 11--18): the root logger at level INFO, one
  \<open>StreamHandler\<close> on standard output at level INFO, and the format
  \<open>'%(asctime)s - %(name)s - %(levelname)s - %(message)s'\<close>. A record is written
  when its level reaches both thresholds. Both clients log through
  \<open>log(message, level)\<close>, which calls \<open>logger.info\<close> whatever level it is given
  (reddit.py line 30, slack.py line 25), so every record of a run is at INFO: the
  lemmas below show it for every operation and for every run of the process.
\<close>

definition level_no :: "level \<Rightarrow> nat" where
  "level_no l = (case l of DEBUG \<Rightarrow> 10 | INFO \<Rightarrow> 20 | WARNING \<Rightarrow> 30 | ERROR \<Rightarrow> 40)"

definition level_name :: "level \<Rightarrow> string" where
  "level_name l = (case l of DEBUG \<Rightarrow> ''DEBUG'' | INFO \<Rightarrow> ''INFO'' | WARNING \<Rightarrow> ''WARNING'' | ERROR \<Rightarrow> ''ERROR'')"

definition LOGGER_LEVEL :: level where
  "LOGGER_LEVEL = INFO"

definition HANDLER_LEVEL :: level where
  "HANDLER_LEVEL = INFO"

text \<open>
  The line the handler writes for an event of the trace, given the formatted
  creation time of the record (\<open>asctime\<close>); the root logger's name is
  \<open>root\<close>. Events other than log records write no handler line.
\<close>

definition handler_line :: "string \<Rightarrow> event \<Rightarrow> string option" where
  "handler_line asctime ev = (case ev of
     Log l msg \<Rightarrow>
       (if level_no LOGGER_LEVEL \<le> level_no l \<and> level_no HANDLER_LEVEL \<le> level_no l
        then Some (asctime @ '' - '' @ ''root'' @ '' - '' @ level_name l @ '' - '' @ msg) else None)
   | _ \<Rightarrow> None)"

text \<open>Event lists whose log records are all at INFO, and operations that append only such events.\<close>

definition info_only :: "event list \<Rightarrow> bool" where
  "info_only evs \<longleftrightarrow> list_all (\<lambda>ev. case ev of Log l m \<Rightarrow> l = INFO | _ \<Rightarrow> True) evs"

definition logs_info :: "'a op \<Rightarrow> bool" where
  "logs_info m \<longleftrightarrow> (\<forall>w. \<exists>evs. trace (snd (m w)) = trace w @ evs \<and> info_only evs)"

section \<open>Lemmas\<close>

lemma info_only_simps [simp]:
  "info_only []" "info_only (xs @ ys) \<longleftrightarrow> info_only xs \<and> info_only ys"
  "info_only (Log l m # xs) \<longleftrightarrow> l = INFO \<and> info_only xs"
  "info_only (Stdout m # xs) \<longleftrightarrow> info_only xs" "info_only (Reddit_new q n # xs) \<longleftrightarrow> info_only xs"
  "info_only (Slack_post c m # xs) \<longleftrightarrow> info_only xs" "info_only (Write_file p c # xs) \<longleftrightarrow> info_only xs"
  by (simp_all add: info_only_def)

lemma logs_info_ebind [intro]: "logs_info m \<Longrightarrow> (\<And>x. logs_info (f x)) \<Longrightarrow> logs_info (ebind m f)"
  unfolding logs_info_def
proof (intro allI)
  fix w
  assume m: "\<forall>w. \<exists>evs. trace (snd (m w)) = trace w @ evs \<and> info_only evs"
    and f: "\<And>x. \<forall>w. \<exists>evs. trace (snd (f x w)) = trace w @ evs \<and> info_only evs"
  obtain r w1 where mw: "m w = (r, w1)" by (cases "m w")
  obtain evs where "trace w1 = trace w @ evs" "info_only evs" using m mw by (metis snd_conv)
  then show "\<exists>evs. trace (snd (ebind m f w)) = trace w @ evs \<and> info_only evs"
    using f mw by (cases r) (auto simp: ebind_def, metis append.assoc info_only_simps(2))
qed

lemma logs_info_ops [intro, simp]:
  "logs_info (ereturn x)" "logs_info (eraise e)" "logs_info (print_op s)" "logs_info time_time"
  "logs_info (py_index0 xs)" "logs_info (last_poll_time_get p)" "logs_info (last_poll_time_set p t)"
  "logs_info (subscribed_subreddits_formatted p)"
  by (auto simp: logs_info_def py_index0_def last_poll_time_set_def emit_def split: list.split)

lemma reddit_log_info: "\<exists>evs. trace (reddit_log rb m l w) = trace w @ evs \<and> info_only evs"
  by (auto simp: reddit_log_def emit_def intro: exI [of _ "[]"])

lemma fold_reddit_log_info:
  "\<exists>evs. trace (fold (\<lambda>p. reddit_log rb (f p) l) ps w) = trace w @ evs \<and> info_only evs"
proof (induction ps arbitrary: w)
  case Nil
  then show ?case by (auto intro: exI [of _ "[]"])
next
  case (Cons p ps)
  obtain e1 where "trace (reddit_log rb (f p) l w) = trace w @ e1" "info_only e1" using reddit_log_info by blast
  moreover obtain e2 where "trace (fold (\<lambda>p. reddit_log rb (f p) l) ps (reddit_log rb (f p) l w)) =
      trace (reddit_log rb (f p) l w) @ e2" "info_only e2" using Cons.IH by blast
  ultimately show ?case by (intro exI [of _ "e1 @ e2"]) simp
qed

lemma logs_info_fetch_posts [intro, simp]: "logs_info (fetch_posts rb q n)"
  unfolding logs_info_def
proof
  fix w
  let ?w2 = "after_request (emit (Reddit_new q n) (reddit_log rb (''Fetching posts from '' @ q) ''info'' w))"
  obtain e1 where e1: "trace ?w2 = trace w @ e1" "info_only e1"
    using reddit_log_info [of rb "''Fetching posts from '' @ q" "''info''" w] by auto
  show "\<exists>evs. trace (snd (fetch_posts rb q n w)) = trace w @ evs \<and> info_only evs"
  proof (cases "listing ?w2 q")
    case (Inl e)
    then show ?thesis using e1 by (auto simp: fetch_posts_def Let_def)
  next
    case (Inr ys)
    obtain e2 where e2: "trace (fold (\<lambda>p. reddit_log rb (''Fetched post: '' @ p_title p) ''debug'') (take n ys) ?w2) =
        trace ?w2 @ e2" "info_only e2"
      using fold_reddit_log_info [of rb "\<lambda>p. ''Fetched post: '' @ p_title p" "''debug''" "take n ys" ?w2] by blast
    have "snd (fetch_posts rb q n w) =
        fold (\<lambda>p. reddit_log rb (''Fetched post: '' @ p_title p) ''debug'') (take n ys) ?w2"
      using Inr by (simp add: fetch_posts_def Let_def)
    then show ?thesis using e1 e2 by (intro exI [of _ "e1 @ e2"]) simp
  qed
qed

lemma logs_info_post_message [intro, simp]: "logs_info (post_message sb msg)"
  by (auto simp: logs_info_def post_message_eq Let_def split: slack_outcome.split)

lemma logs_info_post_submission [intro, simp]: "logs_info (post_submission_to_slack b sub d)"
  using logs_info_post_message unfolding logs_info_def
  by (auto simp: post_submission_to_slack_def emit_def split: sum.split)

lemma logs_info_post_all [intro, simp]: "logs_info (post_all b subs)"
proof (induction subs)
  case Nil
  then show ?case by (simp add: logs_info_def)
next
  case (Cons sub subs)
  then show ?case unfolding post_all.simps by (intro logs_info_ebind) simp_all
qed

lemma logs_info_fetch_new [intro, simp]: "logs_info (fetch_new_reddit_submissions b)"
  unfolding fetch_new_reddit_submissions_def by (intro logs_info_ebind) simp_all

lemma callback_handler_info:
  assumes "callback_handler b s w = (r, s', w')"
  shows "\<exists>evs. trace w' = trace w @ evs \<and> info_only evs"
proof (cases "fetch_new_reddit_submissions b (py_print ''handler called'' w)")
  case (Pair res w2)
  obtain e2 where e2: "trace w2 = trace w @ Stdout ''handler called'' # e2" "info_only e2"
    using logs_info_fetch_new [of b] Pair unfolding logs_info_def by (metis append.assoc append_Cons
      append_Nil py_print_def emit_frame(8) snd_conv)
  show ?thesis
  proof (cases res)
    case (Inl e)
    then show ?thesis using assms Pair e2 by (auto simp: callback_handler_def Let_def)
  next
    case (Inr subs)
    define w3 where "w3 = (if subs = [] then logger_info ''No recent submissions'' w2 else w2)"
    have e3: "\<exists>e. trace w3 = trace w2 @ e \<and> info_only e" by (simp add: w3_def emit_def)
    have "w' = snd (post_all b subs w3)"
      using assms Pair Inr unfolding w3_def by (auto simp: callback_handler_def Let_def split: prod.splits)
    moreover obtain e4 where "trace (snd (post_all b subs w3)) = trace w3 @ e4" "info_only e4"
      using logs_info_post_all [of b subs] unfolding logs_info_def by blast
    ultimately show ?thesis using e2 e3 by auto
  qed
qed

lemma proc_info_only:
  assumes "proc_reach b w0 P"
  shows "\<exists>evs. trace (pr_world P) = trace w0 @ evs \<and> info_only evs"
  using assms unfolding proc_reach_def
proof (induction rule: rtranclp_induct)
  case base
  then show ?case by (simp add: main_init_def)
next
  case (step P P')
  from step.hyps(2) step.IH show ?case
  proof (cases rule: proc_step.cases)
    case (run_fire e q r s' w')
    then show ?thesis using step.IH callback_handler_info [OF run_fire(5)] by auto
  qed (auto simp: env_step_def)
qed

lemma handler_line_INFO:
  "handler_line asctime (Log INFO m) = Some (asctime @ '' - root - INFO - '' @ m)"
  by (simp add: handler_line_def level_no_def LOGGER_LEVEL_def HANDLER_LEVEL_def level_name_def)

text \<open>C18: every record the process logs, whatever level the code asked for ('debug' for fetched posts, 'error' for a rejected Slack message), passes the INFO thresholds of the root logger and of its handler, and is written to standard output with level name INFO.\<close>

theorem proc_log_lines_info:
  assumes "proc_reach b w0 P"
  shows "\<exists>evs. trace (pr_world P) = trace w0 @ evs \<and>
    list_all (\<lambda>ev. case ev of Log l m \<Rightarrow> handler_line asctime ev = Some (asctime @ '' - root - INFO - '' @ m)
                            | _ \<Rightarrow> True) evs"
proof -
  obtain evs where "trace (pr_world P) = trace w0 @ evs" "info_only evs" using proc_info_only [OF assms] by blast
  then show ?thesis
    by (intro exI [of _ evs]) (auto simp: info_only_def list_all_iff handler_line_INFO split: event.splits)
qed

end
