(* ===== verification/Boundary.thy ===== *)
theory Boundary
  imports Logging
begin

text \<open>
  Boundary inputs and error paths of a poll cycle (bot.py lines 48--117): a
  watermark file that cannot be read or written, an empty subscription file,
  a listing with more new posts than \<open>MAX_POSTS\<close> (in one cycle, and over
  the cycles of a run of \<open>proc_step\<close>), and the subscription query read back
  with the reference \<open>py_split\<close>.
\<close>

section \<open>Lemmas\<close>

lemma fetch_posts_frame:
  assumes "fetch_posts rb q n w = (r, w1)"
  shows "fs w1 = fs w \<and> ro_paths w1 = ro_paths w \<and> full_paths w1 = full_paths w \<and> clock w1 = request_clock w"
proof -
  have "trace_ext (after_request w) w1" using fetch_posts_ext [of w rb q n] assms by simp
  then show ?thesis using trace_ext_frame(1,2,5,6) by fastforce
qed

lemma fetch_new_bad_watermark:
  assumes "b_last_poll_time_path b \<in> ro_paths w \<or> (\<exists>e. fst (last_poll_time_get (b_last_poll_time_path b) w) = Inl e)"
  shows "\<exists>e w'. fetch_new_reddit_submissions b w = (Inl e, w') \<and> fs w' = fs w"
proof -
  let ?p = "b_last_poll_time_path b"
  show ?thesis
  proof (cases "subscribed_subreddits_formatted (b_subreddits_path b) w")
    case (Pair r0 w0)
    then have w0: "w0 = w" by (simp add: subscribed_subreddits_formatted_eq)
    show ?thesis
    proof (cases r0)
      case (Inl e)
      then show ?thesis using Pair w0 by (simp add: fetch_new_reddit_submissions_def)
    next
      case (Inr q)
      obtain r1 w1 where fp: "fetch_posts (b_redditbot b) q MAX_POSTS w = (r1, w1)" by (metis prod.collapse)
      have fr: "fs w1 = fs w" "ro_paths w1 = ro_paths w" using fetch_posts_frame [OF fp] by simp_all
      have g: "fst (last_poll_time_get ?p w1) = fst (last_poll_time_get ?p w)"
        using fr(1) by (rule last_poll_time_get_fs)
      show ?thesis
      proof (cases r1)
        case (Inl e)
        then show ?thesis using Pair w0 Inr fp fr by (simp add: fetch_new_reddit_submissions_def)
      next
        case (Inr posts)
        show ?thesis
        proof (cases "fst (last_poll_time_get ?p w1)")
          case (Inl e)
          then have "last_poll_time_get ?p w1 = (Inl e, w1)" by (simp add: last_poll_time_get_eq)
          then show ?thesis using Pair w0 \<open>r0 = Inr q\<close> fp Inr fr by (simp add: fetch_new_reddit_submissions_def)
        next
          case (Inr W)
          then have ro: "?p \<in> ro_paths w1" using assms g fr(2) by auto
          have "last_poll_time_get ?p w1 = (Inr W, w1)" using Inr by (simp add: last_poll_time_get_eq)
          then show ?thesis using Pair w0 \<open>r0 = Inr q\<close> fp \<open>r1 = Inr posts\<close> fr ro
            by (simp add: fetch_new_reddit_submissions_def last_poll_time_set_def)
        qed
      qed
    qed
  qed
qed

text \<open>C28: a poll cycle whose watermark file cannot be read (missing or not a number) or cannot be opened for writing raises an exception, leaves every file as it was and posts nothing.\<close>

theorem cycle_bad_watermark:
  assumes "callback_handler b s w = (r, s', w')"
    and "b_last_poll_time_path b \<in> ro_paths w \<or> (\<exists>e. fst (last_poll_time_get (b_last_poll_time_path b) w) = Inl e)"
  shows "(\<exists>e. r = Inl e) \<and> fs w' = fs w \<and> slack_texts (trace w') = slack_texts (trace w)"
proof -
  let ?w1 = "py_print ''handler called'' w"
  have "b_last_poll_time_path b \<in> ro_paths ?w1 \<or> (\<exists>e. fst (last_poll_time_get (b_last_poll_time_path b) ?w1) = Inl e)"
    using assms(2) last_poll_time_get_fs [of ?w1 w] by simp
  then obtain e w2 where f: "fetch_new_reddit_submissions b ?w1 = (Inl e, w2)" and "fs w2 = fs ?w1"
    using fetch_new_bad_watermark by blast
  moreover have "slack_texts (trace w2) = slack_texts (trace w)"
    using posts_nothing_fetch_new [of b] f unfolding posts_nothing_def by (metis snd_conv py_print_def
      emit_frame(8) slack_texts_append slack_texts_simps(1,4) append_Nil2)
  moreover have "r = Inl e \<and> w' = w2" using assms(1) f by (simp add: callback_handler_def Let_def)
  ultimately show ?thesis by simp
qed

lemma fetch_posts_request:
  "\<exists>pre post. trace (snd (fetch_posts rb q n w)) = trace w @ pre @ Reddit_new q n # post"
proof -
  let ?w1 = "reddit_log rb (''Fetching posts from '' @ q) ''info'' w"
  let ?w2 = "after_request (emit (Reddit_new q n) ?w1)"
  obtain pre where pre: "trace ?w1 = trace w @ pre" using trace_ext_frame(8) [OF reddit_log_ext] by blast
  have "trace_ext ?w2 (snd (fetch_posts rb q n w))"
    using fold_trace_ext [of "\<lambda>p. reddit_log rb (''Fetched post: '' @ p_title p) ''debug''"]
    by (auto simp: fetch_posts_def Let_def split: sum.split)
  then obtain post where "trace (snd (fetch_posts rb q n w)) = trace ?w2 @ post"
    using trace_ext_frame(8) by blast
  then show ?thesis using pre by auto
qed

lemma subscribed_subreddits_formatted_empty:
  "fs w p = Some [] \<Longrightarrow> subscribed_subreddits_formatted p w = (Inr [], w)"
  by (simp add: subscribed_subreddits_formatted_def ebind_def subscribed_subreddits_def open_read_def
      translate_newlines_def py_lines_Nil)

text \<open>C29: an empty subscription file is not treated as a no-op: the formatted subscription list is the empty string and the cycle still requests the Reddit listing of that empty query.\<close>

theorem fetch_new_empty_subscriptions:
  assumes "fs w (b_subreddits_path b) = Some []"
  shows "fst (subscribed_subreddits_formatted (b_subreddits_path b) w) = Inr [] \<and>
    (\<exists>pre post. trace (snd (fetch_new_reddit_submissions b w)) = trace w @ pre @ Reddit_new [] MAX_POSTS # post)"
proof -
  let ?K = "\<lambda>posts. ebind (last_poll_time_get (b_last_poll_time_path b)) (\<lambda>time_since.
     ebind (print_op (''time_since: '' @ str_pyfloat time_since)) (\<lambda>_.
     ebind time_time (\<lambda>now.
     ebind (last_poll_time_set (b_last_poll_time_path b) now) (\<lambda>_.
     ebind (py_index0 posts) (\<lambda>post0.
     ebind (print_op (''posts[0] created: '' @ str_float (p_created post0))) (\<lambda>_.
     ereturn (new_submissions time_since posts)))))))"
  have sf: "subscribed_subreddits_formatted (b_subreddits_path b) w = (Inr [], w)"
    using assms by (rule subscribed_subreddits_formatted_empty)
  have f: "fetch_new_reddit_submissions b w = ebind (fetch_posts (b_redditbot b) [] MAX_POSTS) ?K w"
    using sf by (simp add: fetch_new_reddit_submissions_def)
  obtain r1 w1 where fp: "fetch_posts (b_redditbot b) [] MAX_POSTS w = (r1, w1)" by (metis prod.collapse)
  obtain pre post where w1: "trace w1 = trace w @ pre @ Reddit_new [] MAX_POSTS # post"
    using fetch_posts_request [of "b_redditbot b" "[]" MAX_POSTS w] fp by auto
  have "\<And>x. logs_info (?K x)" by (intro logs_info_ebind) simp_all
  then have k: "\<And>x. \<exists>evs. trace (snd (?K x w1)) = trace w1 @ evs" unfolding logs_info_def by blast
  have "\<exists>evs. trace (snd (fetch_new_reddit_submissions b w)) = trace w1 @ evs"
  proof (cases r1)
    case (Inl e)
    then show ?thesis using f fp by (auto simp: ebind_def intro: exI [of _ "[]"])
  next
    case (Inr posts)
    then show ?thesis using f fp k by (simp add: ebind_def)
  qed
  then show ?thesis using sf w1 by auto
qed

lemma to_submission_inj: "to_submission p = to_submission p' \<Longrightarrow> p = p'"
  by (auto simp: to_submission_def intro: post.equality)

lemma cycle_subs_eq:
  assumes "callback_handler b s w = (Inr (), s', w')"
    and "fst (subscribed_subreddits_formatted (b_subreddits_path b) w) = Inr q" and "listing w q = Inr ys"
    and "fst (last_poll_time_get (b_last_poll_time_path b) w) = Inr W"
  shows "cycle_subs b w = new_submissions W (take MAX_POSTS ys)"
proof -
  let ?w1 = "py_print ''handler called'' w"
  obtain w2 where f: "fetch_new_reddit_submissions b ?w1 = (Inr (cycle_subs b w), w2)"
    using callback_handler_world [OF assms(1)] by blast
  obtain q' ys' W' where "fst (subscribed_subreddits_formatted (b_subreddits_path b) ?w1) = Inr q'"
    "listing ?w1 q' = Inr ys'" "fst (last_poll_time_get (b_last_poll_time_path b) ?w1) = Inr W'"
    "cycle_subs b w = new_submissions W' (take MAX_POSTS ys')"
    using fetch_new_Inr [OF f] by blast
  moreover have "fst (subscribed_subreddits_formatted (b_subreddits_path b) ?w1) = Inr q"
    using assms(2) subscribed_subreddits_formatted_fs [of ?w1 w] by (simp add: py_print_def)
  moreover have "fst (last_poll_time_get (b_last_poll_time_path b) ?w1) = Inr W"
    using assms(4) last_poll_time_get_fs [of ?w1 w] by (simp add: py_print_def)
  ultimately show ?thesis using assms(3) by (simp add: py_print_def)
qed

lemma cycle_subs_from_prefix:
  assumes "callback_handler b s w = (Inr (), s', w')"
    and "fst (subscribed_subreddits_formatted (b_subreddits_path b) w) = Inr q" and "listing w q = Inr ys"
    and "to_submission p \<in> set (cycle_subs b w)"
  shows "p \<in> set (take MAX_POSTS ys)"
proof -
  let ?w1 = "py_print ''handler called'' w"
  obtain w2 where f: "fetch_new_reddit_submissions b ?w1 = (Inr (cycle_subs b w), w2)"
    using callback_handler_world [OF assms(1)] by blast
  obtain q' ys' W where "fst (subscribed_subreddits_formatted (b_subreddits_path b) ?w1) = Inr q'"
    "listing ?w1 q' = Inr ys'" "cycle_subs b w = new_submissions W (take MAX_POSTS ys')"
    using fetch_new_Inr [OF f] by blast
  moreover have "fst (subscribed_subreddits_formatted (b_subreddits_path b) ?w1) = Inr q"
    using assms(2) subscribed_subreddits_formatted_fs [of ?w1 w] by (simp add: py_print_def)
  ultimately have "cycle_subs b w = new_submissions W (take MAX_POSTS ys)"
    using assms(3) by (simp add: py_print_def)
  then obtain p' where "p' \<in> set (take MAX_POSTS ys)" "to_submission p = to_submission p'"
    using new_submissions_mem [of "to_submission p"] assms(4) by auto
  then show ?thesis using to_submission_inj by blast
qed

text \<open>C30: a listing with more than MAX_POSTS entries loses posts: a post that the listing puts after the first MAX_POSTS entries is not delivered by a successful cycle, and the watermark that cycle writes is already at least its creation time, so no later cycle that reads this watermark delivers it either.\<close>

theorem cycle_overflow_lost:
  assumes "callback_handler b s w = (Inr (), s', w')" and "listing_wf w"
    and "fst (subscribed_subreddits_formatted (b_subreddits_path b) w) = Inr q" and "listing w q = Inr ys"
    and "p \<in> set (drop MAX_POSTS ys)"
  shows "to_submission p \<notin> set (cycle_subs b w) \<and>
    (\<exists>W'. fst (last_poll_time_get (b_last_poll_time_path b) w') = Inr W' \<and> \<not> flt_gt (p_created p) W')"
proof
  have lw: "distinct ys \<and> (\<forall>p\<in>set ys. dec_val (p_created p) \<le> dec_val (clock w))"
    using assms(2,4) unfolding listing_wf_def by blast
  have wf: "distinct ys" "dec_val (p_created p) \<le> dec_val (clock w)"
    using lw in_set_dropD [OF assms(5)] by auto
  have "distinct (take MAX_POSTS ys @ drop MAX_POSTS ys)" using wf(1) by simp
  then have "p \<notin> set (take MAX_POSTS ys)"
    using assms(5) by (auto simp del: append_take_drop_id)
  then show "to_submission p \<notin> set (cycle_subs b w)"
    using cycle_subs_from_prefix [OF assms(1,3,4)] by blast
  obtain W' where W': "fst (last_poll_time_get (b_last_poll_time_path b) w') = Inr (Fin W')"
    "dec_val W' = dec_val (request_clock w)"
    using cycle_watermark [OF assms(1)] by blast
  have "dec_val (p_created p) \<le> dec_val W'" using wf(2) request_clock_ge [of w] W'(2) by simp
  then show "\<exists>W'. fst (last_poll_time_get (b_last_poll_time_path b) w') = Inr W' \<and> \<not> flt_gt (p_created p) W'"
    using W'(1) by (auto simp: flt_gt_def)
qed

text \<open>C31: the query built from a subscription file written one name per line is the names joined by plus signs, and splitting it at the plus signs gives back exactly the names, in order, as long as the file names at least one subreddit and no name contains a plus sign.\<close>

theorem subscribed_subreddits_formatted_roundtrip:
  assumes "fs w p = Some (subs_file names)" and "\<forall>s\<in>set names. clean_name s \<and> CHR ''+'' \<notin> set s"
    and "names \<noteq> []"
  shows "\<exists>q. subscribed_subreddits_formatted p w = (Inr q, w) \<and> py_split CHR ''+'' q = names"
proof -
  have "subscribed_subreddits p w = (Inr names, w)"
    using assms(1,2) by (intro subscribed_subreddits_subs_file) auto
  then have "subscribed_subreddits_formatted p w = (Inr (py_join ''+'' names), w)"
    by (simp add: subscribed_subreddits_formatted_def ebind_def)
  moreover have "py_split CHR ''+'' (py_join [CHR ''+''] names) = names"
    using assms(2,3) by (intro py_split_join) auto
  ultimately show ?thesis by simp
qed

text \<open>C32: every poll cycle after the first hands to the dispatch loop only posts created strictly after the previous cycle started, so a post created before a cycle and not dispatched by it is never dispatched later.\<close>

theorem proc_later_cycles_newer:
  assumes "proc_reach b w0 P" and "listing_wf w0" and "pr_status P = Running" and "pr_starts P \<noteq> []"
    and "proc_step b P P'"
  shows "list_all (\<lambda>sub. dec_val (last (pr_starts P)) < dec_val (s_time_created sub))
    (drop (length (pr_sent P)) (pr_sent P'))"
  using assms(5)
proof (cases rule: proc_step.cases)
  case (run_fire e q r s' w')
  have wf: "listing_wf (pr_world P)" using sent_inv_reach [OF assms(1,2)] assms(3) by (simp add: sent_inv_def)
  obtain t where f: "fs (pr_world P) (b_last_poll_time_path b) = Some (str_float t)"
    and t: "dec_val (last (pr_starts P)) \<le> dec_val t"
    using watermark_inv [OF assms(1)] assms(3,4) by blast
  obtain W where W: "fst (last_poll_time_get (b_last_poll_time_path b) (pr_world P)) = Inr (Fin W)"
    "dec_val W = dec_val t"
    using last_poll_time_get_written [OF f] by fastforce
  have "dec_val (last (pr_starts P)) < dec_val (s_time_created sub)" if "sub \<in> set (cycle_subs b (pr_world P))" for sub
  proof -
    have "dec_val W < dec_val (s_time_created sub)"
      using cycle_subs_mem [OF wf that] W(1) by (auto simp: flt_gt_def)
    then show ?thesis using t W(2) by simp
  qed
  then have "\<forall>sub\<in>set (cycle_subs b (pr_world P)). dec_val (last (pr_starts P)) < dec_val (s_time_created sub)"
    by blast
  then show ?thesis using run_fire(1) by (simp add: list_all_iff)
qed auto

text \<open>C19: a post stamped by Reddit later than the local time the bot reads when the listing request returns (Reddit's clock ahead of the local one), and newer than the watermark, is dispatched by a successful cycle and is still newer than the watermark that cycle writes, so the next cycle over the same listing dispatches it again: at most once depends on listed posts being no newer than the local clock.\<close>

theorem cycle_skew_redelivers:
  assumes "callback_handler b s w = (Inr (), s', w')"
    and "fst (subscribed_subreddits_formatted (b_subreddits_path b) w) = Inr q" and "listing w q = Inr ys"
    and "p \<in> set (take MAX_POSTS ys)" and "fst (last_poll_time_get (b_last_poll_time_path b) w) = Inr W"
    and "flt_gt (p_created p) W" and "dec_val (request_clock w) < dec_val (p_created p)"
  shows "to_submission p \<in> set (cycle_subs b w) \<and>
    (\<exists>W'. fst (last_poll_time_get (b_last_poll_time_path b) w') = Inr W' \<and> flt_gt (p_created p) W')"
proof
  show "to_submission p \<in> set (cycle_subs b w)"
    using cycle_subs_eq [OF assms(1,2,3,5)] assms(4,6) by (auto simp: new_submissions_def)
  obtain W' where "fst (last_poll_time_get (b_last_poll_time_path b) w') = Inr (Fin W')"
    "dec_val W' = dec_val (request_clock w)"
    using cycle_watermark [OF assms(1)] by blast
  then show "\<exists>W'. fst (last_poll_time_get (b_last_poll_time_path b) w') = Inr W' \<and> flt_gt (p_created p) W'"
    using assms(7) by (auto simp: flt_gt_def)
qed

end
