(* ===== verification/Spec2Isabelle.thy ===== *)
theory Spec2Isabelle
  imports Boundary
begin

text \<open>
  \<^bold>\<open>A verification model of news-bot (CUCTF/news-bot).\<close>

  The program (src/bot.py, src/reddit.py, src/slack.py) polls Reddit every
  \<open>POLL_INTERVAL\<close> = 60 seconds for the newest submissions of the subscribed
  subreddits, keeps those created after the last poll time (the watermark, a
  float in the file \<open>conf/last_poll_time\<close>), advances the watermark to the
  current time and posts one Slack message per kept submission. A
  \<open>sched.scheduler\<close> drives the cycles: \<open>main\<close> enters the first event,
  \<open>callback_handler\<close> re-enters the next one and runs the cycle.

  \<^bold>\<open>Theories and correspondence with the code.\<close>
  \<^item> \<open>Prelude\<close>: Python string helpers (\<open>str.strip\<close>, text-mode line iteration
    with universal newlines, \<open>str.join\<close>, \<open>str(int)\<close>), the exceptions
    (\<open>py_exc\<close>) and the observable events of a run (\<open>event\<close>: log records,
    stdout lines, Reddit listing calls, Slack \<open>chat.postMessage\<close> calls, file
    writes).
  \<^item> \<open>Timestamp\<close>: timestamps as exact decimals \<open>Dec m e\<close> (value
    \<open>m/10^e\<close>), \<open>str_float\<close> (\<open>str(x)\<close> in positional notation), and the
    Python floats the watermark file can hold (\<open>pyfloat\<close>: finite, \<open>inf\<close>,
    \<open>-inf\<close>, NaN) with \<open>parse_float\<close>, \<open>float(s)\<close> by Python's whole grammar
    (sign, digit parts with underscores, point, exponent, \<open>inf\<close>,
    \<open>infinity\<close>, \<open>nan\<close> in any case), and \<open>flt_gt\<close>, the IEEE comparison
    \<open>post.created > time_since\<close> of bot.py line 84.
  \<^item> \<open>World\<close>: the state the bot acts on (files, clock, the latency of the
    Reddit request, the Reddit listing, the Slack API's answers, the local UTC
    offset, the trace) and the sequencing of
    statements with exceptions (\<open>ebind\<close>); an operation is
    \<open>world \<Rightarrow> (py_exc + 'a) \<times> world\<close>.
  \<^item> \<open>Store\<close>: bot.py lines 48--73, the \<open>last_poll_time\<close> getter and setter
    (\<open>last_poll_time_get\<close>, \<open>last_poll_time_set\<close>) and the subscription file
    (\<open>subscribed_subreddits\<close>, \<open>subscribed_subreddits_formatted\<close>).
  \<^item> \<open>Reddit\<close>: reddit.py, \<open>RedditBot.log\<close> and \<open>fetch_posts\<close>
    (\<open>reddit_log\<close>, \<open>fetch_loop\<close>, \<open>fetch_posts\<close>).
  \<^item> \<open>Slack\<close>: slack.py, \<open>SlackBot.log\<close> and \<open>post_message\<close>.
  \<^item> \<open>DateTime\<close>: \<open>datetime.fromtimestamp(t).strftime('%H:%M:%S %m/%d/%Y')\<close>
    of \<open>post_submission_to_slack\<close> (\<open>message_time\<close>).
  \<^item> \<open>Sched\<close>: the event queue of \<open>sched.scheduler\<close> and \<open>enter\<close>, with its
    contract (\<open>sched_wf\<close>, the multiset of pending events, least key at the head).
  \<^item> \<open>Bot\<close>: bot.py lines 20--117: constants, \<open>Submission\<close>, \<open>Bot\<close>,
    \<open>fetch_new_reddit_submissions\<close>, \<open>post_submission_to_slack\<close>, the
    dispatch loop (\<open>post_all\<close>) and \<open>callback_handler\<close>.
  \<^item> \<open>Process\<close>: bot.py \<open>main\<close> (lines 120--125) and the loop of
    \<open>s.run()\<close> as the inductive step relation \<open>proc_step\<close>: the queue empty
    (return), the head in the future (sleep until it is due), the head due (pop
    it and run \<open>callback_handler\<close>; an exception ends the process), and steps of
    the environment (\<open>env_step\<close>: the clock moves forward, listings and other
    files change, the watermark file does not). The state \<open>proc\<close> holds the
    scheduler, the world, the status and two history fields: the clock at the
    start of each cycle and the submissions each cycle handed to the dispatch
    loop. \<open>proc_reach\<close> is reachability from \<open>main_init\<close>.
  \<^item> \<open>Logging\<close>: bot.py lines 11--18, the root logger and its stdout handler
    at INFO and the record format (\<open>handler_line\<close>), and the analysis of the
    levels of the records every operation logs.
  \<^item> \<open>Boundary\<close>: boundary inputs and error paths of one poll cycle
    (bot.py lines 48--117): a watermark file that cannot be read or written,
    an empty subscription file, a listing longer than \<open>MAX_POSTS\<close> (within
    one cycle and across the cycles of a run), and
    the subscription query read back by splitting it at \<open>+\<close> (the reference
    \<open>py_split\<close> of Prelude, Python's \<open>str.split\<close>).
  \<^item> This theory: example data for the witnesses and the witnesses.

  \<^bold>\<open>What the lemmas show.\<close> Store: the watermark written is read back
  (through the \<open>str\<close>/\<open>float\<close> round trip of Timestamp); a missing watermark
  file raises \<open>FileNotFoundError\<close> (the spec asks for initialisation); a write
  interrupted on a full device loses the previous watermark (the spec asks for
  an atomic replace); the subscription file is read line by line, blank lines
  included (the spec says they are ignored). Bot: a successful fetch returns
  exactly the fetched posts strictly newer than the watermark read after the
  request (all of them for \<open>-inf\<close>, none for \<open>inf\<close> or NaN) and advances
  the watermark to the time read when the request returned; a Reddit failure
  changes no file; an empty listing raises \<open>IndexError\<close> after the watermark
  was advanced; the dispatch loop posts every message in order when no call
  fails in transport, and a transport failure aborts it; in a cycle that posts,
  the watermark is written before the first post. Slack: a rejected message is
  logged at INFO and the call returns normally. Process (rule induction over
  \<open>proc_step\<close> with the invariants \<open>timer_inv\<close> and \<open>sent_inv\<close>): a running
  process has exactly one pending event, due \<open>POLL_INTERVAL\<close> after the last
  cycle started; cycles start at least \<open>POLL_INTERVAL\<close> apart; \<open>s.run()\<close>
  never returns; the next cycle is always reached; no submission is handed to
  the dispatch loop twice when listings hold distinct posts created no later
  than the local clock (\<open>listing_wf\<close>); the watermark file always holds a
  time the last cycle read, between its start and the current clock; without
  a watermark file the first cycle ends the process; a cycle that returns
  normally has posted exactly the messages of the posts strictly newer than
  the watermark it read, written the time read after the Reddit request and
  re-armed the timer from the time read at its start; the Slack posts of a
  cycle are the messages of a prefix of its new submissions, all of them when
  it returns normally, and under \<open>listing_wf\<close> the posts of a whole run
  are messages of distinct dispatched submissions; a submission whose time
  \<open>datetime\<close> cannot convert makes its cycle raise before any post. Library
  lemmas that the claims build on: \<open>enter\<close> refines multiset insertion and
  keeps the least event at the head (Sched); the streaming newline decoder
  equals the two-pass reference replacement (Prelude); \<open>float(str(t))\<close> has
  the value of \<open>t\<close> (Timestamp). Reddit: \<open>fetch_posts\<close> returns the first \<open>num_posts\<close> posts
  and logs one INFO record per post. DateTime: a message time is
  \<open>HH:MM:SS mm/dd/Y\<close> with every field in range and reading back as its
  value (the month and day bounds of the era algorithm are proved by splitting
  the day of the era into centuries, four-year blocks and years). Logging:
  every record of a run is at INFO and is printed by the handler with level
  name INFO. Boundary: a cycle whose watermark file is missing, unparsable or
  read-only raises, changes no file and posts nothing; an empty subscription
  file still requests the listing of the empty query; a post after the first
  \<open>MAX_POSTS\<close> entries of a listing is not delivered and the new watermark
  already covers it, so it is lost for good (and in a run, every cycle after
  the first dispatches only posts created after the previous cycle started);
  the query is the subscriptions joined by \<open>+\<close> and splits back into them;
  a post stamped later than the local time read after the request is
  dispatched and stays newer than the new watermark, so it is delivered again
  (\<open>cycle_skew_redelivers\<close>).

  \<^bold>\<open>Bounds and abstractions.\<close> Finite floats are exact decimals: binary
  rounding of doubles is not modelled, nor the overflow of a huge literal to
  \<open>inf\<close> or the underflow of a tiny one to zero in \<open>float()\<close> (they change
  only the printed \<open>time_since\<close> of such a file and the comparison with a
  post created at exactly 0), and the sign of a zero is not kept. \<open>str\<close> is
  positional, which is Python's output for \<open>1e-4 \<le> |x| < 1e16\<close>, the range
  of the \<open>time.time()\<close> values the bot writes. Characters are
  bytes; \<open>str.isspace\<close> is its ASCII part. A Reddit listing and a Slack answer
  are functions in the world chosen by the environment; \<open>praw\<close>'s pagination
  is not modelled (a limit of 10 needs one request). The local time zone is a
  fixed offset. Time passes inside a cycle: the Reddit request advances the
  clock by the world's \<open>reddit_latency\<close> (microseconds, chosen by the
  environment), so \<open>time.time()\<close> at bot.py line 80 reads a later time than
  \<open>s.enter\<close> at line 106; all the time between those two reads is attributed to
  the request, and the time the Slack calls take is covered by the
  environment's clock steps after the cycle, since nothing in the cycle reads
  the clock after line 80.

  The environment assumptions of the process are explicit: the clock never
  goes back and only the bot writes the watermark file; \<open>time.sleep\<close> may
  oversleep (the clock after a sleep is any time at or after the event). The
  record time \<open>asctime\<close> of a log line is a parameter.

  \<^bold>\<open>Not modelled.\<close> The library objects \<open>praw.Reddit\<close> (its
  \<open>ListingGenerator\<close> paging) and \<open>slack_sdk.WebClient\<close> and the wire
  protocols of both services: the model sees them only through \<open>listing\<close>
  and \<open>slack_api\<close> of the world, which the environment chooses. The
  credentials are modelled as the environment lookups of the sources
  (\<open>CLIENT_ID\<close>, \<open>TOKEN\<close>, \<open>bot_init\<close>); what the services do with them is
  not. The internals of \<open>logging\<close> beyond its thresholds and format, and the
  import lines and the \<open>__main__\<close> guard, are not modelled.
\<close>

definition demo_posts :: "post list" where
  "demo_posts =
     [\<lparr>p_title = ''a'', p_created = Dec 1100 0, p_permalink = ''/r/news/a'', p_subreddit = ''news''\<rparr>,
      \<lparr>p_title = ''b'', p_created = Dec 1050 0, p_permalink = ''/r/news/b'', p_subreddit = ''news''\<rparr>,
      \<lparr>p_title = ''c'', p_created = Dec 900 0, p_permalink = ''/r/news/c'', p_subreddit = ''news''\<rparr>,
      \<lparr>p_title = ''d'', p_created = Dec 1000 0, p_permalink = ''/r/news/d'', p_subreddit = ''news''\<rparr>]"

definition demo_world :: world where
  "demo_world =
     \<lparr>fs = [''conf/subscribed_subreddits'' \<mapsto> ''news\<newline>'', ''conf/last_poll_time'' \<mapsto> ''1000.0''],
      ro_paths = {}, full_paths = {}, clock = Dec 1200 0, reddit_latency = 250000,
      listing = (\<lambda>q. Inr demo_posts), slack_api = (\<lambda>m. Slack_ok ''ok''), tz_offset = 0, trace = []\<rparr>"

definition demo_bot :: bot where
  "demo_bot =
     \<lparr>b_last_poll_time_path = LAST_POLL_PATH, b_subreddits_path = SUBSCRIBED_SUBREDDITS_PATH,
      b_slackbot = \<lparr>sb_token = [], sb_channel = ''#news'', sb_logger = True\<rparr>,
      b_redditbot = \<lparr>rb_client_id = [], rb_client_secret = [], rb_user_agent = ''redditbot by u/cucyber'',
                      rb_logger = True\<rparr>\<rparr>"

definition demo_world_down :: world where
  "demo_world_down = demo_world\<lparr>listing := (\<lambda>q. Inl PrawcoreError)\<rparr>"

definition demo_world_empty :: world where
  "demo_world_empty = demo_world\<lparr>listing := (\<lambda>q. Inr [])\<rparr>"

definition demo_world_nofile :: world where
  "demo_world_nofile = demo_world\<lparr>fs := (fs demo_world)(LAST_POLL_PATH := None)\<rparr>"

definition demo_world_full :: world where
  "demo_world_full = demo_world\<lparr>full_paths := {LAST_POLL_PATH}\<rparr>"

definition demo_subs_world :: world where
  "demo_subs_world = demo_world\<lparr>fs := (fs demo_world)
     (SUBSCRIBED_SUBREDDITS_PATH \<mapsto> subs_file [''news'', [], ''python''])\<rparr>"

definition demo_world_reject :: world where
  "demo_world_reject = demo_world\<lparr>slack_api := (\<lambda>m. Slack_api_error ''channel_not_found'')\<rparr>"

definition demo_world_offline :: world where
  "demo_world_offline = demo_world\<lparr>slack_api := (\<lambda>m. Slack_transport_error)\<rparr>"

definition demo_subs :: "submission list" where
  "demo_subs = new_submissions (Fin (Dec 1000 0)) demo_posts"

text \<open>A post stamped by Reddit ahead of the local clock (created 1300, local time 1260).\<close>

definition demo_skew_post :: post where
  "demo_skew_post = \<lparr>p_title = ''z'', p_created = Dec 1300 0, p_permalink = ''/r/news/z'', p_subreddit = ''news''\<rparr>"

definition demo_world_skew :: world where
  "demo_world_skew = demo_world\<lparr>clock := Dec 1260 0, listing := (\<lambda>q. Inr [demo_skew_post])\<rparr>"

definition demo_world_quiet :: world where
  "demo_world_quiet = demo_world\<lparr>fs := (fs demo_world)(LAST_POLL_PATH \<mapsto> ''1200.0'')\<rparr>"

text \<open>A post dated 10000-01-01 00:00:00 UTC, past the last year datetime can represent.\<close>

definition demo_far_post :: post where
  "demo_far_post = \<lparr>p_title = ''y10k'', p_created = Dec 253402300800 0, p_permalink = ''/r/news/y'', p_subreddit = ''news''\<rparr>"

definition demo_world_far :: world where
  "demo_world_far = demo_world\<lparr>listing := (\<lambda>q. Inr [demo_far_post])\<rparr>"

text \<open>A watermark file the process may read but not open for writing.\<close>

definition demo_world_ro :: world where
  "demo_world_ro = demo_world\<lparr>ro_paths := {LAST_POLL_PATH}\<rparr>"

definition demo_world_nosubs :: world where
  "demo_world_nosubs = demo_world\<lparr>fs := (fs demo_world)(SUBSCRIBED_SUBREDDITS_PATH \<mapsto> [])\<rparr>"

text \<open>A listing of eleven posts: ten at or before the watermark 1000, then one after it.\<close>

definition demo_late_post :: post where
  "demo_late_post = \<lparr>p_title = ''late'', p_created = Dec 1100 0, p_permalink = ''/r/news/late'', p_subreddit = ''news''\<rparr>"

definition demo_overflow_posts :: "post list" where
  "demo_overflow_posts = map (\<lambda>k. \<lparr>p_title = ''old'', p_created = Dec (991 + int k) 0,
     p_permalink = ''/r/news/old'', p_subreddit = ''news''\<rparr>) [0..<10] @ [demo_late_post]"

definition demo_world_overflow :: world where
  "demo_world_overflow = demo_world\<lparr>listing := (\<lambda>q. Inr demo_overflow_posts)\<rparr>"

text \<open>The second wake-up and second cycle of a run started in the quiet world.\<close>

definition demo_second_wake :: proc where
  "demo_second_wake = (let P = first_cycle demo_bot demo_world_quiet in
     P\<lparr>pr_world := (pr_world P)\<lparr>clock := Dec 1320 0\<rparr>\<rparr>)"

definition demo_second_cycle :: proc where
  "demo_second_cycle = (let P = demo_second_wake;
       c = callback_handler demo_bot ((pr_sched P)\<lparr>queue := []\<rparr>) (pr_world P)
     in \<lparr>pr_sched = fst (snd c), pr_world = snd (snd c), pr_status = status_of (fst c),
         pr_starts = pr_starts P @ [clock (pr_world P)], pr_sent = pr_sent P @ cycle_subs demo_bot (pr_world P)\<rparr>)"

lemmas demo_eval = demo_world_def demo_bot_def demo_posts_def LAST_POLL_PATH_def SUBSCRIBED_SUBREDDITS_PATH_def
  MAX_POSTS_def subscribed_subreddits_formatted_def subscribed_subreddits_def open_read_def
  fetch_posts_def last_poll_time_get_def last_poll_time_set_def new_submissions_def dec_gt_def dec_val_def
  to_submission_def translate_newlines_def py_lines_def py_strip_def is_py_space_def parse_float_def
  split_sign_def is_digit_def digits_val_def digit_val_def Let_def reddit_log_def
  parse_number_def digitpart_def parse_exponent_def sci_dec_def ascii_lower_def flt_gt_def str_pyfloat_def
  request_clock_def after_request_def dec_add_def
  str_float_def norm_dec.simps show_nat.simps digit_char_def frac_digits_def py_index0_def
  demo_world_down_def demo_world_empty_def demo_world_nofile_def demo_world_full_def demo_subs_world_def
  demo_world_reject_def subs_file_def clean_name_def demo_world_offline_def demo_subs_def demo_skew_post_def demo_world_skew_def demo_world_quiet_def demo_far_post_def demo_world_far_def
  demo_world_ro_def demo_world_nosubs_def demo_late_post_def demo_overflow_posts_def demo_world_overflow_def

section \<open>Witnesses\<close>

theorem fetch_new_reddit_submissions_result_witness:
  "fetch_new_reddit_submissions demo_bot demo_world =
     (Inr (new_submissions (Fin (Dec 1000 0)) demo_posts),
      snd (fetch_new_reddit_submissions demo_bot demo_world)) \<and>
   map s_title (new_submissions (Fin (Dec 1000 0)) demo_posts) = [''a'', ''b''] \<and>
   fs (snd (fetch_new_reddit_submissions demo_bot demo_world)) LAST_POLL_PATH = Some ''1200.25''"
proof -
  have r: "fst (fetch_new_reddit_submissions demo_bot demo_world) =
      Inr (new_submissions (Fin (Dec 1000 0)) demo_posts)"
    by (simp add: fetch_new_reddit_submissions_def ebind_def demo_eval)
  then have h: "fetch_new_reddit_submissions demo_bot demo_world =
      (Inr (new_submissions (Fin (Dec 1000 0)) demo_posts), snd (fetch_new_reddit_submissions demo_bot demo_world))"
    by (metis prod.collapse)
  have "fs (snd (fetch_new_reddit_submissions demo_bot demo_world)) =
      (fs demo_world)(LAST_POLL_PATH \<mapsto> str_float (request_clock demo_world))"
    using fetch_new_reddit_submissions_result [OF h] by (auto simp: demo_bot_def)
  then show ?thesis using h by (simp add: demo_eval)
qed


theorem fetch_new_source_error_witness:
  "fst (subscribed_subreddits_formatted (b_subreddits_path demo_bot) demo_world_down) = Inr ''news'' \<and>
   listing demo_world_down ''news'' = Inl PrawcoreError \<and>
   (\<exists>w'. fetch_new_reddit_submissions demo_bot demo_world_down = (Inl PrawcoreError, w') \<and>
         fs w' = fs demo_world_down)"
proof -
  have h1: "fst (subscribed_subreddits_formatted (b_subreddits_path demo_bot) demo_world_down) = Inr ''news''"
    by (simp add: demo_eval)
  have h2: "listing demo_world_down ''news'' = Inl PrawcoreError"
    by (simp add: demo_eval)
  show ?thesis using h1 h2 fetch_new_source_error [OF h1 h2] by blast
qed

theorem fetch_new_empty_listing_witness:
  "fst (subscribed_subreddits_formatted (b_subreddits_path demo_bot) demo_world_empty) = Inr ''news'' \<and>
   listing demo_world_empty ''news'' = Inr [] \<and>
   fst (last_poll_time_get (b_last_poll_time_path demo_bot) demo_world_empty) = Inr (Fin (Dec 10000 1)) \<and>
   b_last_poll_time_path demo_bot \<notin> ro_paths demo_world_empty \<and>
   b_last_poll_time_path demo_bot \<notin> full_paths demo_world_empty \<and>
   (\<exists>w'. fetch_new_reddit_submissions demo_bot demo_world_empty = (Inl IndexError, w') \<and>
      fs w' = (fs demo_world_empty)(b_last_poll_time_path demo_bot \<mapsto> str_float (request_clock demo_world_empty)))"
proof -
  have h1: "fst (subscribed_subreddits_formatted (b_subreddits_path demo_bot) demo_world_empty) = Inr ''news''"
    by (simp add: demo_eval)
  have h2: "listing demo_world_empty ''news'' = Inr []" by (simp add: demo_eval)
  have h3: "fst (last_poll_time_get (b_last_poll_time_path demo_bot) demo_world_empty) = Inr (Fin (Dec 10000 1))"
    by (simp add: demo_eval)
  have h4: "b_last_poll_time_path demo_bot \<notin> ro_paths demo_world_empty"
    "b_last_poll_time_path demo_bot \<notin> full_paths demo_world_empty"
    by (simp_all add: demo_eval)
  show ?thesis using h1 h2 h3 h4 fetch_new_empty_listing [OF h1 h2 h3 h4] by blast
qed

theorem last_poll_time_roundtrip_witness:
  "last_poll_time_set LAST_POLL_PATH (Dec 12005 1) demo_world =
     (Inr (), snd (last_poll_time_set LAST_POLL_PATH (Dec 12005 1) demo_world)) \<and>
   (\<exists>t'. last_poll_time_get LAST_POLL_PATH (snd (last_poll_time_set LAST_POLL_PATH (Dec 12005 1) demo_world)) =
      (Inr (Fin t'), snd (last_poll_time_set LAST_POLL_PATH (Dec 12005 1) demo_world)) \<and>
      dec_val t' = dec_val (Dec 12005 1))"
proof -
  have h: "last_poll_time_set LAST_POLL_PATH (Dec 12005 1) demo_world =
     (Inr (), snd (last_poll_time_set LAST_POLL_PATH (Dec 12005 1) demo_world))"
    by (simp add: demo_eval)
  show ?thesis using h last_poll_time_roundtrip [OF h] by blast
qed

theorem last_poll_time_missing_witness:
  "fs demo_world_nofile LAST_POLL_PATH = None \<and>
   last_poll_time_get LAST_POLL_PATH demo_world_nofile = (Inl (FileNotFoundError LAST_POLL_PATH), demo_world_nofile)"
proof -
  have h: "fs demo_world_nofile LAST_POLL_PATH = None" by (simp add: demo_world_nofile_def)
  show ?thesis using h last_poll_time_missing [OF h] by blast
qed

theorem last_poll_time_set_not_atomic_witness:
  "LAST_POLL_PATH \<notin> ro_paths demo_world_full \<and> LAST_POLL_PATH \<in> full_paths demo_world_full \<and>
   fs demo_world_full LAST_POLL_PATH = Some ''1000.0'' \<and>
   (\<exists>w'. last_poll_time_set LAST_POLL_PATH (Dec 1200 0) demo_world_full = (Inl (OSError LAST_POLL_PATH), w') \<and>
      last_poll_time_get LAST_POLL_PATH w' = (Inl (ValueError []), w'))"
proof -
  have h1: "LAST_POLL_PATH \<notin> ro_paths demo_world_full" and h2: "LAST_POLL_PATH \<in> full_paths demo_world_full"
    by (simp_all add: demo_world_full_def demo_world_def)
  have "fs demo_world_full LAST_POLL_PATH = Some ''1000.0''" by (simp add: demo_eval)
  then show ?thesis using h1 h2 last_poll_time_set_not_atomic [OF h1 h2] by blast
qed

theorem subscribed_subreddits_lines_witness:
  "fs demo_subs_world SUBSCRIBED_SUBREDDITS_PATH = Some (subs_file [''news'', [], ''python'']) \<and>
   list_all clean_name [''news'', [], ''python''] \<and>
   subscribed_subreddits SUBSCRIBED_SUBREDDITS_PATH demo_subs_world = (Inr [''news'', [], ''python''], demo_subs_world) \<and>
   py_join ''+'' [''news'', [], ''python''] = ''news++python''"
proof -
  have h1: "fs demo_subs_world SUBSCRIBED_SUBREDDITS_PATH = Some (subs_file [''news'', [], ''python''])"
    by (simp add: demo_subs_world_def)
  have h2: "\<forall>s\<in>set [''news'', [], ''python'']. clean_name s"
    by (simp add: clean_name_def is_py_space_def)
  show ?thesis using h1 h2 subscribed_subreddits_lines [OF h1 h2] by (simp add: list_all_iff)
qed

theorem post_message_api_error_witness:
  "slack_api demo_world_reject ''hello'' = Slack_api_error ''channel_not_found'' \<and>
   sb_logger (b_slackbot demo_bot) \<and>
   post_message (b_slackbot demo_bot) ''hello'' demo_world_reject =
     (Inr (), demo_world_reject\<lparr>trace := [Log INFO (''Posting message: '' @ ''hello''),
        Slack_post ''#news'' ''hello'', Log INFO (''Error posting message: '' @ ''channel_not_found'')]\<rparr>)"
proof -
  have h1: "slack_api demo_world_reject ''hello'' = Slack_api_error ''channel_not_found''"
    by (simp add: demo_world_reject_def)
  have h2: "sb_logger (b_slackbot demo_bot)" by (simp add: demo_bot_def)
  have "trace demo_world_reject = []" "sb_channel (b_slackbot demo_bot) = ''#news''"
    by (simp_all add: demo_world_reject_def demo_world_def demo_bot_def)
  then show ?thesis using h1 h2 post_message_api_error [OF h1 h2] by simp
qed


theorem post_all_delivers_witness:
  "list_all (\<lambda>sub. \<exists>mt. message_time (tz_offset demo_world_reject) (s_time_created sub) = Inr mt) demo_subs \<and>
   list_all (\<lambda>sub. slack_api demo_world_reject (message_of (tz_offset demo_world_reject) sub) \<noteq> Slack_transport_error)
     demo_subs \<and>
   (\<exists>w'. post_all demo_bot demo_subs demo_world_reject = (Inr (), w') \<and>
      slack_texts (trace w') =
        [''\"a\"\<newline>Posted in r/news at 00:18:20 01/01/1970\<newline>www.reddit.com/r/news/a'',
         ''\"b\"\<newline>Posted in r/news at 00:17:30 01/01/1970\<newline>www.reddit.com/r/news/b''])"
proof -
  have subs: "demo_subs = [to_submission (hd demo_posts), to_submission (demo_posts ! 1)]"
    by (simp add: demo_eval)
  have mt: "message_time 0 (Dec 1100 0) = Inr ''00:18:20 01/01/1970''"
    "message_time 0 (Dec 1050 0) = Inr ''00:17:30 01/01/1970''"
    by (simp_all add: datetime_eval)
  have h1: "\<forall>sub\<in>set demo_subs. \<exists>mt. message_time (tz_offset demo_world_reject) (s_time_created sub) = Inr mt"
    using mt by (simp add: subs demo_eval)
  have h2: "\<forall>sub\<in>set demo_subs. slack_api demo_world_reject (message_of (tz_offset demo_world_reject) sub) \<noteq>
      Slack_transport_error"
    by (simp add: demo_world_reject_def)
  have msgs: "map (message_of (tz_offset demo_world_reject)) demo_subs =
      [''\"a\"\<newline>Posted in r/news at 00:18:20 01/01/1970\<newline>www.reddit.com/r/news/a'',
       ''\"b\"\<newline>Posted in r/news at 00:17:30 01/01/1970\<newline>www.reddit.com/r/news/b'']"
    using mt by (simp add: subs demo_eval message_of_def format_message_def)
  have "trace demo_world_reject = []" by (simp add: demo_eval)
  then obtain w' where "post_all demo_bot demo_subs demo_world_reject = (Inr (), w')"
    "slack_texts (trace w') = map (message_of (tz_offset demo_world_reject)) demo_subs"
    using post_all_delivers [OF h1 h2, of demo_bot] by auto
  with h1 h2 msgs show ?thesis by (auto simp: list_all_iff)
qed

theorem post_all_transport_error_witness:
  "message_time (tz_offset demo_world_offline) (s_time_created (hd demo_subs)) = Inr ''00:18:20 01/01/1970'' \<and>
   slack_api demo_world_offline (format_message (hd demo_subs) ''00:18:20 01/01/1970'') = Slack_transport_error \<and>
   (\<exists>w'. post_all demo_bot (hd demo_subs # tl demo_subs) demo_world_offline = (Inl ConnectionError, w') \<and>
      slack_texts (trace w') = [format_message (hd demo_subs) ''00:18:20 01/01/1970''])"
proof -
  have h1: "message_time (tz_offset demo_world_offline) (s_time_created (hd demo_subs)) = Inr ''00:18:20 01/01/1970''"
    by (simp add: demo_eval datetime_eval)
  have h2: "slack_api demo_world_offline (format_message (hd demo_subs) ''00:18:20 01/01/1970'') = Slack_transport_error"
    by (simp add: demo_world_offline_def)
  have "trace demo_world_offline = []" by (simp add: demo_eval)
  then show ?thesis using post_all_transport_error [OF h1 h2] h1 h2 by simp
qed

theorem callback_handler_write_before_post_witness:
  "callback_handler demo_bot sched_init demo_world =
     (fst (callback_handler demo_bot sched_init demo_world),
      fst (snd (callback_handler demo_bot sched_init demo_world)),
      snd (snd (callback_handler demo_bot sched_init demo_world))) \<and>
   slack_texts (trace (snd (snd (callback_handler demo_bot sched_init demo_world)))) \<noteq> slack_texts (trace demo_world) \<and>
   (\<exists>pre post. trace (snd (snd (callback_handler demo_bot sched_init demo_world))) =
      trace demo_world @ pre @ Write_file LAST_POLL_PATH ''1200.25'' # post \<and> slack_texts pre = [])"
proof -
  let ?c = "callback_handler demo_bot sched_init demo_world"
  let ?w1 = "emit (Stdout ''handler called'') demo_world"
  have "fst (fetch_new_reddit_submissions demo_bot ?w1) = Inr demo_subs"
    by (simp add: fetch_new_reddit_submissions_def ebind_def demo_eval)
  then obtain w2 where f: "fetch_new_reddit_submissions demo_bot ?w1 = (Inr demo_subs, w2)"
    by (metis prod.collapse)
  have "tz_offset w2 = 0" using fetch_new_Inr_trace [OF f] by (auto simp: demo_eval)
  then have mt: "message_time (tz_offset w2) (s_time_created (hd demo_subs)) = Inr ''00:18:20 01/01/1970''"
    by (simp add: demo_eval datetime_eval)
  have ne: "demo_subs \<noteq> []" by (simp add: demo_eval)
  have "snd (snd ?c) = snd (post_all demo_bot demo_subs w2)"
    using f ne by (simp add: callback_handler_def Let_def split: prod.split)
  also have "\<dots> = snd (post_all demo_bot (hd demo_subs # tl demo_subs) w2)" using ne by simp
  finally obtain rest where "slack_texts (trace (snd (snd ?c))) =
      slack_texts (trace w2) @ format_message (hd demo_subs) ''00:18:20 01/01/1970'' # rest"
    using post_all_attempts_first [OF mt] by metis
  moreover have "slack_texts (trace demo_world) = []" by (simp add: demo_eval)
  ultimately have h2: "slack_texts (trace (snd (snd ?c))) \<noteq> slack_texts (trace demo_world)" by simp
  have h1: "?c = (fst ?c, fst (snd ?c), snd (snd ?c))" by simp
  have "b_last_poll_time_path demo_bot = LAST_POLL_PATH" "str_float (request_clock demo_world) = ''1200.25''"
    by (simp_all add: demo_eval)
  then show ?thesis using callback_handler_write_before_post [OF h1 h2] h2 by simp
qed

theorem proc_single_timer_witness:
  "proc_reach demo_bot demo_world (main_init demo_bot demo_world) \<and>
   pr_status (main_init demo_bot demo_world) = Running \<and>
   queue (pr_sched (main_init demo_bot demo_world)) =
     [\<lparr>ev_time = dec_add (Dec 1200 0) POLL_INTERVAL, ev_priority = 1, ev_seq = 0\<rparr>] \<and>
   (\<exists>e. queue (pr_sched (main_init demo_bot demo_world)) = [e])"
proof -
  have r: "proc_reach demo_bot demo_world (main_init demo_bot demo_world)" by (simp add: proc_reach_def)
  have s: "pr_status (main_init demo_bot demo_world) = Running" by (simp add: main_init_def)
  show ?thesis using proc_single_timer [OF r s] r s
    by (simp add: main_init_def sched_enter_def sched_init_def demo_eval)
qed

theorem proc_cycles_spaced_witness:
  "proc_reach demo_bot demo_world (first_cycle demo_bot demo_world) \<and>
   pr_starts (first_cycle demo_bot demo_world) = [dec_add (Dec 1200 0) POLL_INTERVAL] \<and>
   successively (\<lambda>t t'. dec_val t + dec_val POLL_INTERVAL \<le> dec_val t') (pr_starts (first_cycle demo_bot demo_world))"
proof -
  have r: "proc_reach demo_bot demo_world (first_cycle demo_bot demo_world)" by (rule proc_reach_first_cycle)
  have "pr_starts (first_cycle demo_bot demo_world) = [dec_add (Dec 1200 0) POLL_INTERVAL]"
    by (simp add: first_cycle_def Let_def demo_world_def)
  then show ?thesis using proc_cycles_spaced [OF r] r by simp
qed

theorem proc_never_returns_witness:
  "proc_reach demo_bot demo_world (first_cycle demo_bot demo_world) \<and>
   pr_status (first_cycle demo_bot demo_world) \<noteq> Returned"
  using proc_never_returns [OF proc_reach_first_cycle] proc_reach_first_cycle by simp

theorem proc_next_cycle_witness:
  "proc_reach demo_bot demo_world (main_init demo_bot demo_world) \<and>
   pr_status (main_init demo_bot demo_world) = Running \<and>
   (\<exists>P'. (proc_step demo_bot)\<^sup>*\<^sup>* (main_init demo_bot demo_world) P' \<and> length (pr_starts P') = 1)"
proof -
  have r: "proc_reach demo_bot demo_world (main_init demo_bot demo_world)" by (simp add: proc_reach_def)
  have s: "pr_status (main_init demo_bot demo_world) = Running" by (simp add: main_init_def)
  show ?thesis using proc_next_cycle [OF r s] r s by (simp add: main_init_def)
qed

theorem proc_at_most_once_witness:
  "proc_reach demo_bot demo_world (first_cycle demo_bot demo_world) \<and> listing_wf demo_world \<and>
   distinct (pr_sent (first_cycle demo_bot demo_world))"
proof -
  have "listing_wf demo_world"
    by (simp add: listing_wf_def demo_eval dec_val_def)
  then show ?thesis using proc_at_most_once [OF proc_reach_first_cycle] proc_reach_first_cycle by simp
qed

theorem proc_fresh_install_exits_witness:
  "proc_reach demo_bot demo_world_nofile (first_cycle demo_bot demo_world_nofile) \<and>
   fs demo_world_nofile (b_last_poll_time_path demo_bot) = None \<and>
   slack_texts (trace (pr_world (first_cycle demo_bot demo_world_nofile))) = [] \<and>
   (\<exists>e. pr_status (first_cycle demo_bot demo_world_nofile) = Exited e)"
proof -
  have n: "fs demo_world_nofile (b_last_poll_time_path demo_bot) = None" by (simp add: demo_eval)
  have "pr_starts (first_cycle demo_bot demo_world_nofile) \<noteq> []" by (simp add: first_cycle_def Let_def)
  moreover have "slack_texts (trace demo_world_nofile) = []" by (simp add: demo_eval)
  ultimately show ?thesis using proc_fresh_install_exits [OF proc_reach_first_cycle n] proc_reach_first_cycle n
    by simp
qed

theorem proc_log_lines_info_witness:
  "proc_reach demo_bot demo_world (first_cycle demo_bot demo_world) \<and>
   (\<exists>evs. trace (pr_world (first_cycle demo_bot demo_world)) = trace demo_world @ evs \<and>
      list_all (\<lambda>ev. case ev of Log l m \<Rightarrow> handler_line ''1970-01-01 00:21:00,000'' ev =
                 Some (''1970-01-01 00:21:00,000'' @ '' - root - INFO - '' @ m) | _ \<Rightarrow> True) evs)"
  using proc_log_lines_info [OF proc_reach_first_cycle, of demo_bot demo_world "''1970-01-01 00:21:00,000''"]
    proc_reach_first_cycle by blast

theorem message_time_clock_witness:
  "message_time 0 (Dec 1100 0) = Inr ''00:18:20 01/01/1970'' \<and>
   (\<exists>y mo d hh mm ss. local_time 0 (Dec 1100 0) = (y, mo, d, hh, mm, ss) \<and>
     0 \<le> hh \<and> hh < 24 \<and> 0 \<le> mm \<and> mm < 60 \<and> 0 \<le> ss \<and> ss < 60 \<and>
     take 9 ''00:18:20 01/01/1970'' = pad2 hh @ '':'' @ pad2 mm @ '':'' @ pad2 ss @ '' '' \<and>
     length (pad2 hh) = 2 \<and> length (pad2 mm) = 2 \<and> length (pad2 ss) = 2 \<and>
     int (digits_val (pad2 hh)) = hh \<and> int (digits_val (pad2 mm)) = mm \<and> int (digits_val (pad2 ss)) = ss)"
proof -
  have h: "message_time 0 (Dec 1100 0) = Inr ''00:18:20 01/01/1970''" by (simp add: datetime_eval)
  show ?thesis using message_time_clock [OF h] h by blast
qed

lemma demo_quiet_first_cycle_running: "pr_status (first_cycle demo_bot demo_world_quiet) = Running"
proof -
  let ?w1 = "demo_world_quiet\<lparr>clock := dec_add (clock demo_world_quiet) POLL_INTERVAL\<rparr>"
  have "fst (fetch_new_reddit_submissions demo_bot (py_print ''handler called'' ?w1)) = Inr []"
    by (simp add: fetch_new_reddit_submissions_def ebind_def demo_eval POLL_INTERVAL_def
        last_poll_time_set_def new_submissions_def dec_gt_def)
  then obtain w2 where "fetch_new_reddit_submissions demo_bot (py_print ''handler called'' ?w1) = (Inr [], w2)"
    by (metis prod.collapse)
  then have r: "fst (callback_handler demo_bot \<lparr>queue = [], next_seq = 1\<rparr> ?w1) = Inr ()"
    by (simp add: callback_handler_def Let_def)
  then show ?thesis by (simp add: first_cycle_def Let_def status_of_def)
qed

lemma demo_quiet_first_cycle_state:
  "clock (pr_world (first_cycle demo_bot demo_world_quiet)) = Dec 1260250000 6 \<and>
   queue (pr_sched (first_cycle demo_bot demo_world_quiet)) = [\<lparr>ev_time = Dec 1320 0, ev_priority = 1, ev_seq = 1\<rparr>] \<and>
   pr_starts (first_cycle demo_bot demo_world_quiet) = [Dec 1260 0]"
proof -
  let ?w1 = "demo_world_quiet\<lparr>clock := dec_add (clock demo_world_quiet) POLL_INTERVAL\<rparr>"
  let ?c = "callback_handler demo_bot \<lparr>queue = [], next_seq = 1\<rparr> ?w1"
  have "fst ?c = Inr ()" using demo_quiet_first_cycle_running by (simp add: first_cycle_def Let_def)
  then have h: "?c = (Inr (), fst (snd ?c), snd (snd ?c))" by (metis prod.collapse)
  have w1: "clock ?w1 = Dec 1260 0" by (simp add: demo_eval POLL_INTERVAL_def dec_add_def)
  have "clock (snd (snd ?c)) = request_clock ?w1" using callback_handler_world [OF h] by blast
  also have "\<dots> = Dec 1260250000 6" by (simp add: demo_eval POLL_INTERVAL_def)
  finally have "clock (snd (snd ?c)) = Dec 1260250000 6" .
  moreover have "queue (fst (snd ?c)) = [\<lparr>ev_time = Dec 1320 0, ev_priority = 1, ev_seq = 1\<rparr>]"
    using w1 by (simp add: callback_handler_sched sched_enter_def POLL_INTERVAL_def dec_add_def)
  ultimately show ?thesis using w1 by (simp add: first_cycle_def Let_def)
qed

theorem proc_watermark_file_witness:
  "proc_reach demo_bot demo_world_quiet (first_cycle demo_bot demo_world_quiet) \<and>
   pr_status (first_cycle demo_bot demo_world_quiet) = Running \<and>
   pr_starts (first_cycle demo_bot demo_world_quiet) \<noteq> [] \<and>
   (\<exists>t. fs (pr_world (first_cycle demo_bot demo_world_quiet)) LAST_POLL_PATH = Some (str_float t) \<and>
      1260 \<le> dec_val t \<and> dec_val t \<le> 1260 + 1 / 4)"
proof -
  have run: "pr_status (first_cycle demo_bot demo_world_quiet) = Running"
    by (rule demo_quiet_first_cycle_running)
  have st: "pr_starts (first_cycle demo_bot demo_world_quiet) = [Dec 1260 0]"
    and clk: "clock (pr_world (first_cycle demo_bot demo_world_quiet)) = Dec 1260250000 6"
    using demo_quiet_first_cycle_state by simp_all
  have v: "dec_val (Dec 1260 0) = 1260" "dec_val (Dec 1260250000 6) = 1260 + 1 / 4" by (simp_all add: dec_val_def)
  have p: "b_last_poll_time_path demo_bot = LAST_POLL_PATH" by (simp add: demo_bot_def)
  obtain t where t: "fs (pr_world (first_cycle demo_bot demo_world_quiet)) (b_last_poll_time_path demo_bot) = Some (str_float t)"
    "dec_val (last (pr_starts (first_cycle demo_bot demo_world_quiet))) \<le> dec_val t"
    "dec_val t \<le> dec_val (clock (pr_world (first_cycle demo_bot demo_world_quiet)))"
    using proc_watermark_file [OF proc_reach_first_cycle run] st by (simp only: list.distinct(2) simp_thms) blast
  then have "fs (pr_world (first_cycle demo_bot demo_world_quiet)) LAST_POLL_PATH = Some (str_float t) \<and>
      1260 \<le> dec_val t \<and> dec_val t \<le> 1260 + 1 / 4"
    using st clk v p by simp
  moreover have "pr_starts (first_cycle demo_bot demo_world_quiet) \<noteq> []" using st by simp
  ultimately show ?thesis using proc_reach_first_cycle [of demo_bot demo_world_quiet] run by blast
qed

lemma demo_bot_main: "demo_bot = main_bot (\<lambda>k. None)"
  by (simp add: demo_bot_def main_bot_def bot_init_def TOKEN_def CHANNEL_def CLIENT_ID_def CLIENT_SECRET_def
      USER_AGENT_def os_environ_get_def)

theorem cycle_posts_prefix_witness:
  "callback_handler demo_bot sched_init demo_world =
     (fst (callback_handler demo_bot sched_init demo_world),
      fst (snd (callback_handler demo_bot sched_init demo_world)),
      snd (snd (callback_handler demo_bot sched_init demo_world))) \<and>
   (\<exists>k. slack_texts (trace (snd (snd (callback_handler demo_bot sched_init demo_world)))) =
      map (message_of 0) (take k (cycle_subs demo_bot demo_world)))"
proof -
  let ?c = "callback_handler demo_bot sched_init demo_world"
  have h: "?c = (fst ?c, fst (snd ?c), snd (snd ?c))" by simp
  obtain k where k: "slack_texts (trace (snd (snd ?c))) =
      slack_texts (trace demo_world) @ map (message_of (tz_offset demo_world)) (take k (cycle_subs demo_bot demo_world))"
    using cycle_posts_prefix [OF h] by blast
  have "trace demo_world = []" "tz_offset demo_world = 0" by (simp_all add: demo_eval)
  then have "slack_texts (trace (snd (snd ?c))) = map (message_of 0) (take k (cycle_subs demo_bot demo_world))"
    using k by (simp only: slack_texts_simps(1) append_Nil)
  then show ?thesis using h by blast
qed

theorem proc_posts_at_most_once_witness:
  "proc_reach demo_bot demo_world (first_cycle demo_bot demo_world) \<and> listing_wf demo_world \<and>
   (\<exists>ps. slack_texts (trace (pr_world (first_cycle demo_bot demo_world))) =
      map (\<lambda>(tz, sub). message_of tz sub) ps \<and> distinct (map snd ps) \<and>
      subseq (map snd ps) (pr_sent (first_cycle demo_bot demo_world)))"
proof -
  have wf: "listing_wf demo_world" by (simp add: listing_wf_def demo_eval dec_val_def)
  have "slack_texts (trace demo_world) = []" by (simp add: demo_eval)
  then show ?thesis using proc_posts_at_most_once [OF proc_reach_first_cycle wf] proc_reach_first_cycle wf by simp
qed

theorem fetch_posts_trace_witness:
  "listing demo_world ''news'' = Inr demo_posts \<and> rb_logger (b_redditbot demo_bot) \<and>
   fst (fetch_posts (b_redditbot demo_bot) ''news'' 2 demo_world) = Inr (take 2 demo_posts) \<and>
   length (trace (snd (fetch_posts (b_redditbot demo_bot) ''news'' 2 demo_world))) = 4"
proof -
  have h1: "listing demo_world ''news'' = Inr demo_posts" and h2: "rb_logger (b_redditbot demo_bot)"
    by (simp_all add: demo_world_def demo_bot_def)
  have "trace demo_world = []" "length demo_posts = 4" by (simp_all add: demo_world_def demo_posts_def)
  then show ?thesis using fetch_posts_trace [OF h1 h2, of 2] h1 h2 by simp
qed

theorem cycle_value_error_witness:
  "callback_handler demo_bot sched_init demo_world_far =
     (fst (callback_handler demo_bot sched_init demo_world_far),
      fst (snd (callback_handler demo_bot sched_init demo_world_far)),
      snd (snd (callback_handler demo_bot sched_init demo_world_far))) \<and>
   cycle_subs demo_bot demo_world_far = [to_submission demo_far_post] \<and>
   message_time (tz_offset demo_world_far) (s_time_created (to_submission demo_far_post)) =
     Inl (ValueError ''year is out of range'') \<and>
   fst (callback_handler demo_bot sched_init demo_world_far) = Inl (ValueError ''year is out of range'') \<and>
   slack_texts (trace (snd (snd (callback_handler demo_bot sched_init demo_world_far)))) = []"
proof -
  let ?c = "callback_handler demo_bot sched_init demo_world_far"
  have h1: "?c = (fst ?c, fst (snd ?c), snd (snd ?c))" by simp
  have h2: "cycle_subs demo_bot demo_world_far = [to_submission demo_far_post]"
    by (simp add: cycle_subs_def fetch_new_reddit_submissions_def ebind_def demo_eval last_poll_time_set_def
        new_submissions_def dec_gt_def)
  have h3: "message_time (tz_offset demo_world_far) (s_time_created (to_submission demo_far_post)) =
      Inl (ValueError ''year is out of range'')"
    by (simp add: demo_eval to_submission_def datetime_eval)
  have "trace demo_world_far = []" by (simp add: demo_eval)
  then show ?thesis using cycle_value_error [OF h1 h2 h3] h1 h2 h3 by simp
qed

theorem message_time_date_witness:
  "message_time 0 (Dec 951782400 0) = Inr ''00:00:00 02/29/2000'' \<and>
   (\<exists>y mo d hh mm ss. local_time 0 (Dec 951782400 0) = (y, mo, d, hh, mm, ss) \<and>
     1 \<le> mo \<and> mo \<le> 12 \<and> 1 \<le> d \<and> d \<le> 31 \<and> 1 \<le> y \<and> y \<le> 9999 \<and>
     drop 9 ''00:00:00 02/29/2000'' = pad2 mo @ ''/'' @ pad2 d @ ''/'' @ show_nat (nat y) \<and>
     int (digits_val (pad2 mo)) = mo \<and> int (digits_val (pad2 d)) = d \<and> int (digits_val (show_nat (nat y))) = y \<and>
     length ''00:00:00 02/29/2000'' \<le> 19)"
proof -
  have h: "message_time 0 (Dec 951782400 0) = Inr ''00:00:00 02/29/2000''" by (simp add: datetime_eval)
  show ?thesis using message_time_date [OF h] h by blast
qed

theorem cycle_correct_witness:
  "callback_handler demo_bot sched_init demo_world_quiet =
     (Inr (), fst (snd (callback_handler demo_bot sched_init demo_world_quiet)),
      snd (snd (callback_handler demo_bot sched_init demo_world_quiet))) \<and>
   fs (snd (snd (callback_handler demo_bot sched_init demo_world_quiet))) LAST_POLL_PATH = Some ''1200.25'' \<and>
   (\<exists>q ys W. listing demo_world_quiet q = Inr ys \<and>
      slack_texts (trace (snd (snd (callback_handler demo_bot sched_init demo_world_quiet)))) =
        map (message_of 0) (map to_submission (filter (\<lambda>p. case W of Fin d \<Rightarrow> dec_val d < dec_val (p_created p)
          | NInf \<Rightarrow> True | PInf \<Rightarrow> False | NaN \<Rightarrow> False) (take MAX_POSTS ys))))"
proof -
  let ?c = "callback_handler demo_bot sched_init demo_world_quiet"
  have "fst (fetch_new_reddit_submissions demo_bot (py_print ''handler called'' demo_world_quiet)) = Inr []"
    by (simp add: fetch_new_reddit_submissions_def ebind_def demo_eval last_poll_time_set_def
        new_submissions_def dec_gt_def)
  then obtain w2 where "fetch_new_reddit_submissions demo_bot (py_print ''handler called'' demo_world_quiet) = (Inr [], w2)"
    by (metis prod.collapse)
  then have "fst ?c = Inr ()" by (simp add: callback_handler_def Let_def)
  then have h: "?c = (Inr (), fst (snd ?c), snd (snd ?c))" by (metis prod.collapse)
  have e: "trace demo_world_quiet = []" "tz_offset demo_world_quiet = 0"
    "b_last_poll_time_path demo_bot = LAST_POLL_PATH" "str_float (request_clock demo_world_quiet) = ''1200.25''"
    by (simp_all add: demo_eval)
  show ?thesis using cycle_correct [OF h] h e by auto
qed

theorem cycle_bad_watermark_witness:
  "(\<exists>e. fst (callback_handler demo_bot sched_init demo_world_ro) = Inl e) \<and>
   fs (snd (snd (callback_handler demo_bot sched_init demo_world_ro))) = fs demo_world_ro \<and>
   slack_texts (trace (snd (snd (callback_handler demo_bot sched_init demo_world_ro)))) = []"
proof -
  let ?c = "callback_handler demo_bot sched_init demo_world_ro"
  have h: "?c = (fst ?c, fst (snd ?c), snd (snd ?c))" by simp
  have ro: "b_last_poll_time_path demo_bot \<in> ro_paths demo_world_ro" and t: "trace demo_world_ro = []"
    by (simp_all add: demo_eval)
  show ?thesis using cycle_bad_watermark [OF h] ro t by simp
qed

theorem fetch_new_empty_subscriptions_witness:
  "fs demo_world_nosubs (b_subreddits_path demo_bot) = Some [] \<and>
   fst (subscribed_subreddits_formatted (b_subreddits_path demo_bot) demo_world_nosubs) = Inr [] \<and>
   (\<exists>pre post. trace (snd (fetch_new_reddit_submissions demo_bot demo_world_nosubs)) =
      pre @ Reddit_new [] MAX_POSTS # post)"
proof -
  have h: "fs demo_world_nosubs (b_subreddits_path demo_bot) = Some []" by (simp add: demo_eval)
  have t: "trace demo_world_nosubs = []" by (simp add: demo_eval)
  show ?thesis using fetch_new_empty_subscriptions [OF h] h t by simp
qed

theorem cycle_overflow_lost_witness:
  "callback_handler demo_bot sched_init demo_world_overflow =
     (Inr (), fst (snd (callback_handler demo_bot sched_init demo_world_overflow)),
      snd (snd (callback_handler demo_bot sched_init demo_world_overflow))) \<and>
   listing_wf demo_world_overflow \<and>
   fst (subscribed_subreddits_formatted (b_subreddits_path demo_bot) demo_world_overflow) = Inr ''news'' \<and>
   listing demo_world_overflow ''news'' = Inr demo_overflow_posts \<and>
   demo_late_post \<in> set (drop MAX_POSTS demo_overflow_posts) \<and> flt_gt (p_created demo_late_post) (Fin (Dec 1000 0)) \<and>
   to_submission demo_late_post \<notin> set (cycle_subs demo_bot demo_world_overflow) \<and>
   (\<exists>W'. fst (last_poll_time_get (b_last_poll_time_path demo_bot)
      (snd (snd (callback_handler demo_bot sched_init demo_world_overflow)))) = Inr W' \<and>
      \<not> flt_gt (p_created demo_late_post) W')"
proof -
  let ?c = "callback_handler demo_bot sched_init demo_world_overflow"
  have "fst (fetch_new_reddit_submissions demo_bot (py_print ''handler called'' demo_world_overflow)) = Inr []"
    by (simp add: fetch_new_reddit_submissions_def ebind_def demo_eval last_poll_time_set_def
        new_submissions_def dec_gt_def upt_rec)
  then obtain w2 where "fetch_new_reddit_submissions demo_bot (py_print ''handler called'' demo_world_overflow) = (Inr [], w2)"
    by (metis prod.collapse)
  then have "fst ?c = Inr ()" by (simp add: callback_handler_def Let_def)
  then have h: "?c = (Inr (), fst (snd ?c), snd (snd ?c))" by (metis prod.collapse)
  have wf: "listing_wf demo_world_overflow" by (simp add: listing_wf_def demo_eval upt_rec)
  have q: "fst (subscribed_subreddits_formatted (b_subreddits_path demo_bot) demo_world_overflow) = Inr ''news''"
    by (simp add: demo_eval)
  have l: "listing demo_world_overflow ''news'' = Inr demo_overflow_posts"
    by (simp add: demo_world_overflow_def)
  have p: "demo_late_post \<in> set (drop MAX_POSTS demo_overflow_posts)" "flt_gt (p_created demo_late_post) (Fin (Dec 1000 0))"
    by (simp_all add: demo_eval upt_rec)
  show ?thesis using cycle_overflow_lost [OF h wf q l p(1)] h wf q l p by simp
qed

theorem subscribed_subreddits_formatted_roundtrip_witness:
  "subscribed_subreddits_formatted SUBSCRIBED_SUBREDDITS_PATH demo_subs_world =
     (Inr ''news++python'', demo_subs_world) \<and>
   py_split CHR ''+'' ''news++python'' = [''news'', [], ''python'']"
proof -
  have h: "fs demo_subs_world SUBSCRIBED_SUBREDDITS_PATH = Some (subs_file [''news'', [], ''python''])"
    by (simp add: demo_subs_world_def)
  have c: "list_all (\<lambda>s. clean_name s \<and> CHR ''+'' \<notin> set s) [''news'', [], ''python'']"
    by (simp add: clean_name_def is_py_space_def)
  have j: "py_join ''+'' [''news'', [], ''python''] = ''news++python''" by simp
  obtain q where "subscribed_subreddits_formatted SUBSCRIBED_SUBREDDITS_PATH demo_subs_world = (Inr q, demo_subs_world)"
    "py_split CHR ''+'' q = [''news'', [], ''python'']"
    using subscribed_subreddits_formatted_roundtrip [OF h] c by (auto simp: list_all_iff)
  moreover have "q = ''news++python''"
    using calculation(1) h j by (simp add: subscribed_subreddits_formatted_def ebind_def
      subscribed_subreddits_def open_read_def translate_newlines_def subs_file_def py_lines_def py_strip_def is_py_space_def)
  ultimately show ?thesis by simp
qed

theorem proc_later_cycles_newer_witness:
  "proc_reach demo_bot demo_world_quiet demo_second_wake \<and> listing_wf demo_world_quiet \<and>
   pr_status demo_second_wake = Running \<and> pr_starts demo_second_wake = [Dec 1260 0] \<and>
   proc_step demo_bot demo_second_wake demo_second_cycle \<and>
   list_all (\<lambda>sub. dec_val (Dec 1260 0) < dec_val (s_time_created sub))
     (drop (length (pr_sent demo_second_wake)) (pr_sent demo_second_cycle))"
proof -
  let ?P = "first_cycle demo_bot demo_world_quiet"
  let ?e = "\<lparr>ev_time = Dec 1320 0, ev_priority = 1, ev_seq = 1\<rparr>"
  have run: "pr_status ?P = Running" by (rule demo_quiet_first_cycle_running)
  have st: "clock (pr_world ?P) = Dec 1260250000 6" "queue (pr_sched ?P) = [?e]" "pr_starts ?P = [Dec 1260 0]"
    using demo_quiet_first_cycle_state by simp_all
  have s1: "proc_step demo_bot ?P demo_second_wake"
    unfolding demo_second_wake_def Let_def
    by (rule run_sleep [OF run st(2)]) (simp_all add: st(1) dec_gt_def dec_val_def)
  have r2: "proc_reach demo_bot demo_world_quiet demo_second_wake"
    using proc_reach_first_cycle [of demo_bot demo_world_quiet] s1 unfolding proc_reach_def
    by (rule rtranclp.rtrancl_into_rtrancl)
  have run2: "pr_status demo_second_wake = Running" and st2: "pr_starts demo_second_wake = [Dec 1260 0]"
    and q2: "queue (pr_sched demo_second_wake) = [?e]" and c2: "clock (pr_world demo_second_wake) = Dec 1320 0"
    using run st by (simp_all add: demo_second_wake_def Let_def)
  let ?c = "callback_handler demo_bot ((pr_sched demo_second_wake)\<lparr>queue := []\<rparr>) (pr_world demo_second_wake)"
  have h: "?c = (fst ?c, fst (snd ?c), snd (snd ?c))" by simp
  have s2: "proc_step demo_bot demo_second_wake demo_second_cycle"
    unfolding demo_second_cycle_def Let_def
    by (rule run_fire [OF run2 q2 _ h]) (simp add: c2 dec_gt_def)
  have wf: "listing_wf demo_world_quiet" by (simp add: listing_wf_def demo_eval dec_val_def)
  show ?thesis using proc_later_cycles_newer [OF r2 wf run2 _ s2] r2 wf run2 st2 s2 by simp
qed

theorem cycle_skew_redelivers_witness:
  "callback_handler demo_bot sched_init demo_world_skew =
     (Inr (), fst (snd (callback_handler demo_bot sched_init demo_world_skew)),
      snd (snd (callback_handler demo_bot sched_init demo_world_skew))) \<and>
   fst (subscribed_subreddits_formatted (b_subreddits_path demo_bot) demo_world_skew) = Inr ''news'' \<and>
   listing demo_world_skew ''news'' = Inr [demo_skew_post] \<and>
   demo_skew_post \<in> set (take MAX_POSTS [demo_skew_post]) \<and>
   fst (last_poll_time_get (b_last_poll_time_path demo_bot) demo_world_skew) = Inr (Fin (Dec 10000 1)) \<and>
   flt_gt (p_created demo_skew_post) (Fin (Dec 10000 1)) \<and>
   dec_val (request_clock demo_world_skew) < dec_val (p_created demo_skew_post) \<and>
   to_submission demo_skew_post \<in> set (cycle_subs demo_bot demo_world_skew) \<and>
   (\<exists>W'. fst (last_poll_time_get (b_last_poll_time_path demo_bot)
      (snd (snd (callback_handler demo_bot sched_init demo_world_skew)))) = Inr W' \<and>
      flt_gt (p_created demo_skew_post) W')"
proof -
  let ?c = "callback_handler demo_bot sched_init demo_world_skew"
  let ?w1 = "py_print ''handler called'' demo_world_skew"
  let ?sub = "to_submission demo_skew_post"
  have "fst (fetch_new_reddit_submissions demo_bot ?w1) = Inr [?sub]"
    by (simp add: fetch_new_reddit_submissions_def ebind_def demo_eval last_poll_time_set_def)
  then obtain w2 where f: "fetch_new_reddit_submissions demo_bot ?w1 = (Inr [?sub], w2)"
    by (metis prod.collapse)
  have fr: "tz_offset w2 = 0" "slack_api w2 = (\<lambda>m. Slack_ok ''ok'')"
    using fetch_new_Inr_trace [OF f] by (auto simp: demo_eval)
  obtain mt where mt: "message_time (tz_offset w2) (s_time_created ?sub) = Inr mt"
    using fr(1) by (simp add: demo_eval datetime_eval)
  obtain r4 w4 where pm: "post_message (b_slackbot demo_bot) (format_message ?sub mt) w2 = (r4, w4)"
    by (metis prod.collapse)
  then have "r4 = Inr ()" using post_message_frame [OF pm] fr(2) by simp
  then have "post_all demo_bot [?sub] w2 = (Inr (), w4)"
    using post_submission_to_slack_send [OF mt] pm by simp
  then have "fst ?c = Inr ()" using f by (simp add: callback_handler_def Let_def)
  then have h: "?c = (Inr (), fst (snd ?c), snd (snd ?c))" by (metis prod.collapse)
  have q: "fst (subscribed_subreddits_formatted (b_subreddits_path demo_bot) demo_world_skew) = Inr ''news''"
    and l: "listing demo_world_skew ''news'' = Inr [demo_skew_post]"
    and p: "demo_skew_post \<in> set (take MAX_POSTS [demo_skew_post])"
    and W: "fst (last_poll_time_get (b_last_poll_time_path demo_bot) demo_world_skew) = Inr (Fin (Dec 10000 1))"
    and g: "flt_gt (p_created demo_skew_post) (Fin (Dec 10000 1))"
    and r: "dec_val (request_clock demo_world_skew) < dec_val (p_created demo_skew_post)"
    by (simp_all add: demo_eval)
  show ?thesis using cycle_skew_redelivers [OF h q l p W g r] h q l p W g r by blast
qed

end
